(* ===== verification/Prelude.thy ===== *)
theory Prelude
  imports Main "HOL-Library.Word"
begin

text \<open>
  What every component of the model shares: computations that may fail and act on the outside
  world, the lemma collections, generic facts on lists, and the contracts of encoders
  (\<open>codec\<close>) and of step relations (\<open>step_invariant\<close>) that several components provide.

  An asynchronous function of the SDK is a function of the world: it takes the state of
  everything outside the process (the chain, the wallets, the random source) and returns a
  result, which is \<open>Inr\<close> of a value or \<open>Inl\<close> of what was thrown, with the state afterwards.
  \<open>await\<close> is \<open>io_bind\<close>, \<open>throw\<close> is \<open>io_throw\<close>, \<open>try ... catch\<close> is \<open>io_catch\<close>. The type of the
  world stays a type variable throughout.
\<close>

unbundle bit_operations_syntax

named_theorems io_unfold \<open>definitions of the computation combinators\<close>
named_theorems io_elim \<open>what a successful or failed computation was made of\<close>
named_theorems byte_simps \<open>lengths and slices of byte strings\<close>

section \<open>Bytes, strings\<close>

type_synonym byte = "8 word"
type_synonym bytes = "8 word list"

abbreviation newline :: string where "newline \<equiv> [CHR 0x0A]"
abbreviation dquote :: string where "dquote \<equiv> [CHR 0x22]"

definition digit :: "nat \<Rightarrow> char" where
  "digit d = ''0123456789'' ! d"

fun show_nat :: "nat \<Rightarrow> string" where
  "show_nat n = (if n < 10 then [digit n] else show_nat (n div 10) @ [digit (n mod 10)])"

declare show_nat.simps [simp del]

definition show_int :: "int \<Rightarrow> string" where
  "show_int i = (if i < 0 then ''-'' @ show_nat (nat (- i)) else show_nat (nat i))"

fun join :: "string \<Rightarrow> string list \<Rightarrow> string" where
  "join sep [] = []"
| "join sep [x] = x"
| "join sep (x # y # ys) = x @ sep @ join sep (y # ys)"

lemma show_nat_nonempty [simp]: "show_nat n \<noteq> []"
  by (subst show_nat.simps) simp

section \<open>Results\<close>

fun result_bind :: "'e + 'a \<Rightarrow> ('a \<Rightarrow> 'e + 'b) \<Rightarrow> 'e + 'b" where
  "result_bind (Inl e) f = Inl e"
| "result_bind (Inr a) f = f a"

fun result_map :: "('a \<Rightarrow> 'e + 'b) \<Rightarrow> 'a list \<Rightarrow> 'e + 'b list" where
  "result_map f [] = Inr []"
| "result_map f (x # xs) =
     result_bind (f x) (\<lambda>y. result_bind (result_map f xs) (\<lambda>ys. Inr (y # ys)))"

lemma result_bind_eq_Inr [io_elim]:
  "result_bind r f = Inr b \<longleftrightarrow> (\<exists>a. r = Inr a \<and> f a = Inr b)"
  by (cases r) auto

lemma result_bind_eq_Inl:
  "result_bind r f = Inl e \<longleftrightarrow> r = Inl e \<or> (\<exists>a. r = Inr a \<and> f a = Inl e)"
  by (cases r) auto

lemma result_map_Inr:
  "(\<And>x. x \<in> set xs \<Longrightarrow> f x = Inr (g x)) \<Longrightarrow> result_map f xs = Inr (map g xs)"
  by (induction xs) auto

lemma result_map_length: "result_map f xs = Inr ys \<Longrightarrow> length ys = length xs"
  by (induction xs arbitrary: ys) (auto simp: io_elim)

section \<open>Computations on the world\<close>

type_synonym ('e, 'w, 'a) io = "'w \<Rightarrow> ('e + 'a) \<times> 'w"

definition io_return :: "'a \<Rightarrow> ('e, 'w, 'a) io" where [io_unfold]:
  "io_return a w = (Inr a, w)"

definition io_throw :: "'e \<Rightarrow> ('e, 'w, 'a) io" where [io_unfold]:
  "io_throw e w = (Inl e, w)"

definition io_of :: "'e + 'a \<Rightarrow> ('e, 'w, 'a) io" where [io_unfold]:
  "io_of r w = (r, w)"

definition io_bind :: "('e, 'w, 'a) io \<Rightarrow> ('a \<Rightarrow> ('e, 'w, 'b) io) \<Rightarrow> ('e, 'w, 'b) io" where
  "io_bind m f w = (case m w of (Inl e, w') \<Rightarrow> (Inl e, w') | (Inr a, w') \<Rightarrow> f a w')"

definition io_catch :: "('e, 'w, 'a) io \<Rightarrow> ('e \<Rightarrow> ('e, 'w, 'a) io) \<Rightarrow> ('e, 'w, 'a) io" where
  "io_catch m h w = (case m w of (Inl e, w') \<Rightarrow> h e w' | (Inr a, w') \<Rightarrow> (Inr a, w'))"

text \<open>\<open>try\<close> with code after it that the \<open>catch\<close> does not cover.\<close>

definition io_try ::
  "('e, 'w, 'a) io \<Rightarrow> ('a \<Rightarrow> ('e, 'w, 'b) io) \<Rightarrow> ('e \<Rightarrow> ('e, 'w, 'b) io) \<Rightarrow> ('e, 'w, 'b) io" where
  "io_try m f h w = (case m w of (Inl e, w') \<Rightarrow> h e w' | (Inr a, w') \<Rightarrow> f a w')"

fun io_map :: "('a \<Rightarrow> ('e, 'w, 'b) io) \<Rightarrow> 'a list \<Rightarrow> ('e, 'w, 'b list) io" where
  "io_map f [] = io_return []"
| "io_map f (x # xs) =
     io_bind (f x) (\<lambda>y. io_bind (io_map f xs) (\<lambda>ys. io_return (y # ys)))"

lemmas io_ret_simps [simp] = io_return_def io_throw_def io_of_def

lemma io_bind_Inr [simp]: "m w = (Inr a, w') \<Longrightarrow> io_bind m f w = f a w'"
  by (simp add: io_bind_def)

lemma io_bind_Inl [simp]: "m w = (Inl e, w') \<Longrightarrow> io_bind m f w = (Inl e, w')"
  by (simp add: io_bind_def)

lemma io_catch_Inr [simp]: "m w = (Inr a, w') \<Longrightarrow> io_catch m h w = (Inr a, w')"
  by (simp add: io_catch_def)

lemma io_catch_Inl [simp]: "m w = (Inl e, w') \<Longrightarrow> io_catch m h w = h e w'"
  by (simp add: io_catch_def)

lemma io_try_Inr [simp]: "m w = (Inr a, w') \<Longrightarrow> io_try m f h w = f a w'"
  by (simp add: io_try_def)

lemma io_try_Inl [simp]: "m w = (Inl e, w') \<Longrightarrow> io_try m f h w = h e w'"
  by (simp add: io_try_def)

lemma io_bind_eq_Inr [io_elim]:
  "io_bind m f w = (Inr b, w'') \<longleftrightarrow> (\<exists>a w'. m w = (Inr a, w') \<and> f a w' = (Inr b, w''))"
  by (auto simp: io_bind_def split: prod.splits sum.splits)

lemma io_bind_eq_Inl:
  "io_bind m f w = (Inl e, w'') \<longleftrightarrow>
     m w = (Inl e, w'') \<or> (\<exists>a w'. m w = (Inr a, w') \<and> f a w' = (Inl e, w''))"
  by (auto simp: io_bind_def split: prod.splits sum.splits)

lemma io_catch_eq_Inr [io_elim]:
  "io_catch m h w = (Inr b, w'') \<longleftrightarrow>
     m w = (Inr b, w'') \<or> (\<exists>e w'. m w = (Inl e, w') \<and> h e w' = (Inr b, w''))"
  by (auto simp: io_catch_def split: prod.splits sum.splits)

lemma io_catch_eq_Inl [io_elim]:
  "io_catch m h w = (Inl e, w'') \<longleftrightarrow>
     (\<exists>e' w'. m w = (Inl e', w') \<and> h e' w' = (Inl e, w''))"
  by (auto simp: io_catch_def split: prod.splits sum.splits)

lemma io_bind_assoc:
  "io_bind (io_bind m f) g = io_bind m (\<lambda>a. io_bind (f a) g)"
  by (rule ext) (simp add: io_bind_def split: prod.splits sum.splits)

lemma io_bind_return [simp]: "io_bind (io_return a) f = f a"
  by (rule ext) simp

lemma io_bind_return_right: "io_bind m io_return = m"
  by (rule ext) (simp add: io_bind_def split: prod.splits sum.splits)

lemma io_outcome_cases:
  obtains (ok) a w' where "m w = (Inr a, w')" | (err) e w' where "m w = (Inl e, w')"
  by (cases "m w") (metis sum.exhaust)

lemma ran_Inr: "\<not> isl (fst p) \<Longrightarrow> \<exists>a. p = (Inr a, snd p)"
  by (cases p; cases "fst p") simp_all

lemma ran_Inl: "isl (fst p) \<Longrightarrow> \<exists>e. p = (Inl e, snd p)"
  by (cases p; cases "fst p") simp_all

lemma io_map_length: "io_map f xs w = (Inr ys, w') \<Longrightarrow> length ys = length xs"
  by (induction xs arbitrary: ys w) (auto simp: io_elim)

text \<open>
  A local variable that a callback writes (\<open>keys ??= ...\<close>) lives beside the world while the
  callback runs; \<open>io_local\<close> lifts a computation that does not touch it.
\<close>

definition io_local :: "('e, 'w, 'a) io \<Rightarrow> ('e, 'w \<times> 's, 'a) io" where [io_unfold]:
  "io_local m ws = (case m (fst ws) of (r, w') \<Rightarrow> (r, (w', snd ws)))"

definition io_get :: "('e, 'w \<times> 's, 's) io" where [io_unfold]:
  "io_get ws = (Inr (snd ws), ws)"

definition io_put :: "'s \<Rightarrow> ('e, 'w \<times> 's, unit) io" where [io_unfold]:
  "io_put s ws = (Inr (), (fst ws, s))"

lemma io_local_pair [simp]: "io_local m (w, s) = (case m w of (r, w') \<Rightarrow> (r, (w', s)))"
  by (simp add: io_local_def)

lemma io_local_eq:
  "io_local m (w, s) = (r, (w', s')) \<longleftrightarrow> m w = (r, w') \<and> s' = s"
  by (auto split: prod.splits)

text \<open>
  \<open>io_post P m Q E\<close>: started in a world with \<open>P\<close>, the computation ends with \<open>Q\<close> of its value
  and the world, or with \<open>E\<close> of what it threw and the world.
\<close>

definition io_post ::
  "('w \<Rightarrow> bool) \<Rightarrow> ('e, 'w, 'a) io \<Rightarrow> ('a \<Rightarrow> 'w \<Rightarrow> bool) \<Rightarrow> ('e \<Rightarrow> 'w \<Rightarrow> bool) \<Rightarrow> bool" where
  "io_post P m Q E \<longleftrightarrow>
     (\<forall>w. P w \<longrightarrow> (case m w of (Inl e, w') \<Rightarrow> E e w' | (Inr a, w') \<Rightarrow> Q a w'))"

lemma io_postI:
  assumes "\<And>w a w'. P w \<Longrightarrow> m w = (Inr a, w') \<Longrightarrow> Q a w'"
    and "\<And>w e w'. P w \<Longrightarrow> m w = (Inl e, w') \<Longrightarrow> E e w'"
  shows "io_post P m Q E"
  using assms by (auto simp: io_post_def split: prod.splits sum.splits)

lemma io_post_bind:
  assumes "io_post P m Q E" and "\<And>a. io_post (Q a) (f a) R E"
  shows "io_post P (io_bind m f) R E"
  using assms by (fastforce simp: io_post_def io_bind_def split: prod.splits sum.splits)

lemma io_post_catch:
  assumes "io_post P m Q E" and "\<And>e. io_post (E e) (h e) Q F"
  shows "io_post P (io_catch m h) Q F"
  using assms by (fastforce simp: io_post_def io_catch_def split: prod.splits sum.splits)

lemma io_post_return [intro]: "(\<And>w. P w \<Longrightarrow> Q a w) \<Longrightarrow> io_post P (io_return a) Q E"
  by (simp add: io_post_def)

lemma io_post_throw [intro]: "(\<And>w. P w \<Longrightarrow> E e w) \<Longrightarrow> io_post P (io_throw e) Q E"
  by (simp add: io_post_def)

lemma io_post_value: "io_post P m Q E \<Longrightarrow> P w \<Longrightarrow> m w = (Inr a, w') \<Longrightarrow> Q a w'"
  by (auto simp: io_post_def)

lemma io_post_error: "io_post P m Q E \<Longrightarrow> P w \<Longrightarrow> m w = (Inl e, w') \<Longrightarrow> E e w'"
  by (auto simp: io_post_def)

text \<open>A computation that keeps a condition on the world, however it ends.\<close>

definition io_keeps :: "('w \<Rightarrow> bool) \<Rightarrow> ('e, 'w, 'a) io \<Rightarrow> bool" where
  "io_keeps P m \<longleftrightarrow> (\<forall>w r w'. P w \<longrightarrow> m w = (r, w') \<longrightarrow> P w')"

lemma keepsI: "(\<And>w r w'. P w \<Longrightarrow> m w = (r, w') \<Longrightarrow> P w') \<Longrightarrow> io_keeps P m"
  by (simp add: io_keeps_def)

lemma keepsD: "io_keeps P m \<Longrightarrow> P w \<Longrightarrow> m w = (r, w') \<Longrightarrow> P w'"
  by (simp add: io_keeps_def)

lemma keeps_bind:
  assumes "io_keeps P m" and "\<And>a. io_keeps P (f a)"
  shows "io_keeps P (io_bind m f)"
proof (rule keepsI)
  fix w r w' assume P: "P w" and run: "io_bind m f w = (r, w')"
  obtain x w1 where m: "m w = (x, w1)" by force
  have "P w1" by (rule keepsD [OF assms(1) P m])
  with m run show "P w'" using keepsD [OF assms(2)] by (cases x) auto
qed

lemma keeps_pure: "io_keeps P (io_return a)" "io_keeps P (io_throw e)" "io_keeps P (io_of r)"
  by (simp_all add: io_keeps_def)

lemma keeps_option:
  "io_keeps P a \<Longrightarrow> (\<And>y. io_keeps P (b y)) \<Longrightarrow> io_keeps P (case v of None \<Rightarrow> a | Some y \<Rightarrow> b y)"
  by (cases v) simp_all

lemma keeps_prod: "(\<And>x y. io_keeps P (f x y)) \<Longrightarrow> io_keeps P (case p of (x, y) \<Rightarrow> f x y)"
  by (cases p) simp

lemmas keeps_rules = keeps_bind keeps_pure keeps_option keeps_prod

text \<open>
  \<open>io_yields m w Q\<close>: from the world \<open>w\<close> the computation does return, with \<open>Q\<close> of its value and
  the world. This is the total-correctness form: a computation that throws does not yield.
\<close>

definition io_yields :: "('e, 'w, 'a) io \<Rightarrow> 'w \<Rightarrow> ('a \<Rightarrow> 'w \<Rightarrow> bool) \<Rightarrow> bool" where
  "io_yields m w Q \<longleftrightarrow> (\<exists>a w'. m w = (Inr a, w') \<and> Q a w')"

lemma yields_bind:
  "io_yields m w (\<lambda>a w'. io_yields (f a) w' Q) \<Longrightarrow> io_yields (io_bind m f) w Q"
  by (auto simp: io_yields_def)

lemma yields_return: "Q a w \<Longrightarrow> io_yields (io_return a) w Q"
  by (simp add: io_yields_def)

lemma yields_of: "r = Inr a \<Longrightarrow> Q a w \<Longrightarrow> io_yields (io_of r) w Q"
  by (simp add: io_yields_def)

lemma yields_mono:
  "io_yields m w P \<Longrightarrow> (\<And>a w'. P a w' \<Longrightarrow> Q a w') \<Longrightarrow> io_yields m w Q"
  by (auto simp: io_yields_def)

lemma yieldsE:
  assumes "io_yields m w Q"
  obtains a w' where "m w = (Inr a, w')" "Q a w'"
  using assms by (auto simp: io_yields_def)

section \<open>Lists\<close>

text \<open>\<open>xs[i]\<close> of JavaScript: \<open>undefined\<close> (here \<open>None\<close>) out of range.\<close>

definition item :: "'a list \<Rightarrow> nat \<Rightarrow> 'a option" where
  "item xs i = (if i < length xs then Some (xs ! i) else None)"

text \<open>\<open>xs.slice(a, b)\<close> and \<open>xs.subarray(a, b)\<close> for non-negative bounds clamp to the length.\<close>

definition slice :: "nat \<Rightarrow> nat \<Rightarrow> 'a list \<Rightarrow> 'a list" where
  "slice a b xs = take (b - a) (drop a xs)"

lemma item_in [simp]: "i < length xs \<Longrightarrow> item xs i = Some (xs ! i)"
  by (simp add: item_def)

lemma item_out [simp]: "length xs \<le> i \<Longrightarrow> item xs i = None"
  by (simp add: item_def)

lemma length_slice [byte_simps]: "b \<le> length xs \<Longrightarrow> length (slice a b xs) = b - a"
  by (simp add: slice_def)

lemma slice_append_left [byte_simps]: "slice 0 n (xs @ ys) = take n xs @ take (n - length xs) ys"
  by (simp add: slice_def)

lemma slice_append_right [byte_simps]:
  "length xs \<le> a \<Longrightarrow> slice a b (xs @ ys) = slice (a - length xs) (b - length xs) ys"
  by (simp add: slice_def)

lemma slice_all [byte_simps]: "length xs \<le> b \<Longrightarrow> slice 0 b xs = xs"
  by (simp add: slice_def)

text \<open>The batches of a loop \<open>for (i = 0; i < xs.length; i += n)\<close> over \<open>xs.slice(i, i + n)\<close>.\<close>

function batches :: "nat \<Rightarrow> 'a list \<Rightarrow> 'a list list" where
  "batches n xs = (if xs = [] \<or> n = 0 then [] else take n xs # batches n (drop n xs))"
  by pat_completeness auto
termination
  by (relation "measure (length \<circ> snd)") auto

declare batches.simps [simp del]

lemma batches_Nil [simp]: "batches n [] = []"
  by (simp add: batches.simps)

lemma batches_Cons: "0 < n \<Longrightarrow> xs \<noteq> [] \<Longrightarrow> batches n xs = take n xs # batches n (drop n xs)"
  by (simp add: batches.simps)

lemma concat_batches: "0 < n \<Longrightarrow> concat (batches n xs) = xs"
proof (induction n xs rule: batches.induct)
  case (1 n xs)
  then show ?case by (cases "xs = []") (simp_all add: batches_Cons)
qed

lemma batches_length:
  "b \<in> set (batches n xs) \<Longrightarrow> 0 < length b \<and> length b \<le> n"
proof (induction n xs rule: batches.induct)
  case (1 n xs)
  then show ?case
    by (cases "xs = [] \<or> n = 0") (auto simp: batches.simps [of n xs] split: if_splits)
qed

section \<open>Contracts shared by components\<close>

text \<open>An encoder with a decoder that undoes it on the valid values.\<close>

locale codec =
  fixes valid :: "'a \<Rightarrow> bool" and enc :: "'a \<Rightarrow> 'b" and dec :: "'b \<Rightarrow> 'a option"
  assumes dec_enc: "valid x \<Longrightarrow> dec (enc x) = Some x"
begin

lemma enc_inj: "valid x \<Longrightarrow> valid y \<Longrightarrow> enc x = enc y \<Longrightarrow> x = y"
  using dec_enc by (metis option.inject)

lemma enc_neq: "valid x \<Longrightarrow> valid y \<Longrightarrow> x \<noteq> y \<Longrightarrow> enc x \<noteq> enc y"
  using enc_inj by blast

lemma inj_on_enc: "inj_on enc {x. valid x}"
  by (rule inj_onI) (use enc_inj in auto)

end

text \<open>A step relation with an invariant every step keeps.\<close>

locale step_invariant =
  fixes step :: "'s \<Rightarrow> 's \<Rightarrow> bool" and inv :: "'s \<Rightarrow> bool"
  assumes step_inv: "inv s \<Longrightarrow> step s t \<Longrightarrow> inv t"
begin

lemma steps_inv: "step\<^sup>*\<^sup>* s t \<Longrightarrow> inv s \<Longrightarrow> inv t"
  by (induction rule: rtranclp_induct) (auto intro: step_inv)

end

end
