(* ===== verification/Errors.thy ===== *)
theory Errors
  imports Prelude
begin

text \<open>
  \<open>src/src/errors.ts\<close>: the error codes, the error class with its details and the default of
  \<open>retryable\<close>, and the test an application (and the SDK's own retry loop) uses. \<open>exn\<close> is
  everything that can be thrown: the SDK's errors, kit's coded errors, other \<open>Error\<close> objects
  with their name and message, and thrown values that are not errors, by their \<open>String(e)\<close>.
\<close>

type_synonym address = string
type_synonym signature = string

datatype error_code =
    INVALID_INPUT
  | ACCOUNT_NOT_FOUND
  | ACCOUNT_NOT_CONFIGURED
  | ACCOUNT_ALREADY_CONFIGURED
  | ACCOUNT_NOT_APPROVED
  | RECIPIENT_REJECTS_CONFIDENTIAL
  | PENDING_BALANCE_LIMIT
  | INSUFFICIENT_FUNDS
  | AMOUNT_TOO_LARGE
  | KEYS_MISMATCH
  | DECRYPTION_FAILED
  | CANNOT_SIGN_MESSAGES
  | BAD_MESSAGE_SIGNATURE
  | CRYPTO_UNAVAILABLE
  | TRANSACTION_FAILED
  | TRANSACTION_EXPIRED

record proof_accounts =
  pa_closed :: "address list"
  pa_leftOpen :: "address list"

datatype exn =
    Confidential_Error
      (err_code: error_code)
      (err_message: string)
      (err_operation: "string option")
      (err_step: "string option")
      (err_logs: "string list option")
      (err_signatures: "signature list option")
      (err_proofAccounts: "proof_accounts option")
      (err_retryable: bool)
      (err_cause: "exn option")
  | Solana_Error int string
  | Js_Error string string
  | Thrown string

type_synonym ('w, 'a) task = "(exn, 'w, 'a) io"

record error_details =
  d_operation :: "string option"
  d_step :: "string option"
  d_logs :: "string list option"
  d_signatures :: "signature list option"
  d_proofAccounts :: "proof_accounts option"
  d_retryable :: "bool option"
  d_cause :: "exn option"

definition no_details :: error_details where
  "no_details = \<lparr>d_operation = None, d_step = None, d_logs = None, d_signatures = None,
     d_proofAccounts = None, d_retryable = None, d_cause = None\<rparr>"

definition ConfidentialTransfersError :: "error_code \<Rightarrow> string \<Rightarrow> error_details \<Rightarrow> exn" where
  "ConfidentialTransfersError code message details =
     Confidential_Error code message (d_operation details) (d_step details) (d_logs details)
       (d_signatures details) (d_proofAccounts details)
       (case d_retryable details of Some r \<Rightarrow> r | None \<Rightarrow> code = TRANSACTION_EXPIRED)
       (d_cause details)"

fun isConfidentialTransfersError :: "exn \<Rightarrow> error_code option \<Rightarrow> bool" where
  "isConfidentialTransfersError (Confidential_Error c _ _ _ _ _ _ _ _) code \<longleftrightarrow>
     (code = None \<or> code = Some c)"
| "isConfidentialTransfersError _ code \<longleftrightarrow> False"

text \<open>An error with only its operation set, and the one with no details at all.\<close>

definition sdk_error :: "error_code \<Rightarrow> string \<Rightarrow> string \<Rightarrow> exn" where
  "sdk_error code op msg = ConfidentialTransfersError code msg (no_details\<lparr>d_operation := Some op\<rparr>)"

definition sdk_error_with_cause :: "error_code \<Rightarrow> string \<Rightarrow> string \<Rightarrow> exn \<Rightarrow> exn" where
  "sdk_error_with_cause code op msg e =
     ConfidentialTransfersError code msg (no_details\<lparr>d_operation := Some op, d_cause := Some e\<rparr>)"

definition bare_error :: "error_code \<Rightarrow> string \<Rightarrow> exn" where
  "bare_error code msg = ConfidentialTransfersError code msg no_details"

text \<open>\<open>String(e)\<close>, and \<open>e instanceof Error ? e.message : String(e)\<close>.\<close>

fun js_string :: "exn \<Rightarrow> string" where
  "js_string (Confidential_Error _ m _ _ _ _ _ _ _) = ''ConfidentialTransfersError: '' @ m"
| "js_string (Solana_Error _ m) = ''SolanaError: '' @ m"
| "js_string (Js_Error n m) = n @ '': '' @ m"
| "js_string (Thrown s) = s"

fun js_message :: "exn \<Rightarrow> string" where
  "js_message (Confidential_Error _ m _ _ _ _ _ _ _) = m"
| "js_message (Solana_Error _ m) = m"
| "js_message (Js_Error _ m) = m"
| "js_message (Thrown s) = s"

text \<open>\<open>isConfidentialTransfersError(e) && e.retryable\<close>, the retry loop's test.\<close>

definition retryable_error :: "exn \<Rightarrow> bool" where
  "retryable_error e \<longleftrightarrow> isConfidentialTransfersError e None \<and> err_retryable e"

definition has_code :: "error_code \<Rightarrow> exn \<Rightarrow> bool" where
  "has_code c e \<longleftrightarrow> isConfidentialTransfersError e (Some c)"

text \<open>An error of the SDK for one operation, with the given code, that is not worth repeating.\<close>

definition refused_with :: "error_code \<Rightarrow> string \<Rightarrow> exn \<Rightarrow> bool" where
  "refused_with c op e \<longleftrightarrow> has_code c e \<and> err_operation e = Some op \<and> \<not> retryable_error e"

subsection \<open>Facts the components use\<close>

lemma no_details_simps [simp]:
  "d_operation no_details = None" "d_step no_details = None" "d_logs no_details = None"
  "d_signatures no_details = None" "d_proofAccounts no_details = None"
  "d_retryable no_details = None" "d_cause no_details = None"
  by (simp_all add: no_details_def)

lemma is_error_constructed [simp]:
  "isConfidentialTransfersError (ConfidentialTransfersError c m d) code \<longleftrightarrow> code = None \<or> code = Some c"
  by (simp add: ConfidentialTransfersError_def)

lemma has_code_constructed [simp]:
  "has_code c (ConfidentialTransfersError c' m d) \<longleftrightarrow> c = c'"
  by (auto simp: has_code_def)

lemma has_code_sdk [simp]:
  "has_code c (sdk_error c' op m) \<longleftrightarrow> c = c'"
  "has_code c (sdk_error_with_cause c' op m e) \<longleftrightarrow> c = c'"
  "has_code c (bare_error c' m) \<longleftrightarrow> c = c'"
  by (auto simp: sdk_error_def sdk_error_with_cause_def bare_error_def)

lemma has_code_unique: "has_code c e \<Longrightarrow> has_code c' e \<Longrightarrow> c = c'"
  by (cases e) (auto simp: has_code_def)

lemma err_fields_constructed [simp]:
  "err_code (ConfidentialTransfersError c m d) = c"
  "err_message (ConfidentialTransfersError c m d) = m"
  "err_operation (ConfidentialTransfersError c m d) = d_operation d"
  "err_step (ConfidentialTransfersError c m d) = d_step d"
  "err_logs (ConfidentialTransfersError c m d) = d_logs d"
  "err_signatures (ConfidentialTransfersError c m d) = d_signatures d"
  "err_proofAccounts (ConfidentialTransfersError c m d) = d_proofAccounts d"
  "err_retryable (ConfidentialTransfersError c m d) =
     (case d_retryable d of Some r \<Rightarrow> r | None \<Rightarrow> c = TRANSACTION_EXPIRED)"
  "err_cause (ConfidentialTransfersError c m d) = d_cause d"
  by (simp_all add: ConfidentialTransfersError_def)

lemma retryable_constructed:
  "retryable_error (ConfidentialTransfersError c m d) \<longleftrightarrow>
     (case d_retryable d of Some r \<Rightarrow> r | None \<Rightarrow> c = TRANSACTION_EXPIRED)"
  by (simp add: retryable_error_def)

lemma sdk_error_not_retryable [simp]:
  "retryable_error (sdk_error c op m) \<longleftrightarrow> c = TRANSACTION_EXPIRED"
  "retryable_error (sdk_error_with_cause c op m e) \<longleftrightarrow> c = TRANSACTION_EXPIRED"
  "retryable_error (bare_error c m) \<longleftrightarrow> c = TRANSACTION_EXPIRED"
  by (simp_all add: sdk_error_def sdk_error_with_cause_def bare_error_def retryable_constructed)

lemma refused_with_sdk [simp]:
  "refused_with c op (sdk_error c' op' m) \<longleftrightarrow> c = c' \<and> op = op' \<and> c \<noteq> TRANSACTION_EXPIRED"
  "refused_with c op (sdk_error_with_cause c' op' m e) \<longleftrightarrow>
     c = c' \<and> op = op' \<and> c \<noteq> TRANSACTION_EXPIRED"
  by (auto simp: refused_with_def sdk_error_def sdk_error_with_cause_def retryable_constructed)

lemma refused_withD:
  assumes "refused_with c op e"
  shows "has_code c e" "err_operation e = Some op" "\<not> retryable_error e"
  using assms by (auto simp: refused_with_def)

end
