(* ===== verification/JavaScript.thy ===== *)
theory JavaScript
  imports Errors
begin

text \<open>
  The JavaScript values and built-ins the SDK computes with: numbers (every finite double is
  \<open>m / 2 ^ k\<close>), \<open>bigint\<close>, \<open>BigInt(x)\<close>, \<open>Number.isInteger\<close>, \<open>Uint8Array.set\<close>, little-endian
  \<open>DataView\<close> access and \<open>padStart\<close>.
\<close>

section \<open>Numbers\<close>

datatype js_number = Dyadic int nat | Infinite bool | NaN

datatype numeric = BigInt_v int | Number_v js_number

fun isInteger :: "js_number \<Rightarrow> bool" where
  "isInteger (Dyadic m k) \<longleftrightarrow> m mod 2 ^ k = 0"
| "isInteger _ \<longleftrightarrow> False"

fun integer_value :: "js_number \<Rightarrow> int" where
  "integer_value (Dyadic m k) = m div 2 ^ k"
| "integer_value _ = 0"

text \<open>\<open>BigInt(x)\<close> of a number that is not an integer throws a RangeError.\<close>

fun toBigInt :: "numeric \<Rightarrow> exn + int" where
  "toBigInt (BigInt_v i) = Inr i"
| "toBigInt (Number_v x) =
     (if isInteger x then Inr (integer_value x)
      else Inl (Js_Error ''RangeError'' ''The number cannot be converted to a BigInt because it is not an integer''))"

definition js_int :: "int \<Rightarrow> js_number" where
  "js_int i = Dyadic i 0"

lemma js_int_simps [simp]: "isInteger (js_int i)" "integer_value (js_int i) = i"
  by (simp_all add: js_int_def)

lemma toBigInt_int [simp]: "toBigInt (Number_v (js_int i)) = Inr i"
  by simp

text \<open>\<open>a << n\<close> and \<open>a >> n\<close> of bigints: a negative count shifts the other way.\<close>

definition bigint_shl :: "int \<Rightarrow> int \<Rightarrow> int" where
  "bigint_shl a n = (if 0 \<le> n then push_bit (nat n) a else drop_bit (nat (- n)) a)"

definition bigint_shr :: "int \<Rightarrow> int \<Rightarrow> int" where
  "bigint_shr a n = bigint_shl a (- n)"

lemma bigint_shl_eq: "0 \<le> n \<Longrightarrow> bigint_shl a n = a * 2 ^ nat n"
  by (simp add: bigint_shl_def push_bit_eq_mult)

lemma bigint_shr_eq: "0 \<le> n \<Longrightarrow> bigint_shr a n = a div 2 ^ nat n"
  by (cases "n = 0") (simp_all add: bigint_shr_def bigint_shl_def drop_bit_eq_div)

section \<open>Byte arrays\<close>

text \<open>\<open>buf.set(src, off)\<close>: a RangeError when the source does not fit.\<close>

definition set_at :: "bytes \<Rightarrow> bytes \<Rightarrow> nat \<Rightarrow> exn + bytes" where
  "set_at buf src off =
     (if off + length src \<le> length buf
      then Inr (take off buf @ src @ drop (off + length src) buf)
      else Inl (Js_Error ''RangeError'' ''offset is out of bounds''))"

definition zeros :: "nat \<Rightarrow> bytes" where
  "zeros n = replicate n 0"

lemma length_zeros [simp]: "length (zeros n) = n"
  by (simp add: zeros_def)

lemma set_at_length: "set_at buf src off = Inr r \<Longrightarrow> length r = length buf"
  by (auto simp: set_at_def split: if_splits)

lemma set_halves:
  assumes "length a = n" and "length b = n"
  shows "result_bind (set_at (zeros (2 * n)) a 0) (\<lambda>buf. set_at buf b n) = Inr (a @ b)"
  using assms by (simp add: set_at_def zeros_def)

text \<open>\<open>DataView\<close> little-endian access: a 32-bit read, a 64-bit write (which wraps).\<close>

fun le_nat :: "bytes \<Rightarrow> nat" where
  "le_nat [] = 0"
| "le_nat (b # bs) = unat b + 256 * le_nat bs"

fun le_bytes :: "nat \<Rightarrow> nat \<Rightarrow> bytes" where
  "le_bytes 0 n = []"
| "le_bytes (Suc k) n = of_nat (n mod 256) # le_bytes k (n div 256)"

definition getUint32 :: "bytes \<Rightarrow> nat \<Rightarrow> nat" where
  "getUint32 bs off = le_nat (slice off (off + 4) bs)"

definition bigUint64 :: "int \<Rightarrow> bytes" where
  "bigUint64 v = le_bytes 8 (nat (v mod 2 ^ 64))"

lemma length_le_bytes [simp]: "length (le_bytes k n) = k"
  by (induction k arbitrary: n) simp_all

lemma length_bigUint64 [simp]: "length (bigUint64 v) = 8"
  by (simp add: bigUint64_def)

lemma le_nat_le_bytes: "le_nat (le_bytes k n) = n mod 256 ^ k"
proof (induction k arbitrary: n)
  case 0
  then show ?case by simp
next
  case (Suc k)
  have "unat (of_nat (n mod 256) :: 8 word) = n mod 256"
    by (simp add: unat_of_nat)
  then have "le_nat (le_bytes (Suc k) n) = n mod 256 + 256 * (n div 256 mod 256 ^ k)"
    by (simp add: Suc.IH)
  also have "\<dots> = n mod 256 ^ Suc k"
    by (simp add: mod_mult2_eq)
  finally show ?case .
qed

lemma le_nat_bound: "le_nat bs < 256 ^ length bs"
proof (induction bs)
  case Nil
  then show ?case by simp
next
  case (Cons b bs)
  have "unat b < 2 ^ LENGTH(8)" by (rule unsigned_less)
  then have "unat b < 256" by simp
  moreover have "le_nat bs + 1 \<le> 256 ^ length bs" using Cons.IH by simp
  then have "256 * (le_nat bs + 1) \<le> 256 * 256 ^ length bs" by (rule mult_le_mono2)
  ultimately show ?case by simp
qed

interpretation le_codec: codec "\<lambda>n. n < 256 ^ k" "le_bytes k" "\<lambda>bs. Some (le_nat bs)" for k
  by unfold_locales (simp add: le_nat_le_bytes)

lemma le_nat_bigUint64: "int (le_nat (bigUint64 v)) = v mod 2 ^ 64"
proof -
  have "nat (v mod 2 ^ 64) < 256 ^ 8" by (simp add: nat_less_iff)
  then show ?thesis by (simp add: bigUint64_def le_nat_le_bytes)
qed

section \<open>Strings\<close>

definition padStart :: "nat \<Rightarrow> char \<Rightarrow> string \<Rightarrow> string" where
  "padStart n c s = replicate (n - length s) c @ s"

lemma length_padStart [simp]: "length (padStart n c s) = max n (length s)"
  by (simp add: padStart_def)

end
