(* ===== verification/Arithmetic.thy ===== *)
theory Arithmetic
  imports JavaScript
begin

text \<open>
  \<open>src/src/internal/confidentialTransferArithmetic.ts\<close>: the ElGamal ciphertext arithmetic the
  transfer and withdraw proofs are built from. The Ristretto255 points of \<open>@noble/curves\<close> are
  a parameter (\<open>'p ristretto\<close>); \<open>ristretto_group\<close> states what the code relies on: bytes and
  points convert back and forth, addition and subtraction are those of an abelian group, and
  multiplication by a positive scalar below \<open>2 ^ 64\<close> is repeated addition. A ciphertext opens
  to an amount under a secret key when commitment = amount G + secret handle, the equation of
  the zk-sdk's twisted ElGamal.
\<close>

section \<open>The operations of the module\<close>

record 'p ristretto =
  rp_fromHex :: "bytes \<Rightarrow> exn + 'p"
  rp_toRawBytes :: "'p \<Rightarrow> bytes"
  rp_add :: "'p \<Rightarrow> 'p \<Rightarrow> 'p"
  rp_subtract :: "'p \<Rightarrow> 'p \<Rightarrow> 'p"
  rp_multiply :: "'p \<Rightarrow> int \<Rightarrow> exn + 'p"
  rp_BASE :: 'p

definition pointFromBytes :: "'p ristretto \<Rightarrow> bytes \<Rightarrow> exn + 'p" where
  "pointFromBytes R bs = rp_fromHex R bs"

definition ciphertextToPoints :: "'p ristretto \<Rightarrow> bytes \<Rightarrow> exn + ('p \<times> 'p)" where
  "ciphertextToPoints R ciphertext =
     (if length ciphertext \<noteq> 64
      then Inl (Js_Error ''Error''
        (''Expected 64 ciphertext bytes, got '' @ show_nat (length ciphertext) @ ''.''))
      else result_bind (pointFromBytes R (slice 0 32 ciphertext)) (\<lambda>commitment.
           result_bind (pointFromBytes R (slice 32 64 ciphertext)) (\<lambda>handle.
           Inr (commitment, handle))))"

definition pointsToCiphertext :: "'p ristretto \<Rightarrow> 'p \<Rightarrow> 'p \<Rightarrow> exn + bytes" where
  "pointsToCiphertext R commitment handle =
     result_bind (set_at (zeros 64) (rp_toRawBytes R commitment) 0) (\<lambda>ciphertext.
     set_at ciphertext (rp_toRawBytes R handle) 32)"

definition extractCiphertextFromGroupedBytes :: "bytes \<Rightarrow> js_number \<Rightarrow> exn + bytes" where
  "extractCiphertextFromGroupedBytes groupedCiphertext handleIndex =
     (if \<not> isInteger handleIndex \<or> integer_value handleIndex < 0
      then Inl (Js_Error ''Error'' ''handleIndex must be a non-negative integer'')
      else
        let start = 32 + nat (integer_value handleIndex) * 32; end = start + 32 in
        if length groupedCiphertext < end
        then Inl (Js_Error ''Error'' (''Grouped ciphertext does not contain handle ''
          @ show_int (integer_value handleIndex) @ ''.''))
        else result_bind (set_at (zeros 64) (slice 0 32 groupedCiphertext) 0) (\<lambda>ciphertext.
             set_at ciphertext (slice start end groupedCiphertext) 32))"

definition subtractCiphertexts :: "'p ristretto \<Rightarrow> bytes \<Rightarrow> bytes \<Rightarrow> exn + bytes" where
  "subtractCiphertexts R left right =
     result_bind (ciphertextToPoints R left) (\<lambda>(lc, lh).
     result_bind (ciphertextToPoints R right) (\<lambda>(rc, rh).
     pointsToCiphertext R (rp_subtract R lc rc) (rp_subtract R lh rh)))"

definition combineLoHiCiphertexts ::
  "'p ristretto \<Rightarrow> bytes \<Rightarrow> bytes \<Rightarrow> int \<Rightarrow> exn + bytes" where
  "combineLoHiCiphertexts R ciphertextLo ciphertextHi bitLength =
     (let scale = bigint_shl 1 bitLength in
      result_bind (ciphertextToPoints R ciphertextLo) (\<lambda>(lc, lh).
      result_bind (ciphertextToPoints R ciphertextHi) (\<lambda>(hc, hh).
      result_bind (rp_multiply R hc scale) (\<lambda>hc'.
      result_bind (rp_multiply R hh scale) (\<lambda>hh'.
      pointsToCiphertext R (rp_add R lc hc') (rp_add R lh hh'))))))"

definition subtractWithLoHiCiphertexts ::
  "'p ristretto \<Rightarrow> bytes \<Rightarrow> bytes \<Rightarrow> bytes \<Rightarrow> int \<Rightarrow> exn + bytes" where
  "subtractWithLoHiCiphertexts R left ciphertextLo ciphertextHi bitLength =
     result_bind (combineLoHiCiphertexts R ciphertextLo ciphertextHi bitLength)
       (subtractCiphertexts R left)"

definition subtractAmountFromCiphertext :: "'p ristretto \<Rightarrow> bytes \<Rightarrow> int \<Rightarrow> exn + bytes" where
  "subtractAmountFromCiphertext R ciphertext amount =
     (if amount \<le> 0
      then Inl (Js_Error ''Error''
        (''amount must be greater than zero, got '' @ show_int amount @ ''.''))
      else result_bind (ciphertextToPoints R ciphertext) (\<lambda>(commitment, handle).
           result_bind (rp_multiply R (rp_BASE R) amount) (\<lambda>moved.
           pointsToCiphertext R (rp_subtract R commitment moved) handle)))"

section \<open>Scalar multiplication in an abelian group\<close>

definition nat_smul :: "nat \<Rightarrow> 'p::ab_group_add \<Rightarrow> 'p" where
  "nat_smul n p = ((+) p ^^ n) 0"

definition smul :: "int \<Rightarrow> 'p::ab_group_add \<Rightarrow> 'p" where
  "smul k p = nat_smul (nat k) p - nat_smul (nat (- k)) p"

lemma nat_smul_simps [simp]: "nat_smul 0 p = 0" "nat_smul (Suc n) p = p + nat_smul n p"
  by (simp_all add: nat_smul_def)

lemma nat_smul_add: "nat_smul (m + n) p = nat_smul m p + nat_smul n p"
  by (induction m) (simp_all add: add.assoc)

lemma nat_smul_distrib: "nat_smul n (p + q) = nat_smul n p + nat_smul n q"
  by (induction n) (simp_all add: algebra_simps)

lemma nat_smul_mult: "nat_smul (m * n) p = nat_smul m (nat_smul n p)"
  by (induction m) (simp_all add: nat_smul_add)

lemma smul_diff_nat: "smul (int m - int n) p = nat_smul m p - nat_smul n p"
proof -
  have nats: "nat (int m - int n) = m - n" "nat (- (int m - int n)) = n - m" by auto
  have split: "nat_smul b p = nat_smul (b - a) p + nat_smul a p" if "a \<le> b" for a b
    using that nat_smul_add [of "b - a" a p] by simp
  show ?thesis
    using split [of n m] split [of m n]
    by (cases "n \<le> m") (simp_all only: smul_def nats, simp_all)
qed

lemma smul_of_nat [simp]: "smul (int n) p = nat_smul n p"
  by (simp add: smul_def)

lemma smul_one [simp]: "smul 1 p = p"
  by (simp add: smul_def)

lemma smul_zero [simp]: "smul 0 (p :: 'a::ab_group_add) = 0" "smul k (0 :: 'a) = 0"
proof -
  have "nat_smul n (0 :: 'a) = 0" for n by (induction n) simp_all
  then show "smul k (0 :: 'a) = 0" by (simp add: smul_def)
  show "smul 0 p = 0" by (simp add: smul_def)
qed

lemma smul_add: "smul (a + b) p = smul a p + smul b p"
proof -
  obtain m n where a: "a = int m - int n" by (metis int_diff_cases)
  obtain k l where b: "b = int k - int l" by (metis int_diff_cases)
  have "a + b = int (m + k) - int (n + l)" using a b by simp
  then have "smul (a + b) p = nat_smul (m + k) p - nat_smul (n + l) p"
    by (simp only: smul_diff_nat)
  then show ?thesis by (simp add: a b smul_diff_nat nat_smul_add)
qed

lemma smul_minus: "smul (- a) p = - smul a p"
  using smul_add [of "- a" a p] by (simp add: eq_neg_iff_add_eq_0)

lemma smul_diff: "smul (a - b) p = smul a p - smul b p"
  using smul_add [of a "- b" p] by (simp add: smul_minus)

lemma smul_distrib: "smul a (p + q) = smul a p + smul a q"
  by (simp add: smul_def nat_smul_distrib algebra_simps)

lemma smul_distrib_minus: "smul a (- p) = - smul a p"
  using smul_distrib [of a p "- p"] by (simp add: eq_neg_iff_add_eq_0 add.commute)

lemma smul_distrib_diff: "smul a (p - q) = smul a p - smul a q"
  using smul_distrib [of a p "- q"] by (simp add: smul_distrib_minus)

lemma smul_mult_nat: "smul (int m * b) p = nat_smul m (smul b p)"
  by (induction m) (simp_all add: smul_add distrib_right)

lemma smul_mult: "smul (a * b) p = smul a (smul b p)"
proof -
  obtain m n where a: "a = int m - int n" by (metis int_diff_cases)
  have "smul (a * b) p = smul (int m * b) p - smul (int n * b) p"
    by (simp add: a left_diff_distrib smul_diff)
  then show ?thesis by (simp add: a smul_mult_nat smul_diff)
qed

lemmas smul_rules = smul_add smul_diff smul_distrib smul_distrib_diff smul_mult

section \<open>What the operations compute\<close>

definition ristretto_group :: "'p::ab_group_add ristretto \<Rightarrow> bool" where
  "ristretto_group R \<longleftrightarrow>
     (\<forall>p. rp_fromHex R (rp_toRawBytes R p) = Inr p \<and> length (rp_toRawBytes R p) = 32) \<and>
     (\<forall>p q. rp_add R p q = p + q \<and> rp_subtract R p q = p - q) \<and>
     (\<forall>p k. 0 < k \<and> k < 2 ^ 64 \<longrightarrow> rp_multiply R p k = Inr (smul k p))"

definition opens :: "'p::ab_group_add ristretto \<Rightarrow> int \<Rightarrow> bytes \<Rightarrow> int \<Rightarrow> bool" where
  "opens R s ciphertext amount \<longleftrightarrow>
     (case ciphertextToPoints R ciphertext of
        Inl _ \<Rightarrow> False
      | Inr (commitment, handle) \<Rightarrow> commitment = smul amount (rp_BASE R) + smul s handle)"

lemma ristretto_groupD [simp]:
  assumes "ristretto_group R"
  shows "rp_fromHex R (rp_toRawBytes R p) = Inr p" "length (rp_toRawBytes R p) = 32"
    "rp_add R p q = p + q" "rp_subtract R p q = p - q"
    "0 < k \<Longrightarrow> k < 2 ^ 64 \<Longrightarrow> rp_multiply R p k = Inr (smul k p)"
  using assms by (auto simp: ristretto_group_def)

lemma opensE:
  assumes "opens R s ct a"
  obtains C D where "ciphertextToPoints R ct = Inr (C, D)"
    "C = smul a (rp_BASE R) + smul s D"
  using assms by (auto simp: opens_def split: sum.splits)

lemma pointsToCiphertext_bytes:
  assumes "ristretto_group R"
  shows "pointsToCiphertext R C D = Inr (rp_toRawBytes R C @ rp_toRawBytes R D)"
  using set_halves [of "rp_toRawBytes R C" 32 "rp_toRawBytes R D"] assms
  by (simp add: pointsToCiphertext_def)

lemma ciphertextToPoints_bytes:
  assumes "ristretto_group R"
  shows "ciphertextToPoints R (rp_toRawBytes R C @ rp_toRawBytes R D) = Inr (C, D)"
  using assms by (simp add: ciphertextToPoints_def pointFromBytes_def slice_def)

text \<open>A ciphertext is its two points: the module's own encoding round trip.\<close>

interpretation ct_codec:
  codec "\<lambda>p. ristretto_group R" "\<lambda>(C, D). rp_toRawBytes R C @ rp_toRawBytes R D"
    "\<lambda>bs. case ciphertextToPoints R bs of Inr p \<Rightarrow> Some p | Inl _ \<Rightarrow> None" for R
  by unfold_locales (auto simp: ciphertextToPoints_bytes)

lemma opens_bytes:
  assumes "ristretto_group R"
  shows "opens R s (rp_toRawBytes R C @ rp_toRawBytes R D) a \<longleftrightarrow>
     C = smul a (rp_BASE R) + smul s D"
  using assms by (simp add: opens_def ciphertextToPoints_bytes)

lemma subtractCiphertexts_opens:
  assumes R: "ristretto_group R" and l: "opens R s left a" and r: "opens R s right b"
  shows "\<exists>ct. subtractCiphertexts R left right = Inr ct \<and> length ct = 64 \<and> opens R s ct (a - b)"
proof -
  obtain C D where l': "ciphertextToPoints R left = Inr (C, D)" "C = smul a (rp_BASE R) + smul s D"
    by (rule opensE [OF l])
  obtain C' D' where r': "ciphertextToPoints R right = Inr (C', D')"
      "C' = smul b (rp_BASE R) + smul s D'"
    by (rule opensE [OF r])
  show ?thesis
    using R l' r'
    by (simp add: subtractCiphertexts_def pointsToCiphertext_bytes opens_bytes smul_diff
        smul_distrib_diff algebra_simps)
qed

lemma combineLoHi_opens:
  assumes R: "ristretto_group R" and l: "opens R s lo a" and h: "opens R s hi b"
    and n: "0 \<le> n" "n < 64"
  shows "\<exists>ct. combineLoHiCiphertexts R lo hi n = Inr ct \<and> length ct = 64 \<and>
     opens R s ct (a + b * 2 ^ nat n)"
proof -
  let ?k = "2 ^ nat n :: int"
  have scale: "bigint_shl 1 n = ?k" using n by (simp add: bigint_shl_eq)
  have k: "0 < ?k" "?k < 2 ^ 64"
    using n power_strict_increasing [of "nat n" 64 "2 :: int"] by simp_all
  obtain C D where l': "ciphertextToPoints R lo = Inr (C, D)" "C = smul a (rp_BASE R) + smul s D"
    by (rule opensE [OF l])
  obtain C' D' where h': "ciphertextToPoints R hi = Inr (C', D')"
      "C' = smul b (rp_BASE R) + smul s D'"
    by (rule opensE [OF h])
  have "smul s (smul ?k D') = smul ?k (smul s D')" by (metis mult.commute smul_mult)
  moreover have "smul (b * ?k) (rp_BASE R) = smul ?k (smul b (rp_BASE R))"
    by (metis mult.commute smul_mult)
  ultimately show ?thesis
    using R l' h' k
    by (simp add: combineLoHiCiphertexts_def Let_def scale pointsToCiphertext_bytes opens_bytes
        smul_add smul_distrib algebra_simps)
qed

text \<open>
  Subtracting the two halves of a transfer amount from an available-balance ciphertext, as the
  transfer does (16 low bits), subtracts the whole amount under the same key.
\<close>

lemma subtractWithLoHi_opens:
  assumes "ristretto_group R" "opens R s left a" "opens R s lo l" "opens R s hi h"
    "0 \<le> n" "n < 64"
  shows "\<exists>ct. subtractWithLoHiCiphertexts R left lo hi n = Inr ct \<and> length ct = 64 \<and>
     opens R s ct (a - (l + h * 2 ^ nat n))"
  using combineLoHi_opens [OF assms(1,3,4,5,6)] subtractCiphertexts_opens [OF assms(1,2)]
  by (fastforce simp: subtractWithLoHiCiphertexts_def)

lemma subtractAmount_opens:
  assumes R: "ristretto_group R" and c: "opens R s ct a" and amount: "0 < amount" "amount < 2 ^ 64"
  shows "\<exists>ct'. subtractAmountFromCiphertext R ct amount = Inr ct' \<and> length ct' = 64 \<and>
     opens R s ct' (a - amount)"
proof -
  obtain C D where c': "ciphertextToPoints R ct = Inr (C, D)" "C = smul a (rp_BASE R) + smul s D"
    by (rule opensE [OF c])
  then show ?thesis
    using R amount
    by (simp add: subtractAmountFromCiphertext_def pointsToCiphertext_bytes opens_bytes smul_diff
        algebra_simps)
qed

subsection \<open>Extracting one recipient's ciphertext from a grouped ciphertext\<close>

lemma slice_concat:
  assumes "\<forall>x \<in> set xs. length x = n" and "i < length xs"
  shows "slice (i * n) (i * n + n) (concat xs) = xs ! i"
  using assms
proof (induction xs arbitrary: i)
  case Nil
  then show ?case by simp
next
  case (Cons x xs)
  then show ?case by (cases i) (auto simp: slice_def)
qed

lemma length_concat_uniform: "\<forall>x \<in> set xs. length x = n \<Longrightarrow> length (concat xs) = length xs * n"
  by (induction xs) auto

lemma extract_handle:
  assumes c: "length c = 32" and hs: "\<forall>h \<in> set hs. length h = 32" and i: "i < length hs"
  shows "extractCiphertextFromGroupedBytes (c @ concat hs) (js_int (int i)) = Inr (c @ hs ! i)"
proof -
  have len: "length (concat hs) = length hs * 32" using hs by (rule length_concat_uniform)
  have "slice (32 + i * 32) (32 + i * 32 + 32) (c @ concat hs) = hs ! i"
    using slice_concat [OF hs i] c by (simp add: slice_append_right add.commute)
  moreover have "slice 0 32 (c @ concat hs) = c" using c by (simp add: slice_def)
  moreover have "length (hs ! i) = 32" using hs i by simp
  ultimately show ?thesis
    using c i len set_halves [of c 32 "hs ! i"]
    by (simp add: extractCiphertextFromGroupedBytes_def Let_def)
qed

lemma extract_missing_handle:
  assumes "length c = 32" and "\<forall>h \<in> set hs. length h = 32" and "length hs \<le> i"
  shows "\<exists>e. extractCiphertextFromGroupedBytes (c @ concat hs) (js_int (int i)) = Inl e"
  using assms length_concat_uniform [OF assms(2)]
  by (simp add: extractCiphertextFromGroupedBytes_def Let_def)

subsection \<open>A concrete group for the witnesses\<close>

text \<open>Points are the bytes under addition; a point is encoded in 32 bytes, its value first.\<close>

definition byte_group :: "8 word ristretto" where
  "byte_group = \<lparr>
     rp_fromHex = (\<lambda>bs. if length bs = 32 then Inr (hd bs) else Inl (Js_Error ''Error'' ''bad point'')),
     rp_toRawBytes = (\<lambda>p. p # replicate 31 0),
     rp_add = (+), rp_subtract = (-),
     rp_multiply = (\<lambda>p k. if 0 < k then Inr (of_int k * p)
       else Inl (Js_Error ''Error'' ''invalid scalar'')),
     rp_BASE = 1\<rparr>"

lemma nat_smul_word: "nat_smul n p = of_nat n * (p :: 'a::len word)"
  by (induction n) (simp_all add: distrib_right)

lemma smul_word: "smul k p = of_int k * (p :: 'a::len word)"
proof -
  obtain m n where "k = int m - int n" by (metis int_diff_cases)
  then show ?thesis by (simp add: smul_diff_nat nat_smul_word left_diff_distrib)
qed

lemma byte_group_ok: "ristretto_group byte_group"
  by (simp add: ristretto_group_def byte_group_def smul_word)

section \<open>Properties\<close>

text \<open>From the encryption of a balance and those of the two halves of an amount, all under one key,
  the transfer computes, without that key, an encryption of the balance less the whole amount: 64
  bytes that open to it under the same key.\<close>

theorem encrypted_subtraction:
  assumes "ristretto_group R" and "opens R s left a" and "opens R s lo l" and "opens R s hi h"
    and "0 \<le> n" and "n < 64"
  shows "\<exists>ct. subtractWithLoHiCiphertexts R left lo hi n = Inr ct \<and> length ct = 64 \<and>
     opens R s ct (a - (l + h * 2 ^ nat n))"
  by (rule subtractWithLoHi_opens [OF assms])

definition encrypted :: "byte \<Rightarrow> byte \<Rightarrow> byte \<Rightarrow> bytes" where
  "encrypted s v d = rp_toRawBytes byte_group (v + s * d) @ rp_toRawBytes byte_group d"

lemma encrypted_opens: "opens byte_group (uint s) (encrypted s (of_int v) d) v"
  unfolding encrypted_def opens_bytes [OF byte_group_ok] by (simp add: smul_word byte_group_def)

theorem encrypted_subtraction_witness:
  "\<exists>ct. subtractWithLoHiCiphertexts byte_group (encrypted 5 200 3) (encrypted 5 44 1) (encrypted 5 2 7) 4 = Inr ct \<and>
     length ct = 64 \<and> opens byte_group 5 ct (200 - (44 + 2 * 2 ^ nat 4))"
  using encrypted_subtraction [OF byte_group_ok, of 5 "encrypted 5 200 3" 200 "encrypted 5 44 1" 44 "encrypted 5 2 7" 2 4]
    encrypted_opens [of 5 200 3] encrypted_opens [of 5 44 1] encrypted_opens [of 5 2 7]
  by simp

end
