(* ===== verification/Services.thy ===== *)
theory Services
  imports JavaScript
begin

text \<open>
  The data the SDK exchanges with the libraries it imports, and those libraries as parameters:
  \<open>'w rpc\<close> is the RPC client of \<open>@solana/kit\<close> with the account fetchers of
  \<open>@solana-program/token-2022\<close>, \<open>'w kit\<close> the rest of kit, the signers and the instruction
  builders, \<open>'w zk\<close> the \<open>@solana/zk-sdk\<close> cryptography. Every field is a function (or a
  computation on the world) nothing is assumed about; theorems that need a documented behaviour
  name it as a hypothesis. WebAssembly objects (keys, ciphertexts, openings) are their bytes.
\<close>

section \<open>Accounts\<close>

record ct_account =
  approved :: bool
  elgamalPubkey :: address
  pendingBalanceLow :: bytes
  pendingBalanceHigh :: bytes
  availableBalance :: bytes
  decryptableAvailableBalance :: bytes
  allowConfidentialCredits :: bool
  pendingBalanceCreditCounter :: int
  maximumPendingBalanceCreditCounter :: int

text \<open>A transfer hook's \<open>programId\<close> is an address, an option of one, or absent.\<close>

datatype program_id = Plain_Id address | Option_Id "address option" | No_Id

datatype extension =
    ConfidentialTransferAccount ct_account
  | ConfidentialTransferMint "address option"
  | TransferHook program_id
  | OtherExtension string

record token =
  tk_amount :: int
  tk_extensions :: "extension list option"

record mint =
  mt_decimals :: nat
  mt_extensions :: "extension list option"

fun ct_account_of :: "extension \<Rightarrow> ct_account option" where
  "ct_account_of (ConfidentialTransferAccount ct) = Some ct"
| "ct_account_of _ = None"

text \<open>\<open>list.find(...)\<close> with the narrowing the source does by \<open>__kind\<close>.\<close>

fun find_map :: "('a \<Rightarrow> 'b option) \<Rightarrow> 'a list \<Rightarrow> 'b option" where
  "find_map f [] = None"
| "find_map f (x # xs) = (case f x of Some y \<Rightarrow> Some y | None \<Rightarrow> find_map f xs)"

lemma find_map_None: "find_map f xs = None \<longleftrightarrow> (\<forall>x \<in> set xs. f x = None)"
  by (induction xs) (auto split: option.splits)

section \<open>Keys and signers\<close>

record elgamal_keypair =
  kp_pubkey :: bytes
  kp_secret :: bytes

record keypairs =
  elgamalKeypair :: elgamal_keypair
  aesKey :: bytes

record signer =
  sg_address :: address
  sg_modifying :: bool
  sg_partial :: bool
  sg_messagePartial :: bool
  sg_messageModifying :: bool

definition isMessageSigner :: "signer \<Rightarrow> bool" where
  "isMessageSigner s \<longleftrightarrow> sg_messagePartial s \<or> sg_messageModifying s"

section \<open>Instructions, plans, messages, transactions\<close>

datatype account_role = READONLY | WRITABLE | READONLY_SIGNER | WRITABLE_SIGNER

record account_meta =
  am_address :: address
  am_role :: account_role

record transfer_args =
  ta_sourceToken :: address
  ta_mint :: address
  ta_destinationToken :: address
  ta_equalityRecord :: address
  ta_ciphertextValidityRecord :: address
  ta_rangeRecord :: address
  ta_authority :: address
  ta_newSourceDecryptableAvailableBalance :: bytes
  ta_auditorCiphertextLo :: bytes
  ta_auditorCiphertextHi :: bytes
  ta_equalityOffset :: nat
  ta_ciphertextValidityOffset :: nat
  ta_rangeOffset :: nat
  ta_multiSigners :: "signer list option"

record withdraw_args =
  wa_token :: address
  wa_mint :: address
  wa_equalityRecord :: address
  wa_rangeRecord :: address
  wa_authority :: address
  wa_amount :: int
  wa_decimals :: nat
  wa_newDecryptableAvailableBalance :: bytes
  wa_equalityOffset :: nat
  wa_rangeOffset :: nat
  wa_multiSigners :: "signer list option"

record configure_args =
  ca_token :: address
  ca_mint :: address
  ca_authority :: address
  ca_decryptableZeroBalance :: bytes
  ca_maximumPendingBalanceCreditCounter :: numeric
  ca_proofInstructionOffset :: nat

text \<open>
  A call of an instruction builder of the program clients, with its arguments. \<open>VerifyProof\<close> is
  an instruction the zk-elgamal-proof client built for a proof; its bytes are all that is known.
  \<open>RawInstruction\<close> is one that is written out as a program with its data.
\<close>

datatype ix_call =
    ConfidentialTransfer transfer_args address
  | ConfidentialWithdraw withdraw_args address
  | ConfidentialDeposit (dep_token: address) (dep_mint: address) (dep_authority: address)
      (dep_amount: int) (dep_decimals: nat) (dep_program: address)
  | ApplyConfidentialPendingBalance (app_token: address) (app_authority: address)
      (app_expectedCreditCounter: int) (app_newDecryptableAvailableBalance: bytes)
      (app_program: address)
  | ConfigureConfidentialTransferAccount configure_args address
  | CreateAssociatedTokenIdempotent (ata_ata: address) (ata_mint: address) (ata_owner: address)
      (ata_payer: address) (ata_program: address)
  | Reallocate (re_token: address) (re_payer: address) (re_owner: address)
      (re_extensions: "string list") (re_program: address)
  | CloseContextState (cl_contextState: address) (cl_authority: address) (cl_destination: address)
  | VerifyProof bytes
  | CreateAccount (cr_payer: address) (cr_newAccount: address) (cr_lamports: int) (cr_space: int)
      (cr_program: address)
  | InitializeConfidentialTransferMint (im_mint: address) (im_authority: "address option")
      (im_autoApproveNewAccounts: bool) (im_auditorElgamalPubkey: "address option")
  | InitializeMint2 (i2_mint: address) (i2_decimals: nat) (i2_mintAuthority: address)
      (i2_freezeAuthority: "address option")
  | InitializeTransferHook (ih_mint: address) (ih_authority: address) (ih_programId: address)
  | MintTo (mn_mint: address) (mn_token: address) (mn_authority: address) (mn_amount: int)
  | RawInstruction (raw_program: address) (raw_data: bytes)

record instruction =
  ix_call :: ix_call
  ix_accounts :: "account_meta list option"

datatype instruction_plan =
    Single_Plan instruction
  | Sequential_Plan "instruction_plan list"
  | Parallel_Plan "instruction_plan list"

record lifetime =
  blockhash :: string
  lastValidBlockHeight :: int

record message =
  msg_feePayer :: signer
  msg_lifetime :: "lifetime option"
  msg_instructions :: "instruction list"

type_synonym sig_dict = "(address \<times> bytes) list"

record transaction =
  tx_messageBytes :: bytes
  tx_signatures :: "(address \<times> bytes option) list"
  tx_lifetime :: "lifetime option"

datatype proof_kind =
    CiphertextCommitmentEquality
  | BatchedGroupedCiphertext3HandlesValidity
  | BatchedRangeProofU128
  | BatchedRangeProofU64
  | PubkeyValidity

section \<open>The RPC client\<close>

record simulation =
  sim_err :: "string option"
  sim_logs :: "string list option"

record raw_instruction =
  ri_programIdIndex :: nat
  ri_accounts :: "nat list"
  ri_data :: string

record token_balance =
  tb_accountIndex :: nat
  tb_owner :: "address option"

record tx_meta =
  tm_err :: bool
  tm_logMessages :: "string list option"
  tm_innerInstructions :: "(nat \<times> raw_instruction list) list option"
  tm_loadedAddresses :: "(address list \<times> address list) option"
  tm_preTokenBalances :: "token_balance list option"

record rpc_transaction =
  rt_slot :: int
  rt_blockTime :: "int option"
  rt_accountKeys :: "address list option"
  rt_staticAccountKeys :: "address list option"
  rt_instructions :: "raw_instruction list"
  rt_meta :: "tx_meta option"

record signature_info =
  si_signature :: signature
  si_blockTime :: "int option"
  si_err :: bool

text \<open>The \<open>data\<close> of an account is a base64 string, or a pair of it and the encoding's name.\<close>

datatype account_data = Data_Pair string string | Data_String string

record 'w rpc =
  rpc_fetchMaybeToken :: "address \<Rightarrow> ('w, token option) task"
  rpc_fetchMint :: "address \<Rightarrow> ('w, mint) task"
  rpc_getAccountInfo :: "address \<Rightarrow> ('w, account_data option) task"
  rpc_getMultipleAccounts :: "address list \<Rightarrow> ('w, address option list) task"
  rpc_getProgramAccounts :: "address \<Rightarrow> address \<Rightarrow> ('w, (address \<times> int) list) task"
  rpc_getLatestBlockhash :: "('w, lifetime) task"
  rpc_simulateTransaction :: "transaction \<Rightarrow> ('w, simulation) task"
  rpc_sendAndConfirm :: "transaction \<Rightarrow> ('w, unit) task"
  rpc_getTransaction :: "signature \<Rightarrow> ('w, rpc_transaction option) task"
  rpc_getSignaturesForAddress ::
    "address \<Rightarrow> signature option \<Rightarrow> nat \<Rightarrow> ('w, signature_info list) task"

section \<open>Kit, signers and program clients\<close>

record 'w kit =
  kit_race :: "exn list \<Rightarrow> exn"
  kit_findAssociatedTokenPda :: "address \<Rightarrow> address \<Rightarrow> address \<Rightarrow> exn + address"
  kit_getProgramDerivedAddress :: "address \<Rightarrow> bytes list \<Rightarrow> exn + address"
  kit_encodeAddress :: "address \<Rightarrow> exn + bytes"
  kit_decodeAddress :: "bytes \<Rightarrow> exn + address"
  kit_base58 :: "string \<Rightarrow> exn + bytes"
  kit_base64 :: "string \<Rightarrow> exn + bytes"
  kit_accounts :: "ix_call \<Rightarrow> account_meta list option"
  kit_setComputeUnitPrice :: "int \<Rightarrow> message \<Rightarrow> exn + message"
  kit_withinSizeLimit :: "message \<Rightarrow> bool"
  kit_planner :: "signer \<Rightarrow> instruction_plan \<Rightarrow> ('w, message list) task"
  kit_compile :: "message \<Rightarrow> exn + transaction"
  kit_signersOf :: "message \<Rightarrow> signer list"
  kit_modifyAndSignTransactions :: "signer \<Rightarrow> transaction option list \<Rightarrow> ('w, transaction list) task"
  kit_signTransactions :: "signer \<Rightarrow> transaction option list \<Rightarrow> ('w, sig_dict list) task"
  kit_assertFullySigned :: "transaction \<Rightarrow> exn + unit"
  kit_getSignature :: "transaction \<Rightarrow> exn + signature"
  kit_blockHeightExceeded :: "exn \<Rightarrow> bool"
  kit_generateKeyPairSigner :: "('w, signer) task"
  kit_verifyProof ::
    "proof_kind \<Rightarrow> address \<Rightarrow> bytes \<Rightarrow> (signer \<times> address) option \<Rightarrow> ('w, instruction list) task"
  kit_signMessages :: "signer \<Rightarrow> bytes \<Rightarrow> ('w, sig_dict option) task"
  kit_modifyAndSignMessages :: "signer \<Rightarrow> bytes \<Rightarrow> ('w, (bytes \<times> sig_dict) option) task"
  kit_ed25519Verify :: "bytes \<Rightarrow> bytes \<Rightarrow> bytes \<Rightarrow> exn + bool"

text \<open>
  \<open>Promise.all\<close>: every task runs, the values come back in the order of the list, and when some
  fail the error is that of the one that failed first in time, which \<open>kit_race\<close> picks among
  them. The tasks' effects are taken one task after another.
\<close>

fun io_settle :: "('w, 'a) task list \<Rightarrow> 'w \<Rightarrow> (exn + 'a) list \<times> 'w" where
  "io_settle [] w = ([], w)"
| "io_settle (t # ts) w =
     (case t w of (r, w') \<Rightarrow> (case io_settle ts w' of (rs, w'') \<Rightarrow> (r # rs, w'')))"

fun failures :: "(exn + 'a) list \<Rightarrow> exn list" where
  "failures [] = []"
| "failures (Inl e # rs) = e # failures rs"
| "failures (Inr _ # rs) = failures rs"

fun successes :: "(exn + 'a) list \<Rightarrow> 'a list" where
  "successes [] = []"
| "successes (Inl _ # rs) = successes rs"
| "successes (Inr a # rs) = a # successes rs"

definition first_failure :: "(exn list \<Rightarrow> exn) \<Rightarrow> exn list \<Rightarrow> exn" where
  "first_failure race es = (if race es \<in> set es then race es else hd es)"

definition promise_all :: "(exn list \<Rightarrow> exn) \<Rightarrow> ('w, 'a) task list \<Rightarrow> ('w, 'a list) task" where
  "promise_all race ts w =
     (case io_settle ts w of (rs, w') \<Rightarrow>
        (if failures rs = [] then Inr (successes rs) else Inl (first_failure race (failures rs)), w'))"

lemma first_failure_in: "es \<noteq> [] \<Longrightarrow> first_failure race es \<in> set es"
  by (simp add: first_failure_def)

lemma io_settle_length: "io_settle ts w = (rs, w') \<Longrightarrow> length rs = length ts"
  by (induction ts arbitrary: w rs) (auto split: prod.splits)

lemma no_failures: "failures rs = [] \<Longrightarrow> rs = map Inr (successes rs)"
  by (induction rs rule: failures.induct) auto

lemma failures_set: "set (failures rs) = {e. Inl e \<in> set rs}"
  by (induction rs rule: failures.induct) auto

text \<open>A \<open>Promise.all\<close> that succeeds is the sequence of its tasks.\<close>

lemma io_settle_seq:
  "io_settle ts w = (rs, w') \<Longrightarrow> failures rs = [] \<Longrightarrow> io_map id ts w = (Inr (successes rs), w')"
proof (induction ts arbitrary: w rs)
  case Nil
  then show ?case by simp
next
  case (Cons t ts)
  then obtain r w1 rs' where t: "t w = (r, w1)" "io_settle ts w1 = (rs', w')" "rs = r # rs'"
    by (auto split: prod.splits)
  with Cons.prems(2) obtain a where r: "r = Inr a" "failures rs' = []" by (cases r) auto
  with Cons.IH [OF t(2) r(2)] t show ?case by simp
qed

lemma promise_all_Inr_seq: "promise_all race ts w = (Inr ys, w') \<Longrightarrow> io_map id ts w = (Inr ys, w')"
  by (auto simp: promise_all_def io_settle_seq split: prod.splits if_splits)

lemma yields_promise_all2:
  assumes "io_yields t1 w (\<lambda>a w1. io_yields t2 w1 (\<lambda>b w2. Q [a, b] w2))"
  shows "io_yields (promise_all race [t1, t2]) w Q"
  using assms by (auto simp: io_yields_def promise_all_def)

lemma yields_promise_all3:
  assumes "io_yields t1 w (\<lambda>a w1. io_yields t2 w1 (\<lambda>b w2. io_yields t3 w2 (\<lambda>c w3. Q [a, b, c] w3)))"
  shows "io_yields (promise_all race [t1, t2, t3]) w Q"
  using assms by (auto simp: io_yields_def promise_all_def)

definition build :: "'w kit \<Rightarrow> ix_call \<Rightarrow> instruction" where
  "build K c = \<lparr>ix_call = c, ix_accounts = kit_accounts K c\<rparr>"

lemma ix_call_build [simp]: "ix_call (build K c) = c"
  by (simp add: build_def)

section \<open>The zk-sdk\<close>

record 'w zk =
  zk_newOpening :: "('w, bytes) task"
  zk_commit :: "int \<Rightarrow> bytes \<Rightarrow> exn + bytes"
  zk_commitmentFromBytes :: "bytes \<Rightarrow> exn + bytes"
  zk_pubkeyFromBytes :: "bytes \<Rightarrow> exn + bytes"
  zk_groupedEncrypt :: "bytes \<Rightarrow> bytes \<Rightarrow> bytes \<Rightarrow> int \<Rightarrow> bytes \<Rightarrow> exn + bytes"
  zk_elgamalFromBytes :: "bytes \<Rightarrow> bytes option"
  zk_elgamalDecrypt :: "bytes \<Rightarrow> bytes \<Rightarrow> exn + int"
  zk_aeFromBytes :: "bytes \<Rightarrow> bytes option"
  zk_aeDecrypt :: "bytes \<Rightarrow> bytes \<Rightarrow> exn + int"
  zk_aeEncrypt :: "bytes \<Rightarrow> int \<Rightarrow> ('w, bytes) task"
  zk_equalityProof :: "elgamal_keypair \<Rightarrow> bytes \<Rightarrow> bytes \<Rightarrow> bytes \<Rightarrow> int \<Rightarrow> ('w, bytes) task"
  zk_validityProof ::
    "bytes \<Rightarrow> bytes \<Rightarrow> bytes \<Rightarrow> bytes \<Rightarrow> bytes \<Rightarrow> int \<Rightarrow> int \<Rightarrow> bytes \<Rightarrow> bytes \<Rightarrow> ('w, bytes) task"
  zk_rangeProofU128 :: "bytes list \<Rightarrow> int list \<Rightarrow> nat list \<Rightarrow> bytes list \<Rightarrow> ('w, bytes) task"
  zk_rangeProofU64 :: "bytes list \<Rightarrow> int list \<Rightarrow> nat list \<Rightarrow> bytes list \<Rightarrow> ('w, bytes) task"
  zk_pubkeyValidityProof :: "elgamal_keypair \<Rightarrow> ('w, bytes) task"
  zk_keysFromSignature :: "bytes \<Rightarrow> exn + keypairs"
  zk_signerMessage :: bytes
  zk_signerMessageWithSeed :: "bytes \<Rightarrow> exn + bytes"
  zk_pdaWalletPublicSeed :: "bytes \<Rightarrow> bytes \<Rightarrow> bytes \<Rightarrow> bytes \<Rightarrow> exn + bytes"

section \<open>Program addresses\<close>

definition TOKEN_2022_PROGRAM_ADDRESS :: address where
  "TOKEN_2022_PROGRAM_ADDRESS = ''TokenzQdBNbLqP5VEhdkAS6EPFLC1PHnBqCXEpPxuEb''"

definition ZK_ELGAMAL_PROOF_PROGRAM_ADDRESS :: address where
  "ZK_ELGAMAL_PROOF_PROGRAM_ADDRESS = ''ZkE1Gama1Proof11111111111111111111111111111''"

definition SYSTEM_PROGRAM :: address where
  "SYSTEM_PROGRAM = ''11111111111111111111111111111111''"

text \<open>A library where every call throws: witnesses replace the calls they make.\<close>

definition no_call :: exn where
  "no_call = Js_Error ''Error'' ''not called''"

definition offline_rpc :: "'w rpc" where
  "offline_rpc = \<lparr>
     rpc_fetchMaybeToken = (\<lambda>_. io_throw no_call), rpc_fetchMint = (\<lambda>_. io_throw no_call),
     rpc_getAccountInfo = (\<lambda>_. io_throw no_call), rpc_getMultipleAccounts = (\<lambda>_. io_throw no_call),
     rpc_getProgramAccounts = (\<lambda>_ _. io_throw no_call), rpc_getLatestBlockhash = io_throw no_call,
     rpc_simulateTransaction = (\<lambda>_. io_throw no_call), rpc_sendAndConfirm = (\<lambda>_. io_throw no_call),
     rpc_getTransaction = (\<lambda>_. io_throw no_call),
     rpc_getSignaturesForAddress = (\<lambda>_ _ _. io_throw no_call)\<rparr>"

definition idle_kit :: "'w kit" where
  "idle_kit = \<lparr>
     kit_race = hd,
     kit_findAssociatedTokenPda = (\<lambda>owner _ mint. Inr (owner @ ''/'' @ mint)),
     kit_getProgramDerivedAddress = (\<lambda>p _. Inr (p @ ''/pda'')),
     kit_encodeAddress = (\<lambda>a. Inr (map (\<lambda>c. of_nat (of_char c)) a)),
     kit_decodeAddress = (\<lambda>b. Inr (map (\<lambda>x. char_of (unat x)) b)),
     kit_base58 = (\<lambda>_. Inl no_call), kit_base64 = (\<lambda>_. Inl no_call), kit_accounts = (\<lambda>_. None),
     kit_setComputeUnitPrice = (\<lambda>_ m. Inr m), kit_withinSizeLimit = (\<lambda>_. True),
     kit_planner = (\<lambda>_ _. io_throw no_call), kit_compile = (\<lambda>_. Inl no_call),
     kit_signersOf = (\<lambda>m. [msg_feePayer m]),
     kit_modifyAndSignTransactions = (\<lambda>_ _. io_throw no_call),
     kit_signTransactions = (\<lambda>_ _. io_throw no_call), kit_assertFullySigned = (\<lambda>_. Inr ()),
     kit_getSignature = (\<lambda>_. Inr ''sig''), kit_blockHeightExceeded = (\<lambda>_. False),
     kit_generateKeyPairSigner = io_throw no_call, kit_verifyProof = (\<lambda>_ _ _ _. io_throw no_call),
     kit_signMessages = (\<lambda>_ _. io_throw no_call),
     kit_modifyAndSignMessages = (\<lambda>_ _. io_throw no_call), kit_ed25519Verify = (\<lambda>_ _ _. Inr False)\<rparr>"

definition idle_zk :: "'w zk" where
  "idle_zk = \<lparr>
     zk_newOpening = io_throw no_call, zk_commit = (\<lambda>_ _. Inl no_call),
     zk_commitmentFromBytes = Inr, zk_pubkeyFromBytes = Inr,
     zk_groupedEncrypt = (\<lambda>_ _ _ _ _. Inl no_call), zk_elgamalFromBytes = Some,
     zk_elgamalDecrypt = (\<lambda>_ _. Inl no_call), zk_aeFromBytes = Some,
     zk_aeDecrypt = (\<lambda>_ _. Inl no_call), zk_aeEncrypt = (\<lambda>_ _. io_throw no_call),
     zk_equalityProof = (\<lambda>_ _ _ _ _. io_throw no_call),
     zk_validityProof = (\<lambda>_ _ _ _ _ _ _ _ _. io_throw no_call),
     zk_rangeProofU128 = (\<lambda>_ _ _ _. io_throw no_call),
     zk_rangeProofU64 = (\<lambda>_ _ _ _. io_throw no_call),
     zk_pubkeyValidityProof = (\<lambda>_. io_throw no_call), zk_keysFromSignature = (\<lambda>_. Inl no_call),
     zk_signerMessage = [], zk_signerMessageWithSeed = (\<lambda>_. Inl no_call),
     zk_pdaWalletPublicSeed = (\<lambda>_ _ _ _. Inl no_call)\<rparr>"

section \<open>Local state\<close>

text \<open>
  A computation whose world carries a state of its own beside the rest of the world (a captured
  variable, the variables of a page): writing it, and leaving it alone.
\<close>

definition change :: "('s \<Rightarrow> 's) \<Rightarrow> ('w \<times> 's, unit) task" where
  "change f = io_bind io_get (\<lambda>s. io_put (f s))"

lemma change_eq [simp]: "change f (w, p) = (Inr (), (w, f p))"
  by (simp add: change_def io_get_def io_put_def io_bind_def)

lemma get_bind: "io_bind io_get f (w, p) = f p (w, p)"
  by (simp add: io_bind_def io_get_def)

lemma of_bind: "io_bind (io_of (Inr a)) f x = f a x"
  by (simp add: io_bind_def)

lemma io_local_eq_pair:
  "io_local m ws = (r, ws') \<longleftrightarrow> m (fst ws) = (r, fst ws') \<and> snd ws' = snd ws"
  by (cases ws; cases ws') (auto simp: io_local_def split: prod.splits)

lemma keeps_change: "(\<And>p. P p \<Longrightarrow> P (f p)) \<Longrightarrow> io_keeps (\<lambda>x. P (snd x)) (change f)"
  by (auto simp: io_keeps_def)

lemma keeps_if: "io_keeps P a \<Longrightarrow> io_keeps P b \<Longrightarrow> io_keeps P (if c then a else b)"
  by simp

definition keeps_local :: "('w \<times> 's, 'a) task \<Rightarrow> bool" where
  "keeps_local m \<longleftrightarrow> (\<forall>p. io_keeps (\<lambda>x. snd x = p) m)"

lemma keeps_localD: "keeps_local m \<Longrightarrow> m (w, p) = (r, (w', p')) \<Longrightarrow> p' = p"
  by (auto simp: keeps_local_def io_keeps_def)

lemma keeps_local_keeps: "keeps_local m \<Longrightarrow> io_keeps (\<lambda>x. P (snd x)) m"
proof (rule keepsI)
  fix x r y assume "keeps_local m" and "P (snd x)" and "m x = (r, y)"
  then have "snd y = snd x" by (cases x; cases y) (auto dest: keeps_localD)
  with \<open>P (snd x)\<close> show "P (snd y)" by simp
qed

lemma keeps_local_basic:
  "keeps_local (io_local m)" "keeps_local io_get" "keeps_local (io_return a)" "keeps_local (io_throw e)"
  "keeps_local (io_of r)"
  by (auto simp: keeps_local_def io_keeps_def io_local_eq_pair io_get_def)

lemma keeps_local_bind: "keeps_local m \<Longrightarrow> (\<And>a. keeps_local (f a)) \<Longrightarrow> keeps_local (io_bind m f)"
  unfolding keeps_local_def by (intro allI keeps_bind) blast+

lemma keeps_local_if: "keeps_local a \<Longrightarrow> keeps_local b \<Longrightarrow> keeps_local (if c then a else b)"
  by simp

lemma keeps_local_option:
  "keeps_local a \<Longrightarrow> (\<And>y. keeps_local (b y)) \<Longrightarrow> keeps_local (case v of None \<Rightarrow> a | Some y \<Rightarrow> b y)"
  by (cases v) simp_all

lemma keeps_local_prod: "(\<And>x y. keeps_local (f x y)) \<Longrightarrow> keeps_local (case v of (x, y) \<Rightarrow> f x y)"
  by (cases v) simp

lemma keeps_try:
  assumes "io_keeps P m" and "\<And>a. io_keeps P (f a)" and "\<And>e. io_keeps P (h e)"
  shows "io_keeps P (io_try m f h)"
proof (rule keepsI)
  fix w r w' assume P: "P w" and run: "io_try m f h w = (r, w')"
  obtain x w1 where m: "m w = (x, w1)" by force
  have "P w1" by (rule keepsD [OF assms(1) P m])
  show "P w'"
  proof (cases x)
    case (Inl e)
    then have "h e w1 = (r, w')" using m run by simp
    then show ?thesis using assms(3) \<open>P w1\<close> unfolding io_keeps_def by blast
  next
    case (Inr a)
    then have "f a w1 = (r, w')" using m run by simp
    then show ?thesis using assms(2) \<open>P w1\<close> unfolding io_keeps_def by blast
  qed
qed

lemma keeps_catch:
  assumes "io_keeps P m" and "\<And>e. io_keeps P (h e)"
  shows "io_keeps P (io_catch m h)"
proof (rule keepsI)
  fix w r w' assume P: "P w" and run: "io_catch m h w = (r, w')"
  obtain x w1 where m: "m w = (x, w1)" by force
  have "P w1" by (rule keepsD [OF assms(1) P m])
  show "P w'"
  proof (cases x)
    case (Inl e)
    then have "h e w1 = (r, w')" using m run by simp
    then show ?thesis using assms(2) \<open>P w1\<close> unfolding io_keeps_def by blast
  next
    case (Inr a)
    then show ?thesis using m run \<open>P w1\<close> by simp
  qed
qed

lemma keeps_local_try:
  "keeps_local m \<Longrightarrow> (\<And>a. keeps_local (f a)) \<Longrightarrow> (\<And>e. keeps_local (h e)) \<Longrightarrow> keeps_local (io_try m f h)"
  unfolding keeps_local_def by (intro allI keeps_try) blast+

lemma keeps_local_catch: "keeps_local m \<Longrightarrow> (\<And>e. keeps_local (h e)) \<Longrightarrow> keeps_local (io_catch m h)"
  unfolding keeps_local_def by (intro allI keeps_catch) blast+

lemma keeps_settle:
  "(\<And>t. t \<in> set ts \<Longrightarrow> io_keeps P t) \<Longrightarrow> P w \<Longrightarrow> io_settle ts w = (rs, w') \<Longrightarrow> P w'"
proof (induction ts arbitrary: w rs)
  case Nil
  then show ?case by simp
next
  case (Cons t ts)
  obtain r w1 where t: "t w = (r, w1)" by force
  obtain rs' where ts: "io_settle ts w1 = (rs', w')" using Cons.prems(3) t by (auto split: prod.splits)
  have "io_keeps P t" by (rule Cons.prems(1)) simp
  then have "P w1" using Cons.prems(2) t unfolding io_keeps_def by blast
  moreover have "\<And>t'. t' \<in> set ts \<Longrightarrow> io_keeps P t'" using Cons.prems(1) by simp
  ultimately show ?case using Cons.IH ts by blast
qed

lemma keeps_promise_all: "(\<And>t. t \<in> set ts \<Longrightarrow> io_keeps P t) \<Longrightarrow> io_keeps P (promise_all race ts)"
proof (rule keepsI)
  assume ts: "\<And>t. t \<in> set ts \<Longrightarrow> io_keeps P t"
  fix w r w' assume P: "P w" and run: "promise_all race ts w = (r, w')"
  obtain rs where "io_settle ts w = (rs, w')"
    using run by (auto simp: promise_all_def split: prod.splits)
  then show "P w'"
    by (rule keeps_settle [where P = P and ts = ts and w = w, rotated 2]) (fact ts, fact P)
qed

lemma keeps_local_promise_all: "list_all keeps_local ts \<Longrightarrow> keeps_local (promise_all race ts)"
  by (auto simp: keeps_local_def list_all_iff intro!: keeps_promise_all)

lemmas keeps_local_rules =
  keeps_local_basic keeps_local_bind keeps_local_if keeps_local_option keeps_local_prod keeps_local_try
  keeps_local_catch

lemma bind_keeps_localE:
  assumes "io_bind m f (w, p) = (r, (w', p'))" and "keeps_local m"
  obtains (stopped) e where "r = Inl e" "p' = p"
  | (went_on) a w1 where "m (w, p) = (Inr a, (w1, p))" "f a (w1, p) = (r, (w', p'))"
proof -
  obtain x w1 p1 where m: "m (w, p) = (x, (w1, p1))" by (metis surj_pair)
  have "p1 = p" by (rule keeps_localD [OF assms(2) m])
  then show ?thesis using assms(1) m that by (cases x) auto
qed

end
