(* ===== verification/Accounts.thy ===== *)
theory Accounts
  imports Services
begin

text \<open>
  \<open>src/src/internal/accounts.ts\<close>: reading a token account that must be configured for
  confidential transfers, and the test whether it can take one more deposit or transfer. What
  the operations rely on is the contract \<open>account_reader\<close>.
\<close>

definition MAX_DEPOSIT_OR_TRANSFER_AMOUNT :: int where
  "MAX_DEPOSIT_OR_TRANSFER_AMOUNT = bigint_shl 1 48 - 1"

definition confidentialState :: "token \<Rightarrow> ct_account option" where
  "confidentialState account =
     (case tk_extensions account of
        None \<Rightarrow> None
      | Some extensions \<Rightarrow> find_map ct_account_of extensions)"

definition readConfiguredAccount ::
  "'w rpc \<Rightarrow> address \<Rightarrow> string \<Rightarrow> string \<Rightarrow> ('w, token \<times> ct_account) task" where
  "readConfiguredAccount R token operation whose =
     io_bind (rpc_fetchMaybeToken R token) (\<lambda>account.
     case account of
       None \<Rightarrow> io_throw (sdk_error ACCOUNT_NOT_FOUND operation
         (operation @ '': '' @ whose @ '' token account '' @ token @
          '' does not exist. It is created by configureAccount.''))
     | Some data \<Rightarrow>
         (case confidentialState data of
            None \<Rightarrow> io_throw (sdk_error ACCOUNT_NOT_CONFIGURED operation
              (operation @ '': '' @ whose @ '' token account '' @ token @
               '' is missing the ConfidentialTransferAccount extension; '' @
               ''it has to be set up with configureAccount first.''))
          | Some ct \<Rightarrow> io_return (data, ct)))"

datatype whose = Your | The_Recipients

fun whose_text :: "whose \<Rightarrow> string" where
  "whose_text Your = ''your''"
| "whose_text The_Recipients = ''the recipient's''"

definition assertCanReceive :: "ct_account \<Rightarrow> address \<Rightarrow> string \<Rightarrow> whose \<Rightarrow> exn + unit" where
  "assertCanReceive ct token operation whose =
     (let account = operation @ '': '' @ whose_text whose @ '' token account '' @ token in
      if \<not> approved ct
      then Inl (sdk_error ACCOUNT_NOT_APPROVED operation
        (account @ '' has not been approved for confidential transfers by the mint's confidential-transfer authority.''))
      else if \<not> allowConfidentialCredits ct
      then Inl (sdk_error RECIPIENT_REJECTS_CONFIDENTIAL operation
        (account @ '' does not accept confidential credits.''))
      else if maximumPendingBalanceCreditCounter ct \<le> pendingBalanceCreditCounter ct
      then Inl (sdk_error PENDING_BALANCE_LIMIT operation
        (account @ '' has received '' @ show_int (pendingBalanceCreditCounter ct) @
         '' deposits or transfers since its pending balance was last applied, the most it takes. '' @
         (if whose = Your then ''Run applyPendingBalance first.''
          else ''The recipient has to run applyPendingBalance first.'')))
      else Inr ())"

section \<open>Facts\<close>

lemma max_amount: "MAX_DEPOSIT_OR_TRANSFER_AMOUNT = 2 ^ 48 - 1"
  by (simp add: MAX_DEPOSIT_OR_TRANSFER_AMOUNT_def bigint_shl_eq)

lemma readConfiguredAccount_Inr:
  "readConfiguredAccount R a op who w = (Inr (d, ct), w') \<longleftrightarrow>
     rpc_fetchMaybeToken R a w = (Inr (Some d), w') \<and> confidentialState d = Some ct"
  by (auto simp: readConfiguredAccount_def io_bind_def split: prod.splits sum.splits option.splits)

lemma readConfiguredAccount_missing:
  "rpc_fetchMaybeToken R a w = (Inr None, w') \<Longrightarrow>
     \<exists>e. readConfiguredAccount R a op who w = (Inl e, w') \<and> refused_with ACCOUNT_NOT_FOUND op e"
  by (simp add: readConfiguredAccount_def)

lemma readConfiguredAccount_unconfigured:
  "rpc_fetchMaybeToken R a w = (Inr (Some d), w') \<Longrightarrow> confidentialState d = None \<Longrightarrow>
     \<exists>e. readConfiguredAccount R a op who w = (Inl e, w') \<and> refused_with ACCOUNT_NOT_CONFIGURED op e"
  by (simp add: readConfiguredAccount_def)

lemma assertCanReceive_Inr:
  "assertCanReceive ct a op who = Inr u \<longleftrightarrow>
     approved ct \<and> allowConfidentialCredits ct \<and>
     pendingBalanceCreditCounter ct < maximumPendingBalanceCreditCounter ct"
  by (auto simp: assertCanReceive_def Let_def)

text \<open>The code an account that cannot receive is refused with.\<close>

definition refusal_code :: "ct_account \<Rightarrow> error_code" where
  "refusal_code ct =
     (if \<not> approved ct then ACCOUNT_NOT_APPROVED
      else if \<not> allowConfidentialCredits ct then RECIPIENT_REJECTS_CONFIDENTIAL
      else PENDING_BALANCE_LIMIT)"

lemma assertCanReceive_Inl:
  assumes "assertCanReceive ct a op who = Inl e"
  shows "refused_with (refusal_code ct) op e"
  using assms by (auto simp: assertCanReceive_def refusal_code_def Let_def split: if_splits)

section \<open>The contract of an account reader\<close>

text \<open>
  What the operations rely on: a value is an account with its own confidential-transfer state;
  a refusal carries one of two codes of the SDK, or is what the RPC client threw; and a refusal
  of the SDK's own is never one the retry loop repeats.
\<close>

locale account_reader =
  fixes fetch :: "address \<Rightarrow> ('w, token option) task"
    and read :: "address \<Rightarrow> ('w, token \<times> ct_account) task"
  assumes read_value: "read a w = (Inr (d, ct), w') \<Longrightarrow>
      fetch a w = (Inr (Some d), w') \<and> confidentialState d = Some ct"
    and read_error: "read a w = (Inl e, w') \<Longrightarrow>
      fetch a w = (Inl e, w') \<or>
      ((\<exists>r. fetch a w = (Inr r, w')) \<and> (has_code ACCOUNT_NOT_FOUND e \<or> has_code ACCOUNT_NOT_CONFIGURED e)
        \<and> \<not> retryable_error e)"
begin

lemma read_one_fetch: "read a w = (r, w') \<Longrightarrow> \<exists>r'. fetch a w = (r', w')"
  using read_value read_error by (cases r) (auto, metis prod.exhaust)

lemma read_keeps:
  assumes "\<And>r w'. fetch a w = (r, w') \<Longrightarrow> P w'" and "read a w = (r, w')"
  shows "P w'"
  using read_one_fetch [OF assms(2)] assms(1) by blast

lemma read_not_retryable:
  assumes "read a w = (Inl e, w')" and "retryable_error e"
  shows "fetch a w = (Inl e, w')"
  using read_error [OF assms(1)] assms(2) by blast

end

interpretation reader:
  account_reader "rpc_fetchMaybeToken R" "\<lambda>a. readConfiguredAccount R a op who" for R op who
proof unfold_locales
  fix a w d ct w'
  assume "readConfiguredAccount R a op who w = (Inr (d, ct), w')"
  then show "rpc_fetchMaybeToken R a w = (Inr (Some d), w') \<and> confidentialState d = Some ct"
    by (simp add: readConfiguredAccount_Inr)
next
  fix a w e w'
  assume "readConfiguredAccount R a op who w = (Inl e, w')"
  then show "rpc_fetchMaybeToken R a w = (Inl e, w') \<or>
      ((\<exists>r. rpc_fetchMaybeToken R a w = (Inr r, w')) \<and>
        (has_code ACCOUNT_NOT_FOUND e \<or> has_code ACCOUNT_NOT_CONFIGURED e) \<and> \<not> retryable_error e)"
    by (auto simp: readConfiguredAccount_def io_bind_eq_Inl split: option.splits)
qed

end
