(* ===== verification/Concrete.thy ===== *)
theory Concrete
  imports Arithmetic Accounts
begin

text \<open>
  A concrete environment, for the witnesses only: libraries that satisfy the hypotheses the
  properties name. Points are bytes, an encryption has zero handles, so it opens under every key;
  an AES ciphertext is the amount in eight bytes. The world is a counter that names fresh accounts.
\<close>

definition point :: "int \<Rightarrow> bytes" where
  "point v = rp_toRawBytes byte_group (of_int v)"

definition some_keypair :: elgamal_keypair where
  "some_keypair = \<lparr>kp_pubkey = [107], kp_secret = [9]\<rparr>"

definition toy_zk :: "'w zk" where
  "toy_zk = idle_zk\<lparr>
     zk_newOpening := io_return (zeros 32),
     zk_commit := (\<lambda>v _. Inr (point v)),
     zk_groupedEncrypt := (\<lambda>_ _ _ v _. Inr (point v @ concat [point 0, point 0, point 0])),
     zk_elgamalDecrypt := (\<lambda>_ ct. Inr (uint (hd ct))),
     zk_aeDecrypt := (\<lambda>_ bs. Inr (int (le_nat bs) mod 2 ^ 64)),
     zk_aeEncrypt := (\<lambda>_ v. io_return (bigUint64 v)),
     zk_equalityProof := (\<lambda>_ _ _ _ _. io_return [1]),
     zk_validityProof := (\<lambda>_ _ _ _ _ _ _ _ _. io_return [2]),
     zk_rangeProofU128 := (\<lambda>_ _ _ _. io_return [3]),
     zk_rangeProofU64 := (\<lambda>_ _ _ _. io_return [4]),
     zk_pubkeyValidityProof := (\<lambda>_. io_return [5]),
     zk_keysFromSignature := (\<lambda>_. Inr \<lparr>elgamalKeypair = some_keypair, aesKey = [1]\<rparr>),
     zk_signerMessage := [115]\<rparr>"

definition signer_named :: "address \<Rightarrow> signer" where
  "signer_named a = \<lparr>sg_address = a, sg_modifying = False, sg_partial = True,
     sg_messagePartial = True, sg_messageModifying = False\<rparr>"

definition wallet_named :: "address \<Rightarrow> signer" where
  "wallet_named a = \<lparr>sg_address = a, sg_modifying = True, sg_partial = False,
     sg_messagePartial = False, sg_messageModifying = True\<rparr>"

text \<open>A plan is one transaction for each instruction; a signature is the single byte 1.\<close>

fun flat_plan :: "instruction_plan \<Rightarrow> instruction list" where
  "flat_plan (Single_Plan i) = [i]"
| "flat_plan (Sequential_Plan ps) = concat (map flat_plan ps)"
| "flat_plan (Parallel_Plan ps) = concat (map flat_plan ps)"

definition toy_sign :: "address \<Rightarrow> transaction option \<Rightarrow> transaction" where
  "toy_sign a slot = (case slot of
     Some tx \<Rightarrow> tx\<lparr>tx_signatures := [(a, Some [1])], tx_lifetime := None\<rparr>
   | None \<Rightarrow> \<lparr>tx_messageBytes = [], tx_signatures = [], tx_lifetime = None\<rparr>)"

definition toy_kit :: "nat kit" where
  "toy_kit = idle_kit\<lparr>
     kit_generateKeyPairSigner := (\<lambda>n. (Inr (signer_named (''proof'' @ show_nat n)), Suc n)),
     kit_verifyProof := (\<lambda>_ _ bs _. io_return [build (idle_kit :: nat kit) (VerifyProof bs)]),
     kit_planner := (\<lambda>payer p. io_return (map (\<lambda>i. \<lparr>msg_feePayer = payer, msg_lifetime = None,
       msg_instructions = [i]\<rparr>) (flat_plan p))),
     kit_compile := (\<lambda>m. Inr \<lparr>tx_messageBytes = [115],
       tx_signatures = [(sg_address (msg_feePayer m), None)], tx_lifetime = msg_lifetime m\<rparr>),
     kit_signTransactions := (\<lambda>s txs. io_return (map (\<lambda>_. [(sg_address s, [1])]) txs)),
     kit_modifyAndSignTransactions := (\<lambda>s txs. io_return (map (toy_sign (sg_address s)) txs)),
     kit_assertFullySigned := (\<lambda>tx. if None \<in> snd ` set (tx_signatures tx)
       then Inl (Solana_Error 5663012 ''signatures missing'') else Inr ()),
     kit_signMessages := (\<lambda>s _. io_return (Some [(sg_address s, [1, 2])])),
     kit_modifyAndSignMessages := (\<lambda>s m. io_return (Some (m, [(sg_address s, [1, 2])]))),
     kit_ed25519Verify := (\<lambda>sig _ _. Inr (sig = [1, 2])),
     kit_blockHeightExceeded := (\<lambda>e. e = Solana_Error 1 ''block height exceeded'')\<rparr>"

text \<open>
  An RPC node on which the transaction of index \<open>fail_at\<close> fails with the given error and the
  others are confirmed; the world counts the transactions sent to it. Every account it is asked
  about exists.
\<close>

definition some_lifetime :: lifetime where
  "some_lifetime = \<lparr>blockhash = ''b'', lastValidBlockHeight = 100\<rparr>"

definition toy_rpc :: "nat option \<Rightarrow> exn \<Rightarrow> nat rpc" where
  "toy_rpc fail_at e = offline_rpc\<lparr>
     rpc_getLatestBlockhash := io_return some_lifetime,
     rpc_simulateTransaction := (\<lambda>_. io_return \<lparr>sim_err = None, sim_logs = None\<rparr>),
     rpc_sendAndConfirm := (\<lambda>_ n. (if fail_at = Some n then Inl e else Inr (), Suc n)),
     rpc_getTransaction := (\<lambda>_. io_return None),
     rpc_getMultipleAccounts := (\<lambda>as. io_return (map (\<lambda>_. Some ZK_ELGAMAL_PROOF_PROGRAM_ADDRESS) as))\<rparr>"

definition rejected :: exn where
  "rejected = Js_Error ''Error'' ''rejected''"

definition expired :: exn where
  "expired = Solana_Error 1 ''block height exceeded''"

definition ct_with :: "int \<Rightarrow> ct_account" where
  "ct_with b = \<lparr>approved = True, elgamalPubkey = ''k'', pendingBalanceLow = point 0 @ point 0,
     pendingBalanceHigh = point 0 @ point 0, availableBalance = point b @ point 0,
     decryptableAvailableBalance = bigUint64 b, allowConfidentialCredits = True,
     pendingBalanceCreditCounter = 0, maximumPendingBalanceCreditCounter = 65536\<rparr>"

definition token_with :: "int \<Rightarrow> int \<Rightarrow> token" where
  "token_with public available =
     \<lparr>tk_amount = public, tk_extensions = Some [ConfidentialTransferAccount (ct_with available)]\<rparr>"

lemma point_length [simp]: "length (point v) = 32"
  by (simp add: point_def byte_group_ok)

lemma confidentialState_token_with [simp]:
  "confidentialState (token_with p a) = Some (ct_with a)"
  by (simp add: confidentialState_def token_with_def)

lemma opens_point: "opens byte_group s (point v @ point 0) v"
  by (simp add: point_def opens_bytes byte_group_ok smul_word) (simp add: byte_group_def)

end
