(* ===== verification/Signing.thy ===== *)
theory Signing
  imports Concrete "HOL-Library.Multiset"
begin

text \<open>
  The signing half of \<open>src/src/internal/send.ts\<close>: the priority fee, and
  \<open>signTransactionMessagesTogether\<close>, which asks every signer once for all the transactions it has
  to sign. A slot of the array \<open>transactions\<close> is \<open>None\<close> when a wallet returned fewer
  transactions than it was given (\<open>signed[k]\<close> is \<open>undefined\<close>).
\<close>

section \<open>The priority fee\<close>

definition withPriorityFee :: "'w kit \<Rightarrow> message \<Rightarrow> numeric option \<Rightarrow> exn + message" where
  "withPriorityFee K message price =
     (case price of
        None \<Rightarrow> Inr message
      | Some p \<Rightarrow>
          result_bind (toBigInt p) (\<lambda>fee.
          if fee = 0 then Inr message
          else result_bind (kit_setComputeUnitPrice K fee message) (\<lambda>priced.
               Inr (if kit_withinSizeLimit K priced then priced else message))))"

section \<open>Signers\<close>

text \<open>The \<open>Map\<close> by address: the first signer object of an address is the one asked.\<close>

definition uniqueSigners :: "signer list \<Rightarrow> signer list" where
  "uniqueSigners signers =
     fold (\<lambda>s unique. if sg_address s \<in> sg_address ` set unique then unique else unique @ [s])
       signers []"

definition candidateSigners :: "signer list list \<Rightarrow> signer list" where
  "candidateSigners signersByTx =
     filter (\<lambda>s. sg_modifying s \<or> sg_partial s) (uniqueSigners (concat signersByTx))"

definition modifyingSigners :: "signer list \<Rightarrow> signer list" where
  "modifyingSigners candidates =
     (let modifying = filter sg_modifying candidates;
          modifyingOnly = filter (\<lambda>s. \<not> sg_partial s) modifying in
      if modifyingOnly \<noteq> [] then modifyingOnly else take 1 modifying)"

definition partialSigners :: "signer list \<Rightarrow> signer list" where
  "partialSigners candidates =
     filter (\<lambda>s. sg_partial s \<and> s \<notin> set (modifyingSigners candidates)) candidates"

definition needs :: "signer list list \<Rightarrow> signer \<Rightarrow> nat list" where
  "needs signersByTx signer =
     filter (\<lambda>i. \<exists>s \<in> set (signersByTx ! i). sg_address s = sg_address signer)
       [0..<length signersByTx]"

section \<open>Collecting the signatures\<close>

text \<open>Reading \<open>signatures\<close> of a transaction that is \<open>undefined\<close>.\<close>

definition noSignatures :: exn where
  "noSignatures =
     Js_Error ''TypeError'' ''Cannot read properties of undefined (reading 'signatures')''"

text \<open>Setting a property of an object: in place when it is there, else at the end.\<close>

fun put :: "'k \<Rightarrow> 'v \<Rightarrow> ('k \<times> 'v) list \<Rightarrow> ('k \<times> 'v) list" where
  "put k v [] = [(k, v)]"
| "put k v ((k', v') # ps) = (if k = k' then (k, v) # ps else (k', v') # put k v ps)"

definition mergeSignatures :: "sig_dict option \<Rightarrow> transaction \<Rightarrow> transaction" where
  "mergeSignatures dictionary tx =
     tx\<lparr>tx_signatures := fold (\<lambda>(a, bs). put a (Some bs))
          (case dictionary of None \<Rightarrow> [] | Some d \<Rightarrow> d) (tx_signatures tx)\<rparr>"

definition storeSigned ::
  "nat list \<Rightarrow> transaction list \<Rightarrow> transaction option list \<Rightarrow> transaction option list" where
  "storeSigned indexes returned transactions =
     fold (\<lambda>(k, txIndex) txs. txs[txIndex := item returned k]) (enumerate 0 indexes) transactions"

definition mergeDictionaries ::
  "nat list \<Rightarrow> sig_dict list \<Rightarrow> transaction option list \<Rightarrow> transaction option list" where
  "mergeDictionaries indexes dictionaries transactions =
     fold (\<lambda>(k, txIndex) txs.
         txs[txIndex := map_option (mergeSignatures (item dictionaries k)) (txs ! txIndex)])
       (enumerate 0 indexes) transactions"

fun askModifying ::
  "'w kit \<Rightarrow> signer list list \<Rightarrow> signer list \<Rightarrow> transaction option list \<Rightarrow>
     ('w, transaction option list) task" where
  "askModifying K signersByTx [] transactions = io_return transactions"
| "askModifying K signersByTx (signer # signers) transactions =
     (let indexes = needs signersByTx signer in
      if \<not> sg_modifying signer \<or> indexes = [] then askModifying K signersByTx signers transactions
      else io_bind (kit_modifyAndSignTransactions K signer (map (\<lambda>i. transactions ! i) indexes))
        (\<lambda>returned. askModifying K signersByTx signers (storeSigned indexes returned transactions)))"

text \<open>
  One partial signer's part of the \<open>Promise.all\<close>. All of them are asked before any answers, so
  they sign the same transactions; spreading the signatures of a missing one is a TypeError.
\<close>

definition askPartial ::
  "'w kit \<Rightarrow> signer list list \<Rightarrow> transaction option list \<Rightarrow> signer \<Rightarrow> ('w, sig_dict list) task" where
  "askPartial K signersByTx transactions signer =
     (let indexes = needs signersByTx signer in
      if \<not> sg_partial signer \<or> indexes = [] then io_return []
      else io_bind (kit_signTransactions K signer (map (\<lambda>i. transactions ! i) indexes))
        (\<lambda>dictionaries.
         if None \<in> set (map (\<lambda>i. transactions ! i) indexes)
         then io_throw noSignatures
         else io_return dictionaries))"

definition mergeAll ::
  "signer list list \<Rightarrow> (signer \<times> sig_dict list) list \<Rightarrow> transaction option list \<Rightarrow>
     transaction option list" where
  "mergeAll signersByTx answers transactions =
     fold (\<lambda>(signer, dictionaries). mergeDictionaries (needs signersByTx signer) dictionaries)
       answers transactions"

definition finishTransaction :: "'w kit \<Rightarrow> lifetime \<Rightarrow> transaction option \<Rightarrow> exn + transaction" where
  "finishTransaction K lifetime slot =
     (case slot of
        None \<Rightarrow> Inl noSignatures
      | Some tx \<Rightarrow>
          result_bind (kit_assertFullySigned K tx) (\<lambda>_.
          Inr (case tx_lifetime tx of Some _ \<Rightarrow> tx | None \<Rightarrow> tx\<lparr>tx_lifetime := Some lifetime\<rparr>)))"

definition signTransactionMessagesTogether ::
  "'w kit \<Rightarrow> message list \<Rightarrow> lifetime \<Rightarrow> ('w, transaction list) task" where
  "signTransactionMessagesTogether K messages lifetime =
     io_bind (io_of (result_map (kit_compile K) messages)) (\<lambda>compiled.
     let signersByTx = map (kit_signersOf K) messages;
         candidates = candidateSigners signersByTx;
         partials = partialSigners candidates in
     io_bind (askModifying K signersByTx (modifyingSigners candidates) (map Some compiled))
       (\<lambda>transactions.
     io_bind (promise_all (kit_race K) (map (askPartial K signersByTx transactions) partials))
       (\<lambda>answers.
     io_of (result_map (finishTransaction K lifetime)
       (mergeAll signersByTx (zip partials answers) transactions)))))"

section \<open>Which signers are asked\<close>

lemma uniqueSigners_fold:
  assumes "distinct (map sg_address acc)"
  shows "distinct (map sg_address (fold (\<lambda>s u. if sg_address s \<in> sg_address ` set u then u else u @ [s]) ss acc))
     \<and> set (fold (\<lambda>s u. if sg_address s \<in> sg_address ` set u then u else u @ [s]) ss acc) \<subseteq> set acc \<union> set ss"
  using assms
proof (induction ss arbitrary: acc)
  case Nil
  then show ?case by simp
next
  case (Cons s ss)
  show ?case
    using Cons.prems Cons.IH [of acc] Cons.IH [of "acc @ [s]"] by auto
qed

lemma uniqueSigners_distinct: "distinct (map sg_address (uniqueSigners ss))"
  using uniqueSigners_fold [of "[]" ss] by (simp add: uniqueSigners_def)

lemma uniqueSigners_subset: "set (uniqueSigners ss) \<subseteq> set ss"
  using uniqueSigners_fold [of "[]" ss] by (simp add: uniqueSigners_def)

lemma candidates_distinct: "distinct (map sg_address (candidateSigners sss))"
  by (simp add: candidateSigners_def distinct_map_filter uniqueSigners_distinct)

lemma candidate_needed:
  assumes "s \<in> set (candidateSigners sss)"
  shows "needs sss s \<noteq> []"
proof -
  have "s \<in> set (concat sss)"
    using assms uniqueSigners_subset [of "concat sss"] by (auto simp: candidateSigners_def)
  then obtain ss where "ss \<in> set sss" "s \<in> set ss" by auto
  then obtain i where "i < length sss" "s \<in> set (sss ! i)"
    by (metis in_set_conv_nth)
  then have "i \<in> set (needs sss s)" by (auto simp: needs_def)
  then show ?thesis by auto
qed

lemma modifying_subset: "set (modifyingSigners c) \<subseteq> {s \<in> set c. sg_modifying s}"
  by (auto simp: modifyingSigners_def Let_def dest: in_set_takeD)

lemma partial_subset: "set (partialSigners c) \<subseteq> {s \<in> set c. sg_partial s}"
  by (auto simp: partialSigners_def)

lemma distinct_asked:
  assumes "distinct c"
  shows "distinct (modifyingSigners c @ partialSigners c)"
  using assms by (auto simp: modifyingSigners_def partialSigners_def Let_def)

text \<open>Every candidate is asked, as a modifying signer or as a partial one.\<close>

lemma asked_all:
  assumes "\<forall>s \<in> set c. sg_modifying s \<or> sg_partial s"
  shows "set (modifyingSigners c @ partialSigners c) = set c"
proof -
  have "s \<in> set (modifyingSigners c)" if s: "s \<in> set c" "\<not> sg_partial s" for s
  proof -
    from s assms have only: "s \<in> set (filter (\<lambda>s. \<not> sg_partial s) (filter sg_modifying c))"
      by auto
    then have "filter (\<lambda>s. \<not> sg_partial s) (filter sg_modifying c) \<noteq> []"
      by (metis empty_iff list.set(1))
    with only show ?thesis by (simp add: modifyingSigners_def Let_def)
  qed
  then show ?thesis
    using modifying_subset [of c] by (auto simp: partialSigners_def)
qed

lemma asked_mset:
  "mset (modifyingSigners (candidateSigners sss) @ partialSigners (candidateSigners sss)) =
     mset (candidateSigners sss)"
proof -
  have "distinct (candidateSigners sss)"
    using candidates_distinct distinct_map by blast
  moreover have "\<forall>s \<in> set (candidateSigners sss). sg_modifying s \<or> sg_partial s"
    by (simp add: candidateSigners_def)
  ultimately show ?thesis
    using asked_all distinct_asked set_eq_iff_mset_eq_distinct by blast
qed

section \<open>Watching the wallets\<close>

text \<open>
  The same libraries, keeping beside the world the list of the signers that were asked to sign
  transactions. Everything else is unchanged.
\<close>

definition watching :: "'w kit \<Rightarrow> ('w \<times> signer list) kit" where
  "watching K = \<lparr>
     kit_race = kit_race K,
     kit_findAssociatedTokenPda = kit_findAssociatedTokenPda K,
     kit_getProgramDerivedAddress = kit_getProgramDerivedAddress K,
     kit_encodeAddress = kit_encodeAddress K, kit_decodeAddress = kit_decodeAddress K,
     kit_base58 = kit_base58 K, kit_base64 = kit_base64 K, kit_accounts = kit_accounts K,
     kit_setComputeUnitPrice = kit_setComputeUnitPrice K,
     kit_withinSizeLimit = kit_withinSizeLimit K,
     kit_planner = (\<lambda>s p. io_local (kit_planner K s p)), kit_compile = kit_compile K,
     kit_signersOf = kit_signersOf K,
     kit_modifyAndSignTransactions = (\<lambda>s txs (w, log).
       case kit_modifyAndSignTransactions K s txs w of (r, w') \<Rightarrow> (r, (w', log @ [s]))),
     kit_signTransactions = (\<lambda>s txs (w, log).
       case kit_signTransactions K s txs w of (r, w') \<Rightarrow> (r, (w', log @ [s]))),
     kit_assertFullySigned = kit_assertFullySigned K, kit_getSignature = kit_getSignature K,
     kit_blockHeightExceeded = kit_blockHeightExceeded K,
     kit_generateKeyPairSigner = io_local (kit_generateKeyPairSigner K),
     kit_verifyProof = (\<lambda>k p b c. io_local (kit_verifyProof K k p b c)),
     kit_signMessages = (\<lambda>s m. io_local (kit_signMessages K s m)),
     kit_modifyAndSignMessages = (\<lambda>s m. io_local (kit_modifyAndSignMessages K s m)),
     kit_ed25519Verify = kit_ed25519Verify K\<rparr>"

lemma watching_simps [simp]:
  "kit_race (watching K) = kit_race K" "kit_compile (watching K) = kit_compile K"
  "kit_signersOf (watching K) = kit_signersOf K"
  "kit_assertFullySigned (watching K) = kit_assertFullySigned K"
  "kit_modifyAndSignTransactions (watching K) s txs (w, log) =
     (case kit_modifyAndSignTransactions K s txs w of (r, w') \<Rightarrow> (r, (w', log @ [s])))"
  "kit_signTransactions (watching K) s txs (w, log) =
     (case kit_signTransactions K s txs w of (r, w') \<Rightarrow> (r, (w', log @ [s])))"
  by (simp_all add: watching_def)

text \<open>The result and the effects are those of the unwatched kit.\<close>

lemma watched_modifying_same:
  "askModifying (watching K) sss ss txs (w, log) = (r, (w', log')) \<Longrightarrow>
     askModifying K sss ss txs w = (r, w')"
proof (induction ss arbitrary: txs w log)
  case Nil
  then show ?case by simp
next
  case (Cons s ss)
  show ?case
  proof (cases "\<not> sg_modifying s \<or> needs sss s = []")
    case True
    with Cons show ?thesis by (auto simp: Let_def)
  next
    case False
    with Cons show ?thesis
      by (auto simp: Let_def io_bind_def split: prod.splits sum.splits)
  qed
qed

lemma watched_modifying_log:
  assumes "\<forall>s \<in> set ss. sg_modifying s \<and> needs sss s \<noteq> []"
    and "askModifying (watching K) sss ss txs (w, log) = (r, (w', log'))"
  shows "(\<exists>asked rest. ss = asked @ rest \<and> log' = log @ asked) \<and> (\<forall>v. r = Inr v \<longrightarrow> log' = log @ ss)"
  using assms
proof (induction ss arbitrary: txs w log)
  case Nil
  then show ?case by simp
next
  case (Cons s ss)
  obtain r1 w1 where ask:
      "kit_modifyAndSignTransactions K s (map ((!) txs) (needs sss s)) w = (r1, w1)"
    by force
  show ?case
  proof (cases r1)
    case (Inl e)
    with Cons.prems ask have "log' = log @ [s]" "\<forall>v. r \<noteq> Inr v"
      by (auto simp: Let_def io_bind_def)
    then show ?thesis by (intro conjI exI [of _ "[s]"] exI [of _ ss]) simp_all
  next
    case (Inr returned)
    with Cons.prems ask
    have rest: "askModifying (watching K) sss ss (storeSigned (needs sss s) returned txs) (w1, log @ [s])
        = (r, (w', log'))"
      by (auto simp: Let_def io_bind_def)
    have "(\<exists>asked rest. ss = asked @ rest \<and> log' = (log @ [s]) @ asked) \<and>
        (\<forall>v. r = Inr v \<longrightarrow> log' = (log @ [s]) @ ss)"
      using Cons.prems(1) by (intro Cons.IH [OF _ rest]) simp
    then show ?thesis by (auto intro: exI [of _ "s # _"])
  qed
qed

lemma watched_partial_settle:
  assumes "\<forall>s \<in> set ss. sg_partial s \<and> needs sss s \<noteq> []"
    and "io_settle (map (askPartial (watching K) sss txs) ss) (w, log) = (rs, (w', log'))"
  shows "log' = log @ ss"
  using assms
proof (induction ss arbitrary: w log rs)
  case Nil
  then show ?case by simp
next
  case (Cons s ss)
  obtain r0 w1 where "kit_signTransactions K s (map ((!) txs) (needs sss s)) w = (r0, w1)"
    by force
  with Cons.prems(1) have
      "\<exists>r1. askPartial (watching K) sss txs s (w, log) = (r1, (w1, log @ [s]))"
    by (cases r0) (auto simp: askPartial_def Let_def io_bind_def)
  then obtain r1 where
      one: "askPartial (watching K) sss txs s (w, log) = (r1, (w1, log @ [s]))" by blast
  with Cons.prems(2) obtain rs' where
      "io_settle (map (askPartial (watching K) sss txs) ss) (w1, log @ [s]) = (rs', (w', log'))"
    by (auto split: prod.splits)
  from Cons.IH [OF _ this] Cons.prems(1) show ?case by simp
qed

text \<open>Who was asked, in which order, whatever the outcome.\<close>

lemma asked_log:
  assumes run: "signTransactionMessagesTogether (watching K) ms lt (w, []) = (r, (w', log))"
  defines "c \<equiv> candidateSigners (map (kit_signersOf K) ms)"
  shows "(\<exists>rest. modifyingSigners c = log @ rest) \<or> log = modifyingSigners c @ partialSigners c"
    and "r = Inr txs \<Longrightarrow> log = modifyingSigners c @ partialSigners c"
proof -
  let ?sss = "map (kit_signersOf K) ms"
  have needed: "\<forall>s \<in> set (modifyingSigners c). sg_modifying s \<and> needs ?sss s \<noteq> []"
      "\<forall>s \<in> set (partialSigners c). sg_partial s \<and> needs ?sss s \<noteq> []"
    using modifying_subset [of c] partial_subset [of c] candidate_needed [of _ ?sss]
    by (auto simp: c_def)
  have both: "((\<exists>rest. modifyingSigners c = log @ rest) \<or> log = modifyingSigners c @ partialSigners c) \<and>
     (\<forall>txs. r = Inr txs \<longrightarrow> log = modifyingSigners c @ partialSigners c)"
  proof (cases "result_map (kit_compile K) ms")
    case (Inl e)
    with run show ?thesis by (auto simp: signTransactionMessagesTogether_def io_bind_def)
  next
    case (Inr compiled)
    obtain r1 w1 log1 where mods: "askModifying (watching K) ?sss (modifyingSigners c)
        (map Some compiled) (w, []) = (r1, (w1, log1))"
      by (metis prod.exhaust)
    note log1 = watched_modifying_log [OF needed(1) mods]
    show ?thesis
    proof (cases r1)
      case (Inl e)
      with run mods Inr log1 show ?thesis
        by (auto simp: signTransactionMessagesTogether_def io_bind_def Let_def c_def)
    next
      case r1: (Inr transactions)
      obtain rs w2 log2 where settle:
          "io_settle (map (askPartial (watching K) ?sss transactions) (partialSigners c)) (w1, log1)
             = (rs, (w2, log2))"
        by (metis prod.exhaust)
      have "log = log2"
        using run mods Inr r1 settle
        by (auto simp: signTransactionMessagesTogether_def io_bind_def Let_def c_def promise_all_def
            split: sum.splits prod.splits if_splits)
      then show ?thesis
        using watched_partial_settle [OF needed(2) settle] log1 r1 by auto
    qed
  qed
  then show "(\<exists>rest. modifyingSigners c = log @ rest) \<or> log = modifyingSigners c @ partialSigners c"
    and "r = Inr txs \<Longrightarrow> log = modifyingSigners c @ partialSigners c" by auto
qed

section \<open>What the transactions become\<close>

lemma result_map_nth:
  "result_map f xs = Inr ys \<Longrightarrow> i < length xs \<Longrightarrow> f (xs ! i) = Inr (ys ! i)"
proof (induction xs arbitrary: ys i)
  case Nil
  then show ?case by simp
next
  case (Cons x xs)
  then show ?case by (cases i) (auto simp: io_elim)
qed

lemma length_fold_update:
  "length (fold (\<lambda>(k, i) txs. txs[i := g k i txs]) ps txs) = length txs"
  by (induction ps arbitrary: txs) auto

lemma length_storeSigned [simp]: "length (storeSigned idx rs txs) = length txs"
  using length_fold_update [of "\<lambda>k i txs. item rs k" "enumerate 0 idx" txs]
  by (simp add: storeSigned_def)

lemma length_mergeDictionaries [simp]: "length (mergeDictionaries idx ds txs) = length txs"
  using length_fold_update [of "\<lambda>k i txs. map_option (mergeSignatures (item ds k)) (txs ! i)"
      "enumerate 0 idx" txs]
  by (simp add: mergeDictionaries_def)

lemma length_mergeAll [simp]: "length (mergeAll sss answers txs) = length txs"
  unfolding mergeAll_def by (induction answers arbitrary: txs) auto

lemma length_askModifying:
  "askModifying K sss ss txs w = (Inr txs', w') \<Longrightarrow> length txs' = length txs"
proof (induction ss arbitrary: txs w)
  case Nil
  then show ?case by simp
next
  case (Cons s ss)
  show ?case
  proof (cases "\<not> sg_modifying s \<or> needs sss s = []")
    case True
    with Cons show ?thesis by (simp add: Let_def)
  next
    case False
    with Cons.prems obtain rs w1 where
        "askModifying K sss ss (storeSigned (needs sss s) rs txs) w1 = (Inr txs', w')"
      by (auto simp: Let_def io_elim)
    from Cons.IH [OF this] show ?thesis by simp
  qed
qed

text \<open>Merging leaves the bytes that were signed alone.\<close>

lemma messageBytes_merge [simp]: "tx_messageBytes (mergeSignatures d tx) = tx_messageBytes tx"
  by (simp add: mergeSignatures_def)

lemma mergeSignatures_None [simp]: "mergeSignatures None tx = tx"
  by (simp add: mergeSignatures_def)

definition bytesOf :: "transaction option list \<Rightarrow> bytes option list" where
  "bytesOf txs = map (map_option tx_messageBytes) txs"

lemma bytesOf_fold:
  "bytesOf (fold (\<lambda>(k, i) txs. txs[i := map_option (mergeSignatures (g k)) (txs ! i)]) ps txs) = bytesOf txs"
proof (induction ps arbitrary: txs)
  case Nil
  then show ?case by simp
next
  case (Cons p ps)
  have "bytesOf (txs[i := map_option (mergeSignatures d) (txs ! i)]) = bytesOf txs" for i d
  proof (rule nth_equalityI)
    fix j assume "j < length (bytesOf (txs[i := map_option (mergeSignatures d) (txs ! i)]))"
    then show "bytesOf (txs[i := map_option (mergeSignatures d) (txs ! i)]) ! j = bytesOf txs ! j"
      by (cases "i = j") (simp_all add: bytesOf_def option.map_comp o_def)
  qed (simp add: bytesOf_def)
  then show ?case using Cons.IH by (simp split: prod.splits)
qed

lemma bytesOf_mergeDictionaries: "bytesOf (mergeDictionaries idx ds txs) = bytesOf txs"
  unfolding mergeDictionaries_def by (rule bytesOf_fold)

lemma bytesOf_mergeAll: "bytesOf (mergeAll sss answers txs) = bytesOf txs"
  unfolding mergeAll_def
  by (induction answers arbitrary: txs) (auto simp: bytesOf_mergeDictionaries)

lemma finishTransaction_Inr:
  "finishTransaction K lt slot = Inr tx \<longleftrightarrow>
     (\<exists>tx0. slot = Some tx0 \<and> kit_assertFullySigned K tx0 = Inr () \<and>
        tx = (case tx_lifetime tx0 of Some _ \<Rightarrow> tx0 | None \<Rightarrow> tx0\<lparr>tx_lifetime := Some lt\<rparr>))"
  by (auto simp: finishTransaction_def io_elim split: option.splits)

lemma finished_facts:
  assumes "finishTransaction K lt slot = Inr tx"
  shows "\<exists>tx0. slot = Some tx0 \<and> kit_assertFullySigned K tx0 = Inr () \<and>
     tx_signatures tx = tx_signatures tx0 \<and> tx_messageBytes tx = tx_messageBytes tx0 \<and>
     tx_lifetime tx \<noteq> None"
proof -
  obtain tx0 where tx0: "slot = Some tx0" "kit_assertFullySigned K tx0 = Inr ()"
      "tx = (case tx_lifetime tx0 of Some _ \<Rightarrow> tx0 | None \<Rightarrow> tx0\<lparr>tx_lifetime := Some lt\<rparr>)"
    using assms by (auto simp: finishTransaction_Inr)
  then show ?thesis by (cases "tx_lifetime tx0") simp_all
qed

lemma signed_together_parts:
  assumes "signTransactionMessagesTogether K ms lt w = (Inr txs, w')"
  obtains compiled slots answers where
    "result_map (kit_compile K) ms = Inr compiled"
    "length slots = length ms"
    "modifyingSigners (candidateSigners (map (kit_signersOf K) ms)) = [] \<Longrightarrow> slots = map Some compiled"
    "result_map (finishTransaction K lt) (mergeAll (map (kit_signersOf K) ms) answers slots) = Inr txs"
proof -
  obtain compiled slots answers w1 w2 where run:
      "result_map (kit_compile K) ms = Inr compiled"
      "askModifying K (map (kit_signersOf K) ms)
        (modifyingSigners (candidateSigners (map (kit_signersOf K) ms))) (map Some compiled) w
        = (Inr slots, w1)"
      "result_map (finishTransaction K lt) (mergeAll (map (kit_signersOf K) ms)
        (zip (partialSigners (candidateSigners (map (kit_signersOf K) ms))) answers) slots) = Inr txs"
    using assms by (auto simp: signTransactionMessagesTogether_def io_elim Let_def)
  have "length slots = length ms"
    using length_askModifying [OF run(2)] result_map_length [OF run(1)] by simp
  moreover have "slots = map Some compiled"
    if "modifyingSigners (candidateSigners (map (kit_signersOf K) ms)) = []"
    using run(2) that by simp
  ultimately show thesis using that run by blast
qed

subsection \<open>The order in which the answers arrive\<close>

text \<open>
  \<open>Promise.all\<close> merges each signer's dictionaries when that signer answers. With dictionaries
  that hold only the signer's own signature the order cannot be observed.
\<close>

definition signaturesOf_tx :: "transaction \<Rightarrow> address \<rightharpoonup> bytes option" where
  "signaturesOf_tx tx = map_of (tx_signatures tx)"

definition signs_for_itself :: "signer \<times> sig_dict list \<Rightarrow> bool" where
  "signs_for_itself answer \<longleftrightarrow>
     (\<forall>d \<in> set (snd answer). fst ` set d \<subseteq> {sg_address (fst answer)})"

text \<open>Two slots with the same message and the same signature for every address.\<close>

fun same_slot :: "transaction option \<Rightarrow> transaction option \<Rightarrow> bool" where
  "same_slot (Some t) (Some u) \<longleftrightarrow>
     tx_messageBytes t = tx_messageBytes u \<and> signaturesOf_tx t = signaturesOf_tx u"
| "same_slot None None \<longleftrightarrow> True"
| "same_slot _ _ \<longleftrightarrow> False"

lemma map_of_put: "map_of (put k v ps) = (map_of ps)(k \<mapsto> v)"
  by (induction k v ps rule: put.induct) auto

definition entries :: "sig_dict option \<Rightarrow> sig_dict" where
  "entries d = (case d of None \<Rightarrow> [] | Some xs \<Rightarrow> xs)"

lemma signatures_merge:
  "signaturesOf_tx (mergeSignatures d tx) =
     fold (\<lambda>(a, bs) m. m(a \<mapsto> Some bs)) (entries d) (signaturesOf_tx tx)"
proof -
  have "map_of (fold (\<lambda>(a, bs). put a (Some bs)) xs ss) =
      fold (\<lambda>(a, bs) m. m(a \<mapsto> Some bs)) xs (map_of ss)" for xs and ss :: "(address \<times> bytes option) list"
    by (induction xs arbitrary: ss) (auto simp: map_of_put)
  then show ?thesis by (simp add: signaturesOf_tx_def mergeSignatures_def entries_def)
qed

text \<open>What one transaction's signatures become under one signer's answer.\<close>

definition stepAt :: "nat list \<Rightarrow> sig_dict list \<Rightarrow> nat \<Rightarrow> (address \<rightharpoonup> bytes option) \<Rightarrow> (address \<rightharpoonup> bytes option)" where
  "stepAt idx ds i = fold (\<lambda>(k, j) m. if j = i
      then fold (\<lambda>(a, bs) m. m(a \<mapsto> Some bs)) (entries (item ds k)) m else m) (enumerate 0 idx)"

definition sigsAt :: "transaction option list \<Rightarrow> nat \<Rightarrow> (address \<rightharpoonup> bytes option) option" where
  "sigsAt txs i = map_option signaturesOf_tx (txs ! i)"

lemma sigsAt_mergeDictionaries:
  assumes "i < length txs"
  shows "sigsAt (mergeDictionaries idx ds txs) i = map_option (stepAt idx ds i) (sigsAt txs i)"
proof -
  have "sigsAt (fold (\<lambda>(k, j) txs. txs[j := map_option (mergeSignatures (item ds k)) (txs ! j)]) ps txs) i
      = map_option (fold (\<lambda>(k, j) m. if j = i
          then fold (\<lambda>(a, bs) m. m(a \<mapsto> Some bs)) (entries (item ds k)) m else m) ps) (sigsAt txs i)" for ps
    using assms
  proof (induction ps arbitrary: txs)
    case Nil
    then show ?case by (simp add: option.map_ident)
  next
    case (Cons p ps)
    obtain k j where p: "p = (k, j)" by (cases p)
    have "sigsAt (txs[j := map_option (mergeSignatures (item ds k)) (txs ! j)]) i =
        map_option (\<lambda>m. if j = i then fold (\<lambda>(a, bs) m. m(a \<mapsto> Some bs)) (entries (item ds k)) m else m)
          (sigsAt txs i)"
      using Cons.prems
      by (cases "txs ! i"; cases "i = j") (simp_all add: sigsAt_def signatures_merge)
    then show ?case
      using Cons.IH [of "txs[j := map_option (mergeSignatures (item ds k)) (txs ! j)]"] Cons.prems
      by (simp add: p option.map_comp o_def)
  qed
  then show ?thesis by (simp add: mergeDictionaries_def stepAt_def)
qed

lemma sigsAt_mergeAll:
  assumes "i < length txs"
  shows "sigsAt (mergeAll sss answers txs) i =
     map_option (fold (\<lambda>(s, ds). stepAt (needs sss s) ds i) answers) (sigsAt txs i)"
  using assms unfolding mergeAll_def
proof (induction answers arbitrary: txs)
  case Nil
  then show ?case by (simp add: option.map_ident)
next
  case (Cons x xs)
  then show ?case
    by (simp add: sigsAt_mergeDictionaries option.map_comp o_def split: prod.splits)
qed

text \<open>An answer only writes the signer's own address, so two answers commute.\<close>

definition writes_only :: "address \<Rightarrow> ((address \<rightharpoonup> 'v) \<Rightarrow> (address \<rightharpoonup> 'v)) \<Rightarrow> bool" where
  "writes_only a f \<longleftrightarrow> f = (\<lambda>m. m) \<or> (\<exists>v. f = (\<lambda>m. m(a \<mapsto> v)))"

lemma writes_only_comp: "writes_only a f \<Longrightarrow> writes_only a g \<Longrightarrow> writes_only a (g \<circ> f)"
  by (auto simp: writes_only_def fun_eq_iff)

lemma writes_only_fold:
  "(\<And>x. x \<in> set xs \<Longrightarrow> writes_only a (f x)) \<Longrightarrow> writes_only a (fold f xs)"
proof (induction xs)
  case Nil
  then show ?case by (simp add: writes_only_def id_def)
next
  case (Cons x xs)
  then have "writes_only a (fold f xs \<circ> f x)" by (intro writes_only_comp) auto
  then show ?case by (simp add: comp_def)
qed

lemma writes_only_commute:
  "writes_only a f \<Longrightarrow> writes_only b g \<Longrightarrow> a \<noteq> b \<Longrightarrow> f \<circ> g = g \<circ> f"
  by (auto simp: writes_only_def fun_eq_iff)

lemma stepAt_writes:
  assumes "\<forall>d \<in> set ds. fst ` set d \<subseteq> {a}"
  shows "writes_only a (stepAt idx ds i)"
proof -
  have one: "writes_only a (\<lambda>m. fold (\<lambda>(a, bs) m. m(a \<mapsto> Some bs)) (entries (item ds k)) m)"
    for k
  proof -
    have "fst ` set (entries (item ds k)) \<subseteq> {a}"
      using assms by (auto simp: entries_def item_def split: if_splits)
    then have "writes_only a (fold (\<lambda>(a, bs) m. m(a \<mapsto> Some bs)) (entries (item ds k)))"
      by (intro writes_only_fold) (fastforce simp: writes_only_def)
    then show ?thesis by simp
  qed
  have "writes_only a (case p of (k, j) \<Rightarrow> \<lambda>m. if j = i
      then fold (\<lambda>(a, bs) m. m(a \<mapsto> Some bs)) (entries (item ds k)) m else m)" for p
    by (cases p; cases "snd p = i") (use one in \<open>simp_all add: writes_only_def\<close>)
  then show ?thesis
    unfolding stepAt_def by (intro writes_only_fold) simp
qed

lemma mergeAll_order:
  assumes d: "distinct (map (sg_address \<circ> fst) answers)"
    and own: "\<forall>x \<in> set answers. signs_for_itself x" and perm: "mset answers' = mset answers"
    and i: "i < length txs"
  shows "sigsAt (mergeAll sss answers' txs) i = sigsAt (mergeAll sss answers txs) i"
proof -
  let ?f = "\<lambda>(s, ds). stepAt (needs sss s) ds i"
  have "?f x \<circ> ?f y = ?f y \<circ> ?f x" if xy: "x \<in> set answers" "y \<in> set answers" for x y
  proof (cases "x = y")
    case False
    with xy d have "sg_address (fst x) \<noteq> sg_address (fst y)"
      by (auto simp: distinct_map inj_on_def)
    moreover have "writes_only (sg_address (fst z)) (?f z)" if "z \<in> set answers" for z
      using own that stepAt_writes by (auto simp: signs_for_itself_def split: prod.splits)
    ultimately show ?thesis using xy writes_only_commute by blast
  qed simp
  then have "fold ?f answers = fold ?f answers'"
    using perm by (intro fold_multiset_equiv) auto
  then show ?thesis using i by (simp add: sigsAt_mergeAll)
qed

lemma signed_together_length:
  assumes "signTransactionMessagesTogether K ms lt w = (Inr txs, w')"
  shows "length txs = length ms"
proof -
  obtain slots answers where "length slots = length ms"
      "result_map (finishTransaction K lt) (mergeAll (map (kit_signersOf K) ms) answers slots) = Inr txs"
    by (rule signed_together_parts [OF assms])
  then show ?thesis using result_map_length by fastforce
qed

section \<open>Properties\<close>

text \<open>The check \<open>assertIsFullySignedTransaction\<close> of kit: it passes when no signature is missing.\<close>

definition full_check :: "'w kit \<Rightarrow> bool" where
  "full_check K \<longleftrightarrow> (\<forall>tx. kit_assertFullySigned K tx = Inr () \<longleftrightarrow>
     (\<forall>s \<in> set (tx_signatures tx). snd s \<noteq> None))"

text \<open>C19: When signing succeeds there is one transaction for each message, no signature of any of
  them is missing, and each has the lifetime that kit waits with, even if a wallet dropped it.\<close>

theorem signed_transactions_complete:
  assumes "full_check K" and "signTransactionMessagesTogether K ms lt w = (Inr txs, w')"
  shows "length txs = length ms \<and>
     (\<forall>tx \<in> set txs. (\<forall>s \<in> set (tx_signatures tx). snd s \<noteq> None) \<and> tx_lifetime tx \<noteq> None)"
proof -
  obtain slots answers where slots: "length slots = length ms"
      "result_map (finishTransaction K lt) (mergeAll (map (kit_signersOf K) ms) answers slots) = Inr txs"
    by (rule signed_together_parts [OF assms(2)])
  have len: "length txs = length ms" using result_map_length [OF slots(2)] slots(1) by simp
  have "(\<forall>s \<in> set (tx_signatures (txs ! i)). snd s \<noteq> None) \<and> tx_lifetime (txs ! i) \<noteq> None"
    if "i < length ms" for i
  proof -
    have "finishTransaction K lt (mergeAll (map (kit_signersOf K) ms) answers slots ! i) = Inr (txs ! i)"
      using result_map_nth [OF slots(2)] that slots(1) by simp
    then show ?thesis
      using assms(1) finished_facts unfolding full_check_def by metis
  qed
  with len show ?thesis by (metis in_set_conv_nth)
qed

text \<open>When no wallet may modify transactions, what was signed is byte for byte what was
  compiled from the messages.\<close>

theorem partial_signing_keeps_bytes:
  assumes "signTransactionMessagesTogether K ms lt w = (Inr txs, w')"
    and "modifyingSigners (candidateSigners (map (kit_signersOf K) ms)) = []"
    and "result_map (kit_compile K) ms = Inr compiled"
  shows "map tx_messageBytes txs = map tx_messageBytes compiled"
proof (rule nth_equalityI)
  obtain slots answers where run: "slots = map Some compiled"
      "result_map (finishTransaction K lt) (mergeAll (map (kit_signersOf K) ms) answers slots) = Inr txs"
    using signed_together_parts [OF assms(1)] assms(2,3) by (metis Inr_inject)
  let ?slots = "mergeAll (map (kit_signersOf K) ms) answers slots"
  show len: "length (map tx_messageBytes txs) = length (map tx_messageBytes compiled)"
    using result_map_length [OF run(2)] run(1) by simp
  fix i assume i: "i < length (map tx_messageBytes txs)"
  then have i': "i < length compiled" using len by simp
  then have "finishTransaction K lt (?slots ! i) = Inr (txs ! i)"
    using result_map_nth [OF run(2)] run(1) by simp
  then have slot: "map_option tx_messageBytes (?slots ! i) = Some (tx_messageBytes (txs ! i))"
    using finished_facts by fastforce
  have "bytesOf ?slots ! i = bytesOf slots ! i" by (simp add: bytesOf_mergeAll)
  then show "map tx_messageBytes txs ! i = map tx_messageBytes compiled ! i"
    using slot i i' run(1) by (auto simp: bytesOf_def)
qed

text \<open>C15: Every signer is asked at most once for all its transactions, the wallets that modify
  transactions before the others; when signing succeeds each candidate was asked exactly once.\<close>

theorem each_signer_asked_once:
  assumes "signTransactionMessagesTogether (watching K) ms lt (w, []) = (r, (w', asked))"
  defines "c \<equiv> candidateSigners (map (kit_signersOf K) ms)"
  shows "distinct (map sg_address asked) \<and>
     (\<exists>rest. modifyingSigners c @ partialSigners c = asked @ rest) \<and>
     (case r of Inr _ \<Rightarrow> mset asked = mset c | Inl _ \<Rightarrow> True)"
proof -
  have all: "mset (modifyingSigners c @ partialSigners c) = mset c"
    unfolding c_def by (rule asked_mset)
  have prefix: "\<exists>rest. modifyingSigners c @ partialSigners c = asked @ rest"
    using asked_log(1) [OF assms(1)] by (auto simp: c_def)
  have "mset (map sg_address (modifyingSigners c @ partialSigners c)) = mset (map sg_address c)"
    using arg_cong [OF all, of "image_mset sg_address"] by simp
  then have "distinct (map sg_address (modifyingSigners c @ partialSigners c))"
    using candidates_distinct mset_eq_imp_distinct_iff c_def by metis
  then have "distinct (map sg_address asked)"
    using prefix by (metis distinct_append map_append)
  moreover have "case r of Inr _ \<Rightarrow> mset asked = mset c | Inl _ \<Rightarrow> True"
    using asked_log(2) [OF assms(1)] all by (cases r) (auto simp: c_def)
  ultimately show ?thesis using prefix by blast
qed

text \<open>The order in which the keypair signers answer does not matter: with answers that hold
  only the signer's own signature, every order gives the same messages and signatures.\<close>

theorem answer_order_irrelevant:
  assumes "distinct (map (sg_address \<circ> fst) answers)" and "\<forall>x \<in> set answers. signs_for_itself x"
    and "mset answers' = mset answers"
  shows "list_all2 same_slot (mergeAll sss answers' txs) (mergeAll sss answers txs)"
proof (rule list_all2_all_nthI)
  fix i assume "i < length (mergeAll sss answers' txs)"
  then have i: "i < length txs" by simp
  have "bytesOf (mergeAll sss answers' txs) ! i = bytesOf (mergeAll sss answers txs) ! i"
    by (simp add: bytesOf_mergeAll)
  then have "map_option tx_messageBytes (mergeAll sss answers' txs ! i) =
      map_option tx_messageBytes (mergeAll sss answers txs ! i)"
    using i by (simp add: bytesOf_def)
  then show "same_slot (mergeAll sss answers' txs ! i) (mergeAll sss answers txs ! i)"
    using mergeAll_order [OF assms i, of sss]
    by (cases "mergeAll sss answers' txs ! i"; cases "mergeAll sss answers txs ! i")
      (simp_all add: sigsAt_def)
qed simp

subsection \<open>Witnesses\<close>

definition sample_message :: "signer \<Rightarrow> message" where
  "sample_message payer = \<lparr>msg_feePayer = payer, msg_lifetime = Some some_lifetime,
     msg_instructions = []\<rparr>"

definition sample_signed :: "address \<Rightarrow> transaction" where
  "sample_signed a = \<lparr>tx_messageBytes = [115], tx_signatures = [(a, Some [1])],
     tx_lifetime = Some some_lifetime\<rparr>"

lemmas signing_run_simps =
  signTransactionMessagesTogether_def candidateSigners_def uniqueSigners_def modifyingSigners_def
  partialSigners_def needs_def askPartial_def promise_all_def mergeAll_def mergeDictionaries_def
  mergeSignatures_def storeSigned_def finishTransaction_def sample_message_def sample_signed_def
  signer_named_def wallet_named_def toy_kit_def idle_kit_def toy_sign_def item_def enumerate_eq_zip

lemma keypair_signing:
  "signTransactionMessagesTogether toy_kit [sample_message (signer_named ''p''),
     sample_message (signer_named ''p'')] some_lifetime w =
     (Inr [sample_signed ''p'', sample_signed ''p''], w)"
  by code_simp

lemma wallet_signing:
  "signTransactionMessagesTogether (watching toy_kit) [sample_message (wallet_named ''p''),
     sample_message (wallet_named ''p'')] some_lifetime (w, []) =
     (Inr [sample_signed ''p'', sample_signed ''p''], (w, [wallet_named ''p'']))"
  by code_simp

lemma toy_full_check: "full_check toy_kit"
  by (force simp: full_check_def toy_kit_def)

theorem signed_transactions_complete_witness:
  "length [sample_signed ''p'', sample_signed ''p''] =
      length [sample_message (signer_named ''p''), sample_message (signer_named ''p'')] \<and>
   list_all (\<lambda>tx. list_all (\<lambda>s. snd s \<noteq> None) (tx_signatures tx) \<and> tx_lifetime tx \<noteq> None)
     [sample_signed ''p'', sample_signed ''p'']"
  unfolding list_all_iff
  by (rule signed_transactions_complete [OF toy_full_check keypair_signing])

theorem partial_signing_keeps_bytes_witness:
  "map tx_messageBytes [sample_signed ''p'', sample_signed ''p''] =
     map tx_messageBytes [(sample_signed ''p'')\<lparr>tx_signatures := [(''p'', None)]\<rparr>,
       (sample_signed ''p'')\<lparr>tx_signatures := [(''p'', None)]\<rparr>]"
  by (rule partial_signing_keeps_bytes [OF keypair_signing]) (simp_all add: signing_run_simps)

theorem each_signer_asked_once_witness:
  "distinct (map sg_address [wallet_named ''p'']) \<and>
   (\<exists>rest. modifyingSigners (candidateSigners (map (kit_signersOf toy_kit)
       [sample_message (wallet_named ''p''), sample_message (wallet_named ''p'')])) @
      partialSigners (candidateSigners (map (kit_signersOf toy_kit)
       [sample_message (wallet_named ''p''), sample_message (wallet_named ''p'')])) =
      [wallet_named ''p''] @ rest) \<and>
   mset [wallet_named ''p''] = mset (candidateSigners (map (kit_signersOf toy_kit)
       [sample_message (wallet_named ''p''), sample_message (wallet_named ''p'')]))"
  using each_signer_asked_once [OF wallet_signing [of 0]] by (simp only: sum.case)

theorem answer_order_irrelevant_witness:
  "list_all2 same_slot
     (mergeAll [[signer_named ''p'', signer_named ''q'']]
       [(signer_named ''q'', [[(''q'', [2])]]), (signer_named ''p'', [[(''p'', [1])]])]
       [Some (sample_signed ''x'')])
     (mergeAll [[signer_named ''p'', signer_named ''q'']]
       [(signer_named ''p'', [[(''p'', [1])]]), (signer_named ''q'', [[(''q'', [2])]])]
       [Some (sample_signed ''x'')])"
  by (rule answer_order_irrelevant)
    (simp_all add: signs_for_itself_def signer_named_def add_mset_commute)

end
