(* ===== verification/Proof_Flow.thy ===== *)
theory Proof_Flow
  imports Concrete "HOL-Library.Multiset"
begin

text \<open>
  \<open>src/src/internal/confidentialTransferProof.ts\<close>: the proof flows of a confidential transfer
  and of a withdraw. A flow verifies its proofs into context-state accounts (setup), runs the
  instruction that uses them (action) and closes them (cleanup).
\<close>

section \<open>Amounts\<close>

definition TRANSFER_AMOUNT_LO_BIT_LENGTH :: int where "TRANSFER_AMOUNT_LO_BIT_LENGTH = 16"
definition TRANSFER_AMOUNT_HI_BIT_LENGTH :: int where "TRANSFER_AMOUNT_HI_BIT_LENGTH = 32"
definition REMAINING_BALANCE_BIT_LENGTH :: nat where "REMAINING_BALANCE_BIT_LENGTH = 64"
definition RANGE_PROOF_PADDING_BIT_LENGTH :: nat where "RANGE_PROOF_PADDING_BIT_LENGTH = 16"

definition MAX_TRANSFER_AMOUNT :: int where
  "MAX_TRANSFER_AMOUNT =
     bigint_shl 1 (TRANSFER_AMOUNT_LO_BIT_LENGTH + TRANSFER_AMOUNT_HI_BIT_LENGTH) - 1"

definition splitAmount :: "int \<Rightarrow> int \<Rightarrow> int \<times> int" where
  "splitAmount amount bitLength =
     (let mask = bigint_shl 1 bitLength - 1 in (amount AND mask, bigint_shr amount bitLength))"

definition assertNonNegativeAmount :: "int \<Rightarrow> exn + unit" where
  "assertNonNegativeAmount amount =
     (if amount < 0 then Inl (bare_error INVALID_INPUT ''Amount must be non-negative.'') else Inr ())"

definition computeNewAvailableBalance :: "int \<Rightarrow> int \<Rightarrow> exn + int" where
  "computeNewAvailableBalance currentBalance amount =
     result_bind (assertNonNegativeAmount amount) (\<lambda>_.
     let newBalance = currentBalance - amount in
     if newBalance < 0
     then Inl (bare_error INSUFFICIENT_FUNDS
       (''Insufficient funds: the confidential available balance is '' @ show_int currentBalance @
        '', the amount is '' @ show_int amount @ ''.''))
     else Inr newBalance)"

text \<open>\<open>new BigUint64Array([x])\<close> keeps the low 64 bits.\<close>

definition to_u64 :: "int \<Rightarrow> int" where
  "to_u64 x = x mod 2 ^ 64"

section \<open>Reading the account\<close>

definition getRequiredConfidentialTransferAccountExtension :: "token \<Rightarrow> exn + ct_account" where
  "getRequiredConfidentialTransferAccountExtension tokenAccount =
     (case tk_extensions tokenAccount of
        None \<Rightarrow> Inl (bare_error ACCOUNT_NOT_CONFIGURED ''Token account is missing extensions.'')
      | Some extensions \<Rightarrow>
          (case find_map ct_account_of extensions of
             None \<Rightarrow> Inl (bare_error ACCOUNT_NOT_CONFIGURED
               ''Token account is missing the ConfidentialTransferAccount extension.'')
           | Some extension \<Rightarrow> Inr extension))"

definition parseAeCiphertext :: "'w zk \<Rightarrow> bytes \<Rightarrow> exn + bytes" where
  "parseAeCiphertext Z bs =
     (case zk_aeFromBytes Z bs of
        None \<Rightarrow> Inl (bare_error DECRYPTION_FAILED
          ''Failed to deserialize an authenticated-encryption ciphertext.'')
      | Some c \<Rightarrow> Inr c)"

definition parseElGamalCiphertext :: "'w zk \<Rightarrow> bytes \<Rightarrow> exn + bytes" where
  "parseElGamalCiphertext Z bs =
     (case zk_elgamalFromBytes Z bs of
        None \<Rightarrow> Inl (bare_error DECRYPTION_FAILED ''Failed to deserialize an ElGamal ciphertext.'')
      | Some c \<Rightarrow> Inr c)"

definition decryptAvailableBalance :: "'w zk \<Rightarrow> ct_account \<Rightarrow> bytes \<Rightarrow> exn + int" where
  "decryptAvailableBalance Z account key =
     result_bind (parseAeCiphertext Z (decryptableAvailableBalance account)) (zk_aeDecrypt Z key)"

definition getElGamalPubkeyFromAddress :: "'w kit \<Rightarrow> 'w zk \<Rightarrow> address \<Rightarrow> exn + bytes" where
  "getElGamalPubkeyFromAddress K Z value =
     result_bind (kit_encodeAddress K value) (zk_pubkeyFromBytes Z)"

definition getDefaultAuditorElGamalPubkey :: "'w zk \<Rightarrow> exn + bytes" where
  "getDefaultAuditorElGamalPubkey Z = zk_pubkeyFromBytes Z (zeros 32)"

text \<open>An optional string is used only when it is truthy, that is, not empty.\<close>

fun truthy :: "string option \<Rightarrow> string option" where
  "truthy (Some s) = (if s = '''' then None else Some s)"
| "truthy None = None"

record transfer_plan_input =
  tp_sourceToken :: address
  tp_mint :: address
  tp_destinationToken :: address
  tp_sourceTokenAccount :: token
  tp_auditorElgamalPubkey :: "address option"
  tp_authority :: address
  tp_amount :: numeric
  tp_sourceElgamalKeypair :: elgamal_keypair
  tp_aesKey :: bytes
  tp_multiSigners :: "signer list option"
  tp_transferHookAccounts :: "account_meta list option"
  tp_programAddress :: "address option"
  tp_payer :: signer
  tp_destinationTokenAccount :: "token option"
  tp_destinationElgamalPubkey :: "address option"

definition getDestinationElGamalPubkey ::
  "'w kit \<Rightarrow> 'w zk \<Rightarrow> transfer_plan_input \<Rightarrow> exn + bytes" where
  "getDestinationElGamalPubkey K Z input =
     (case truthy (tp_destinationElgamalPubkey input) of
        Some key \<Rightarrow> getElGamalPubkeyFromAddress K Z key
      | None \<Rightarrow>
          (case tp_destinationTokenAccount input of
             None \<Rightarrow> Inl (bare_error INVALID_INPUT ''Destination confidential transfer state is required.'')
           | Some account \<Rightarrow>
               result_bind (getRequiredConfidentialTransferAccountExtension account)
                 (\<lambda>ct. getElGamalPubkeyFromAddress K Z (elgamalPubkey ct))))"

section \<open>Flows\<close>

record proof_flow =
  pf_proofAccounts :: "address list"
  pf_setup :: instruction_plan
  pf_action :: instruction
  pf_cleanup :: "instruction list"

definition proofFlowToPlan :: "proof_flow \<Rightarrow> instruction_plan" where
  "proofFlowToPlan flow =
     Sequential_Plan [pf_setup flow, Single_Plan (pf_action flow),
       Parallel_Plan (map Single_Plan (pf_cleanup flow))]"

record context_plan =
  cp_address :: address
  cp_setup :: instruction_plan
  cp_cleanup :: instruction

text \<open>
  One proof's context-state account. The authority of the account defaults to the payer, and no
  caller passes another one.
\<close>

definition buildContextStateProofPlan ::
  "'w kit \<Rightarrow> bytes \<Rightarrow> proof_kind \<Rightarrow> signer \<Rightarrow> signer option \<Rightarrow> ('w, context_plan) task" where
  "buildContextStateProofPlan K proofData verifyAction payer contextStateAuthority =
     (let authority = (case contextStateAuthority of Some a \<Rightarrow> a | None \<Rightarrow> payer) in
      io_bind (kit_generateKeyPairSigner K) (\<lambda>contextAccount.
      io_bind (kit_verifyProof K verifyAction (sg_address payer) proofData
        (Some (contextAccount, sg_address authority))) (\<lambda>setupInstructions.
      io_return \<lparr>cp_address = sg_address contextAccount,
        cp_setup = Sequential_Plan (map Single_Plan setupInstructions),
        cp_cleanup = build K (CloseContextState (sg_address contextAccount) (sg_address authority)
          (sg_address payer))\<rparr>)))"

definition withTransferHookAccounts ::
  "instruction \<Rightarrow> account_meta list option \<Rightarrow> instruction" where
  "withTransferHookAccounts ix hookAccounts =
     (case hookAccounts of
        None \<Rightarrow> ix
      | Some [] \<Rightarrow> ix
      | Some hooks \<Rightarrow>
          ix\<lparr>ix_accounts := Some ((case ix_accounts ix of None \<Rightarrow> [] | Some as \<Rightarrow> as) @ hooks)\<rparr>)"

definition getConfidentialTransferProofFlow ::
  "'p ristretto \<Rightarrow> 'w kit \<Rightarrow> 'w zk \<Rightarrow> transfer_plan_input \<Rightarrow> ('w, proof_flow) task" where
  "getConfidentialTransferProofFlow R K Z input =
     io_bind (io_of (getRequiredConfidentialTransferAccountExtension (tp_sourceTokenAccount input)))
       (\<lambda>sourceAccount.
     io_bind (io_of (toBigInt (tp_amount input))) (\<lambda>amount.
     io_bind (io_of (assertNonNegativeAmount amount)) (\<lambda>_.
     if MAX_TRANSFER_AMOUNT < amount
     then io_throw (bare_error AMOUNT_TOO_LARGE
       (''amount '' @ show_int amount @ '' exceeds the confidential-transfer maximum of '' @
        show_int MAX_TRANSFER_AMOUNT @ '' (2^48-1)''))
     else
     let (transferAmountLo, transferAmountHi) = splitAmount amount TRANSFER_AMOUNT_LO_BIT_LENGTH;
         sourcePubkey = kp_pubkey (tp_sourceElgamalKeypair input) in
     io_bind (io_of (getDestinationElGamalPubkey K Z input)) (\<lambda>destinationPubkey.
     io_bind (io_of (case truthy (tp_auditorElgamalPubkey input) of
         Some a \<Rightarrow> getElGamalPubkeyFromAddress K Z a
       | None \<Rightarrow> getDefaultAuditorElGamalPubkey Z)) (\<lambda>auditorPubkey.
     io_bind (zk_newOpening Z) (\<lambda>openingLo.
     io_bind (zk_newOpening Z) (\<lambda>openingHi.
     io_bind (io_of (zk_groupedEncrypt Z sourcePubkey destinationPubkey auditorPubkey
       transferAmountLo openingLo)) (\<lambda>groupedLo.
     io_bind (io_of (zk_groupedEncrypt Z sourcePubkey destinationPubkey auditorPubkey
       transferAmountHi openingHi)) (\<lambda>groupedHi.
     io_bind (io_of (extractCiphertextFromGroupedBytes groupedLo (js_int 0))) (\<lambda>sourceCiphertextLo.
     io_bind (io_of (extractCiphertextFromGroupedBytes groupedHi (js_int 0))) (\<lambda>sourceCiphertextHi.
     io_bind (io_of (extractCiphertextFromGroupedBytes groupedLo (js_int 2))) (\<lambda>auditorCiphertextLo.
     io_bind (io_of (extractCiphertextFromGroupedBytes groupedHi (js_int 2))) (\<lambda>auditorCiphertextHi.
     io_bind (io_of (decryptAvailableBalance Z sourceAccount (tp_aesKey input))) (\<lambda>currentBalance.
     io_bind (io_of (computeNewAvailableBalance currentBalance amount)) (\<lambda>newAvailableBalance.
     io_bind (zk_newOpening Z) (\<lambda>newOpening.
     io_bind (io_of (zk_commit Z newAvailableBalance newOpening)) (\<lambda>newCommitment.
     io_bind (io_of (result_bind (subtractWithLoHiCiphertexts R (availableBalance sourceAccount)
         sourceCiphertextLo sourceCiphertextHi TRANSFER_AMOUNT_LO_BIT_LENGTH)
         (parseElGamalCiphertext Z))) (\<lambda>newCiphertext.
     io_bind (zk_equalityProof Z (tp_sourceElgamalKeypair input) newCiphertext newCommitment
       newOpening newAvailableBalance) (\<lambda>equalityProofData.
     io_bind (zk_validityProof Z sourcePubkey destinationPubkey auditorPubkey groupedLo groupedHi
       transferAmountLo transferAmountHi openingLo openingHi) (\<lambda>ciphertextValidityProofData.
     io_bind (io_of (zk_commitmentFromBytes Z (slice 0 32 groupedLo))) (\<lambda>commitmentLo.
     io_bind (io_of (zk_commitmentFromBytes Z (slice 0 32 groupedHi))) (\<lambda>commitmentHi.
     io_bind (zk_newOpening Z) (\<lambda>paddingOpening.
     io_bind (io_of (zk_commit Z 0 paddingOpening)) (\<lambda>paddingCommitment.
     io_bind (zk_rangeProofU128 Z
       [newCommitment, commitmentLo, commitmentHi, paddingCommitment]
       [to_u64 newAvailableBalance, to_u64 transferAmountLo, to_u64 transferAmountHi, 0]
       [REMAINING_BALANCE_BIT_LENGTH, nat TRANSFER_AMOUNT_LO_BIT_LENGTH,
        nat TRANSFER_AMOUNT_HI_BIT_LENGTH, RANGE_PROOF_PADDING_BIT_LENGTH]
       [newOpening, openingLo, openingHi, paddingOpening]) (\<lambda>rangeProofData.
     io_bind (promise_all (kit_race K)
       [buildContextStateProofPlan K equalityProofData CiphertextCommitmentEquality
          (tp_payer input) None,
        buildContextStateProofPlan K ciphertextValidityProofData
          BatchedGroupedCiphertext3HandlesValidity (tp_payer input) None,
        buildContextStateProofPlan K rangeProofData BatchedRangeProofU128 (tp_payer input) None])
       (\<lambda>plans.
     let equalityProofPlan = plans ! 0; ciphertextValidityProofPlan = plans ! 1;
         rangeProofPlan = plans ! 2 in
     io_bind (zk_aeEncrypt Z (tp_aesKey input) newAvailableBalance) (\<lambda>newDecryptable.
     io_return \<lparr>
       pf_proofAccounts = [cp_address equalityProofPlan, cp_address ciphertextValidityProofPlan,
         cp_address rangeProofPlan],
       pf_setup = Parallel_Plan [cp_setup equalityProofPlan, cp_setup ciphertextValidityProofPlan,
         cp_setup rangeProofPlan],
       pf_action = withTransferHookAccounts
         (build K (ConfidentialTransfer
           \<lparr>ta_sourceToken = tp_sourceToken input, ta_mint = tp_mint input,
            ta_destinationToken = tp_destinationToken input,
            ta_equalityRecord = cp_address equalityProofPlan,
            ta_ciphertextValidityRecord = cp_address ciphertextValidityProofPlan,
            ta_rangeRecord = cp_address rangeProofPlan,
            ta_authority = tp_authority input,
            ta_newSourceDecryptableAvailableBalance = newDecryptable,
            ta_auditorCiphertextLo = auditorCiphertextLo,
            ta_auditorCiphertextHi = auditorCiphertextHi,
            ta_equalityOffset = 0, ta_ciphertextValidityOffset = 0, ta_rangeOffset = 0,
            ta_multiSigners = tp_multiSigners input\<rparr>
           (case tp_programAddress input of Some p \<Rightarrow> p | None \<Rightarrow> TOKEN_2022_PROGRAM_ADDRESS)))
         (tp_transferHookAccounts input),
       pf_cleanup = [cp_cleanup equalityProofPlan, cp_cleanup ciphertextValidityProofPlan,
         cp_cleanup rangeProofPlan]\<rparr>)))))))))))))))))))))))))))"

definition getConfidentialTransferInstructionPlan ::
  "'p ristretto \<Rightarrow> 'w kit \<Rightarrow> 'w zk \<Rightarrow> transfer_plan_input \<Rightarrow> ('w, instruction_plan) task" where
  "getConfidentialTransferInstructionPlan R K Z input =
     io_bind (getConfidentialTransferProofFlow R K Z input)
       (\<lambda>flow. io_return (proofFlowToPlan flow))"

record withdraw_plan_input =
  wp_token :: address
  wp_mint :: address
  wp_tokenAccount :: token
  wp_authority :: address
  wp_amount :: numeric
  wp_decimals :: nat
  wp_elgamalKeypair :: elgamal_keypair
  wp_aesKey :: bytes
  wp_multiSigners :: "signer list option"
  wp_programAddress :: "address option"
  wp_payer :: signer

definition getConfidentialWithdrawProofFlow ::
  "'p ristretto \<Rightarrow> 'w kit \<Rightarrow> 'w zk \<Rightarrow> withdraw_plan_input \<Rightarrow> ('w, proof_flow) task" where
  "getConfidentialWithdrawProofFlow R K Z input =
     io_bind (io_of (getRequiredConfidentialTransferAccountExtension (wp_tokenAccount input)))
       (\<lambda>account.
     io_bind (io_of (toBigInt (wp_amount input))) (\<lambda>amount.
     if amount \<le> 0
     then io_throw (bare_error INVALID_INPUT
       (''withdraw amount must be greater than zero, got '' @ show_int amount))
     else
     io_bind (io_of (decryptAvailableBalance Z account (wp_aesKey input))) (\<lambda>currentBalance.
     io_bind (io_of (computeNewAvailableBalance currentBalance amount)) (\<lambda>newAvailableBalance.
     io_bind (zk_newOpening Z) (\<lambda>remainingOpening.
     io_bind (io_of (zk_commit Z newAvailableBalance remainingOpening)) (\<lambda>remainingCommitment.
     io_bind (io_of (result_bind (subtractAmountFromCiphertext R (availableBalance account) amount)
         (parseElGamalCiphertext Z))) (\<lambda>remainingCiphertext.
     io_bind (zk_equalityProof Z (wp_elgamalKeypair input) remainingCiphertext remainingCommitment
       remainingOpening newAvailableBalance) (\<lambda>equalityProofData.
     io_bind (zk_rangeProofU64 Z [remainingCommitment] [to_u64 newAvailableBalance]
       [REMAINING_BALANCE_BIT_LENGTH] [remainingOpening]) (\<lambda>rangeProofData.
     io_bind (promise_all (kit_race K)
       [buildContextStateProofPlan K equalityProofData CiphertextCommitmentEquality
          (wp_payer input) None,
        buildContextStateProofPlan K rangeProofData BatchedRangeProofU64 (wp_payer input) None])
       (\<lambda>plans.
     let equalityProofPlan = plans ! 0; rangeProofPlan = plans ! 1 in
     io_bind (zk_aeEncrypt Z (wp_aesKey input) newAvailableBalance) (\<lambda>newDecryptable.
     io_return \<lparr>
       pf_proofAccounts = [cp_address equalityProofPlan, cp_address rangeProofPlan],
       pf_setup = Parallel_Plan [cp_setup equalityProofPlan, cp_setup rangeProofPlan],
       pf_action = build K (ConfidentialWithdraw
         \<lparr>wa_token = wp_token input, wa_mint = wp_mint input,
          wa_equalityRecord = cp_address equalityProofPlan,
          wa_rangeRecord = cp_address rangeProofPlan,
          wa_authority = wp_authority input, wa_amount = amount, wa_decimals = wp_decimals input,
          wa_newDecryptableAvailableBalance = newDecryptable,
          wa_equalityOffset = 0, wa_rangeOffset = 0, wa_multiSigners = wp_multiSigners input\<rparr>
         (case wp_programAddress input of Some p \<Rightarrow> p | None \<Rightarrow> TOKEN_2022_PROGRAM_ADDRESS)),
       pf_cleanup = [cp_cleanup equalityProofPlan, cp_cleanup rangeProofPlan]\<rparr>)))))))))))"

definition getConfidentialWithdrawInstructionPlan ::
  "'p ristretto \<Rightarrow> 'w kit \<Rightarrow> 'w zk \<Rightarrow> withdraw_plan_input \<Rightarrow> ('w, instruction_plan) task" where
  "getConfidentialWithdrawInstructionPlan R K Z input =
     io_bind (getConfidentialWithdrawProofFlow R K Z input)
       (\<lambda>flow. io_return (proofFlowToPlan flow))"

section \<open>Splitting and checking amounts\<close>

lemma max_transfer_amount: "MAX_TRANSFER_AMOUNT = 2 ^ 48 - 1"
  by (simp add: MAX_TRANSFER_AMOUNT_def TRANSFER_AMOUNT_LO_BIT_LENGTH_def
      TRANSFER_AMOUNT_HI_BIT_LENGTH_def bigint_shl_eq)

lemma splitAmount_eq:
  "0 \<le> n \<Longrightarrow> splitAmount a n = (a mod 2 ^ nat n, a div 2 ^ nat n)"
  by (simp add: splitAmount_def bigint_shl_eq bigint_shr_eq
      flip: mask_eq_exp_minus_1 take_bit_eq_mask take_bit_eq_mod)

lemma split_transfer_amount:
  "splitAmount a TRANSFER_AMOUNT_LO_BIT_LENGTH = (a mod 2 ^ 16, a div 2 ^ 16)"
  by (simp add: splitAmount_eq TRANSFER_AMOUNT_LO_BIT_LENGTH_def)

lemma transfer_halves_bounds:
  assumes "0 \<le> a" and "a \<le> MAX_TRANSFER_AMOUNT"
  shows "0 \<le> a mod 2 ^ 16" "a mod 2 ^ 16 < 2 ^ 16" "0 \<le> a div 2 ^ 16" "a div 2 ^ 16 < 2 ^ 32"
proof -
  have "a < 2 ^ 16 * 2 ^ 32" using assms by (simp add: max_transfer_amount)
  then show "a div 2 ^ 16 < 2 ^ 32" by (simp add: div_less_iff_less_mult mult.commute)
qed (use assms in simp_all)

interpretation split_codec:
  codec "\<lambda>a. 0 \<le> n" "\<lambda>a. splitAmount a n" "\<lambda>(lo, hi). Some (lo + hi * 2 ^ nat n)" for n :: int
  by unfold_locales (simp add: splitAmount_eq mod_div_mult_eq)

lemma computeNewAvailableBalance_Inr:
  "computeNewAvailableBalance b a = Inr r \<longleftrightarrow> 0 \<le> a \<and> a \<le> b \<and> r = b - a"
  by (auto simp: computeNewAvailableBalance_def assertNonNegativeAmount_def Let_def)

lemma required_extension_Inr:
  "getRequiredConfidentialTransferAccountExtension d = Inr ct \<longleftrightarrow> confidentialState d = Some ct"
  by (auto simp: getRequiredConfidentialTransferAccountExtension_def confidentialState_def
      split: option.splits)

lemma required_extension_Inl:
  "getRequiredConfidentialTransferAccountExtension d = Inl e \<Longrightarrow>
     confidentialState d = None \<and> has_code ACCOUNT_NOT_CONFIGURED e"
  by (auto simp: getRequiredConfidentialTransferAccountExtension_def confidentialState_def
      split: option.splits)

section \<open>The documented behaviour of the libraries\<close>

text \<open>
  What the zk-sdk promises, for the key pairs in \<open>keys\<close>, whose secret scalar is \<open>scalar\<close> of
  their secret bytes: the random source does not fail; commitments and grouped encryptions of
  64-bit values exist, the grouped ciphertext holds the commitment and the three handles, and the
  part of a recipient opens under that recipient's key; ciphertexts of points parse; a proof of a
  true statement can be built (equality: the ciphertext opens to the committed value; validity:
  the grouped ciphertexts encrypt the given values; range: committed values within their bit
  lengths, which add up to the batch size); and what \<open>AeKey\<close> encrypts it decrypts.
\<close>

definition opening_ok :: "'w zk \<Rightarrow> bool" where
  "opening_ok Z \<longleftrightarrow> (\<forall>w. \<exists>r w'. zk_newOpening Z w = (Inr r, w'))"

definition commitment_ok :: "'w zk \<Rightarrow> bool" where
  "commitment_ok Z \<longleftrightarrow> (\<forall>v r. 0 \<le> v \<and> v < 2 ^ 64 \<longrightarrow>
     (\<exists>c. zk_commit Z v r = Inr c \<and> zk_commitmentFromBytes Z c = Inr c))"

definition grouped_ok ::
  "'p::ab_group_add ristretto \<Rightarrow> (bytes \<Rightarrow> int) \<Rightarrow> elgamal_keypair set \<Rightarrow> 'w zk \<Rightarrow> bool" where
  "grouped_ok R scalar keys Z \<longleftrightarrow> (\<forall>p1 p2 p3 v r. 0 \<le> v \<and> v < 2 ^ 64 \<longrightarrow>
     (\<exists>c h1 h2 h3. zk_groupedEncrypt Z p1 p2 p3 v r = Inr (c @ concat [h1, h2, h3]) \<and>
        length c = 32 \<and> length h1 = 32 \<and> length h2 = 32 \<and> length h3 = 32 \<and>
        zk_commit Z v r = Inr c \<and> zk_commitmentFromBytes Z c = Inr c \<and>
        (\<forall>k \<in> keys. (kp_pubkey k = p1 \<longrightarrow> opens R (scalar (kp_secret k)) (c @ h1) v) \<and>
                    (kp_pubkey k = p2 \<longrightarrow> opens R (scalar (kp_secret k)) (c @ h2) v) \<and>
                    (kp_pubkey k = p3 \<longrightarrow> opens R (scalar (kp_secret k)) (c @ h3) v))))"

definition parse_ok :: "'p::ab_group_add ristretto \<Rightarrow> 'w zk \<Rightarrow> bool" where
  "parse_ok R Z \<longleftrightarrow>
     (\<forall>ct p. ciphertextToPoints R ct = Inr p \<longrightarrow> zk_elgamalFromBytes Z ct = Some ct)"

definition equality_ok ::
  "'p::ab_group_add ristretto \<Rightarrow> (bytes \<Rightarrow> int) \<Rightarrow> elgamal_keypair set \<Rightarrow> 'w zk \<Rightarrow> bool" where
  "equality_ok R scalar keys Z \<longleftrightarrow> (\<forall>k \<in> keys. \<forall>ct c r v w.
     0 \<le> v \<and> v < 2 ^ 64 \<and> opens R (scalar (kp_secret k)) ct v \<and> zk_commit Z v r = Inr c \<longrightarrow>
     (\<exists>bs w'. zk_equalityProof Z k ct c r v w = (Inr bs, w')))"

definition validity_ok :: "'w zk \<Rightarrow> bool" where
  "validity_ok Z \<longleftrightarrow> (\<forall>p1 p2 p3 g1 g2 v1 v2 o1 o2 w.
     zk_groupedEncrypt Z p1 p2 p3 v1 o1 = Inr g1 \<and> zk_groupedEncrypt Z p1 p2 p3 v2 o2 = Inr g2 \<longrightarrow>
     (\<exists>bs w'. zk_validityProof Z p1 p2 p3 g1 g2 v1 v2 o1 o2 w = (Inr bs, w')))"

text \<open>The statement of a batched range proof over \<open>bits\<close> bits.\<close>

definition in_ranges :: "'w zk \<Rightarrow> nat \<Rightarrow> bytes list \<Rightarrow> int list \<Rightarrow> nat list \<Rightarrow> bytes list \<Rightarrow> bool" where
  "in_ranges Z bits cs vs bs os \<longleftrightarrow>
     list_all2 (\<lambda>(v, r) c. zk_commit Z v r = Inr c) (zip vs os) cs \<and>
     list_all2 (\<lambda>v b. 0 \<le> v \<and> v < 2 ^ b) vs bs \<and> length os = length vs \<and> sum_list bs = bits"

definition range_ok :: "'w zk \<Rightarrow> bool" where
  "range_ok Z \<longleftrightarrow> (\<forall>cs vs bs os w.
     (in_ranges Z 128 cs vs bs os \<longrightarrow> (\<exists>p w'. zk_rangeProofU128 Z cs vs bs os w = (Inr p, w'))) \<and>
     (in_ranges Z 64 cs vs bs os \<longrightarrow> (\<exists>p w'. zk_rangeProofU64 Z cs vs bs os w = (Inr p, w'))))"

definition ae_decrypts :: "'w zk \<Rightarrow> bytes \<Rightarrow> bytes \<Rightarrow> int \<Rightarrow> bool" where
  "ae_decrypts Z key bs v \<longleftrightarrow> (\<exists>c. zk_aeFromBytes Z bs = Some c \<and> zk_aeDecrypt Z key c = Inr v)"

definition ae_ok :: "'w zk \<Rightarrow> bool" where
  "ae_ok Z \<longleftrightarrow> (\<forall>key v w. 0 \<le> v \<and> v < 2 ^ 64 \<longrightarrow>
     (\<exists>bs w'. zk_aeEncrypt Z key v w = (Inr bs, w') \<and> ae_decrypts Z key bs v))"

definition zk_documented ::
  "'p::ab_group_add ristretto \<Rightarrow> (bytes \<Rightarrow> int) \<Rightarrow> elgamal_keypair set \<Rightarrow> 'w zk \<Rightarrow> bool" where
  "zk_documented R scalar keys Z \<longleftrightarrow>
     opening_ok Z \<and> commitment_ok Z \<and> grouped_ok R scalar keys Z \<and> parse_ok R Z \<and>
     equality_ok R scalar keys Z \<and> validity_ok Z \<and> range_ok Z \<and> ae_ok Z"

text \<open>
  The zk-elgamal-proof client builds the instructions of a proof, and fresh key pairs are
  generated without failing.
\<close>

definition proof_client_ok :: "'w kit \<Rightarrow> bool" where
  "proof_client_ok K \<longleftrightarrow>
     (\<forall>w. \<exists>s w'. kit_generateKeyPairSigner K w = (Inr s, w')) \<and>
     (\<forall>kind p bs c w. \<exists>ixs w'. kit_verifyProof K kind p bs c w = (Inr ixs, w'))"

lemma decryptAvailableBalance_Inr:
  "decryptAvailableBalance Z ct key = Inr v \<longleftrightarrow>
     ae_decrypts Z key (decryptableAvailableBalance ct) v"
  by (auto simp: decryptAvailableBalance_def parseAeCiphertext_def ae_decrypts_def split: option.splits)

lemma extract_from_three:
  assumes "length c = 32" "length h1 = 32" "length h2 = 32" "length h3 = 32"
  shows "extractCiphertextFromGroupedBytes (c @ concat [h1, h2, h3]) (js_int 0) = Inr (c @ h1)"
    "extractCiphertextFromGroupedBytes (c @ concat [h1, h2, h3]) (js_int 2) = Inr (c @ h3)"
  using extract_handle [of c "[h1, h2, h3]" 0] extract_handle [of c "[h1, h2, h3]" 2] assms
  by simp_all

text \<open>What every context plan of a flow is: fresh account, closed to the payer.\<close>

definition context_plan_for :: "signer \<Rightarrow> context_plan \<Rightarrow> bool" where
  "context_plan_for payer p \<longleftrightarrow>
     (\<exists>ixs. cp_setup p = Sequential_Plan (map Single_Plan ixs)) \<and>
     ix_call (cp_cleanup p) =
       CloseContextState (cp_address p) (sg_address payer) (sg_address payer)"

lemma build_context_plan:
  assumes "buildContextStateProofPlan K bs kind payer None w = (Inr p, w')"
  shows "context_plan_for payer p"
  using assms
  by (auto simp: buildContextStateProofPlan_def context_plan_for_def io_elim Let_def)

lemma context_plan_total:
  assumes "proof_client_ok K"
  shows "io_yields (buildContextStateProofPlan K bs kind payer None) w
     (\<lambda>p _. context_plan_for payer p)"
proof -
  obtain s w1 where s: "kit_generateKeyPairSigner K w = (Inr s, w1)"
    using assms unfolding proof_client_ok_def by blast
  obtain ixs w2 where "kit_verifyProof K kind (sg_address payer) bs
      (Some (s, sg_address payer)) w1 = (Inr ixs, w2)"
    using assms unfolding proof_client_ok_def by blast
  with s have "\<exists>p. buildContextStateProofPlan K bs kind payer None w = (Inr p, w2)"
    by (simp add: buildContextStateProofPlan_def Let_def)
  then show ?thesis by (auto simp: io_yields_def build_context_plan)
qed

lemma three_plans_total:
  assumes K: "proof_client_ok K"
  obtains p q r w' where
    "promise_all race
       [buildContextStateProofPlan K b1 k1 payer None, buildContextStateProofPlan K b2 k2 payer None,
        buildContextStateProofPlan K b3 k3 payer None] w = (Inr [p, q, r], w')"
    "context_plan_for payer p" "context_plan_for payer q" "context_plan_for payer r"
proof -
  obtain p w1 where p: "buildContextStateProofPlan K b1 k1 payer None w = (Inr p, w1)"
      "context_plan_for payer p"
    by (rule yieldsE [OF context_plan_total [OF K]])
  obtain q w2 where q: "buildContextStateProofPlan K b2 k2 payer None w1 = (Inr q, w2)"
      "context_plan_for payer q"
    by (rule yieldsE [OF context_plan_total [OF K]])
  obtain r w3 where r: "buildContextStateProofPlan K b3 k3 payer None w2 = (Inr r, w3)"
      "context_plan_for payer r"
    by (rule yieldsE [OF context_plan_total [OF K]])
  show thesis
    by (rule that [OF _ p(2) q(2) r(2)]) (simp add: promise_all_def p(1) q(1) r(1))
qed

lemma two_plans_total:
  assumes K: "proof_client_ok K"
  obtains p q w' where
    "promise_all race
       [buildContextStateProofPlan K b1 k1 payer None, buildContextStateProofPlan K b2 k2 payer None]
       w = (Inr [p, q], w')"
    "context_plan_for payer p" "context_plan_for payer q"
proof -
  obtain p w1 where p: "buildContextStateProofPlan K b1 k1 payer None w = (Inr p, w1)"
      "context_plan_for payer p"
    by (rule yieldsE [OF context_plan_total [OF K]])
  obtain q w2 where q: "buildContextStateProofPlan K b2 k2 payer None w1 = (Inr q, w2)"
      "context_plan_for payer q"
    by (rule yieldsE [OF context_plan_total [OF K]])
  show thesis
    by (rule that [OF _ p(2) q(2)]) (simp add: promise_all_def p(1) q(1))
qed

section \<open>The flows exist and prove true statements\<close>

lemma yields_known: "m w = (Inr a, w1) \<Longrightarrow> io_yields (io_bind m f) w Q \<longleftrightarrow> io_yields (f a) w1 Q"
  by (simp add: io_yields_def)

lemma yields_return_iff: "io_yields (io_return a) w Q \<longleftrightarrow> Q a w"
  by (simp add: io_yields_def)

lemmas yields_simps = yields_known yields_return_iff

definition auditor_key :: "'w kit \<Rightarrow> 'w zk \<Rightarrow> transfer_plan_input \<Rightarrow> exn + bytes" where
  "auditor_key K Z input =
     (case truthy (tp_auditorElgamalPubkey input) of
        Some a \<Rightarrow> getElGamalPubkeyFromAddress K Z a
      | None \<Rightarrow> getDefaultAuditorElGamalPubkey Z)"

text \<open>
  A source account whose two encrypted balances agree: the ElGamal ciphertext opens to the
  balance under the owner's key, and the AES ciphertext decrypts to the same balance.
\<close>

definition holds_balance ::
  "'p::ab_group_add ristretto \<Rightarrow> (bytes \<Rightarrow> int) \<Rightarrow> 'w zk \<Rightarrow> elgamal_keypair \<Rightarrow> bytes \<Rightarrow> token \<Rightarrow> int \<Rightarrow> bool"
where
  "holds_balance R scalar Z kp key account b \<longleftrightarrow>
     (\<exists>ct. confidentialState account = Some ct \<and> 0 \<le> b \<and> b < 2 ^ 64 \<and>
        opens R (scalar (kp_secret kp)) (availableBalance ct) b \<and>
        ae_decrypts Z key (decryptableAvailableBalance ct) b)"

definition closes_all :: "signer \<Rightarrow> proof_flow \<Rightarrow> bool" where
  "closes_all payer flow \<longleftrightarrow>
     map ix_call (pf_cleanup flow) =
       map (\<lambda>a. CloseContextState a (sg_address payer) (sg_address payer)) (pf_proofAccounts flow)"

text \<open>The action of a transfer flow: the new balance, and the amount for the auditor.\<close>

definition transfer_action_of ::
  "'p::ab_group_add ristretto \<Rightarrow> (bytes \<Rightarrow> int) \<Rightarrow> elgamal_keypair set \<Rightarrow> 'w zk \<Rightarrow> transfer_plan_input \<Rightarrow>
     bytes \<Rightarrow> int \<Rightarrow> int \<Rightarrow> proof_flow \<Rightarrow> bool" where
  "transfer_action_of R scalar keys Z input auditor b a flow \<longleftrightarrow>
     (\<exists>args prog. ix_call (pf_action flow) = ConfidentialTransfer args prog \<and>
        pf_proofAccounts flow =
          [ta_equalityRecord args, ta_ciphertextValidityRecord args, ta_rangeRecord args] \<and>
        ae_decrypts Z (tp_aesKey input) (ta_newSourceDecryptableAvailableBalance args) (b - a) \<and>
        (\<forall>k \<in> keys. kp_pubkey k = auditor \<longrightarrow>
           opens R (scalar (kp_secret k)) (ta_auditorCiphertextLo args) (a mod 2 ^ 16) \<and>
           opens R (scalar (kp_secret k)) (ta_auditorCiphertextHi args) (a div 2 ^ 16)))"

lemma ix_call_withTransferHookAccounts [simp]:
  "ix_call (withTransferHookAccounts ix hooks) = ix_call ix"
  by (simp add: withTransferHookAccounts_def split: option.splits list.splits)

lemma to_u64_id: "0 \<le> v \<Longrightarrow> v < 2 ^ 64 \<Longrightarrow> to_u64 v = v"
  by (simp add: to_u64_def)

lemma transfer_flow_yields:
  assumes R: "ristretto_group R" and Z: "zk_documented R scalar keys Z" and K: "proof_client_ok K"
    and src: "holds_balance R scalar Z (tp_sourceElgamalKeypair input) (tp_aesKey input)
        (tp_sourceTokenAccount input) b" "tp_sourceElgamalKeypair input \<in> keys"
    and amount: "toBigInt (tp_amount input) = Inr a" "0 \<le> a" "a \<le> MAX_TRANSFER_AMOUNT" "a \<le> b"
    and dest: "getDestinationElGamalPubkey K Z input = Inr dp"
    and aud: "auditor_key K Z input = Inr ap"
  shows "io_yields (getConfidentialTransferProofFlow R K Z input) w
     (\<lambda>flow _. transfer_action_of R scalar keys Z input ap b a flow \<and> closes_all (tp_payer input) flow)"
proof -
  let ?kp = "tp_sourceElgamalKeypair input"
  define lo hi where halves_def: "lo = a mod 2 ^ 16" "hi = a div 2 ^ 16"
  note halves = transfer_halves_bounds [OF amount(2,3), folded halves_def]
  have split: "splitAmount a 16 = (lo, hi)"
    using split_transfer_amount [of a] by (simp add: TRANSFER_AMOUNT_LO_BIT_LENGTH_def halves_def)
  have whole: "lo + hi * 2 ^ 16 = a" by (simp add: halves_def)
  note docs = Z [unfolded zk_documented_def]
  have b64: "0 \<le> b - a" "b - a < 2 ^ 64" and lo64: "lo < 2 ^ 64" and hi64: "hi < 2 ^ 64"
    using src(1) amount halves by (auto simp: holds_balance_def)
  obtain ct where ct: "confidentialState (tp_sourceTokenAccount input) = Some ct"
      "opens R (scalar (kp_secret ?kp)) (availableBalance ct) b"
      "decryptAvailableBalance Z ct (tp_aesKey input) = Inr b"
    using src(1) by (auto simp: holds_balance_def decryptAvailableBalance_Inr)
  have ext: "getRequiredConfidentialTransferAccountExtension (tp_sourceTokenAccount input) = Inr ct"
    using ct(1) by (simp add: required_extension_Inr)
  have new: "computeNewAvailableBalance b a = Inr (b - a)"
    using amount by (simp add: computeNewAvailableBalance_Inr)
  obtain rLo w1 where rLo: "zk_newOpening Z w = (Inr rLo, w1)"
    using docs unfolding opening_ok_def by blast
  obtain rHi w2 where rHi: "zk_newOpening Z w1 = (Inr rHi, w2)"
    using docs unfolding opening_ok_def by blast
  obtain cLo l1 l2 l3 where gLo:
      "zk_groupedEncrypt Z (kp_pubkey ?kp) dp ap lo rLo = Inr (cLo @ concat [l1, l2, l3])"
      "length cLo = 32" "length l1 = 32" "length l2 = 32" "length l3 = 32"
      "zk_commit Z lo rLo = Inr cLo" "zk_commitmentFromBytes Z cLo = Inr cLo"
      "opens R (scalar (kp_secret ?kp)) (cLo @ l1) lo"
      "\<forall>k \<in> keys. kp_pubkey k = ap \<longrightarrow> opens R (scalar (kp_secret k)) (cLo @ l3) lo"
    using docs halves(1) lo64 src(2) unfolding grouped_ok_def by metis
  obtain cHi h1 h2 h3 where gHi:
      "zk_groupedEncrypt Z (kp_pubkey ?kp) dp ap hi rHi = Inr (cHi @ concat [h1, h2, h3])"
      "length cHi = 32" "length h1 = 32" "length h2 = 32" "length h3 = 32"
      "zk_commit Z hi rHi = Inr cHi" "zk_commitmentFromBytes Z cHi = Inr cHi"
      "opens R (scalar (kp_secret ?kp)) (cHi @ h1) hi"
      "\<forall>k \<in> keys. kp_pubkey k = ap \<longrightarrow> opens R (scalar (kp_secret k)) (cHi @ h3) hi"
    using docs halves(3) hi64 src(2) unfolding grouped_ok_def by metis
  obtain rN w3 where rN: "zk_newOpening Z w2 = (Inr rN, w3)"
    using docs unfolding opening_ok_def by blast
  obtain cN where cN: "zk_commit Z (b - a) rN = Inr cN"
    using docs b64 unfolding commitment_ok_def by blast
  obtain ct' where ct': "subtractWithLoHiCiphertexts R (availableBalance ct) (cLo @ l1) (cHi @ h1) 16
        = Inr ct'" "opens R (scalar (kp_secret ?kp)) ct' (b - a)"
    using subtractWithLoHi_opens [OF R ct(2) gLo(8) gHi(8), of 16] whole by auto
  have parse: "zk_elgamalFromBytes Z ct' = Some ct'"
    using docs ct'(2) unfolding parse_ok_def by (metis opensE)
  obtain eqp w4 where eqp: "zk_equalityProof Z ?kp ct' cN rN (b - a) w3 = (Inr eqp, w4)"
    using docs b64 ct'(2) cN src(2) unfolding equality_ok_def by blast
  obtain vap w5 where vap: "zk_validityProof Z (kp_pubkey ?kp) dp ap (cLo @ concat [l1, l2, l3])
      (cHi @ concat [h1, h2, h3]) lo hi rLo rHi w4 = (Inr vap, w5)"
    using docs gLo(1) gHi(1) unfolding validity_ok_def by blast
  obtain rP w6 where rP: "zk_newOpening Z w5 = (Inr rP, w6)"
    using docs unfolding opening_ok_def by blast
  obtain cP where cP: "zk_commit Z 0 rP = Inr cP"
    using docs unfolding commitment_ok_def by fastforce
  have "in_ranges Z 128 [cN, cLo, cHi, cP] [b - a, lo, hi, 0] [64, 16, 32, 16] [rN, rLo, rHi, rP]"
    using halves b64 cN cP gLo(6) gHi(6) by (simp add: in_ranges_def)
  then obtain rap w7 where rap: "zk_rangeProofU128 Z [cN, cLo, cHi, cP] [b - a, lo, hi, 0]
      [64, 16, 32, 16] [rN, rLo, rHi, rP] w6 = (Inr rap, w7)"
    using docs unfolding range_ok_def by blast
  obtain p q r w8 where plans: "promise_all (kit_race K)
       [buildContextStateProofPlan K eqp CiphertextCommitmentEquality (tp_payer input) None,
        buildContextStateProofPlan K vap BatchedGroupedCiphertext3HandlesValidity (tp_payer input) None,
        buildContextStateProofPlan K rap BatchedRangeProofU128 (tp_payer input) None] w7
       = (Inr [p, q, r], w8)"
      "context_plan_for (tp_payer input) p" "context_plan_for (tp_payer input) q"
      "context_plan_for (tp_payer input) r"
    by (rule three_plans_total [OF K])
  obtain ae w9 where ae: "zk_aeEncrypt Z (tp_aesKey input) (b - a) w8 = (Inr ae, w9)"
      "ae_decrypts Z (tp_aesKey input) ae (b - a)"
    using docs b64 unfolding ae_ok_def by blast
  have slices: "slice 0 32 (cLo @ concat [l1, l2, l3]) = cLo"
      "slice 0 32 (cHi @ concat [h1, h2, h3]) = cHi"
    using gLo(2) gHi(2) by (simp_all add: slice_def)
  have u64: "to_u64 (b - a) = b - a" "to_u64 lo = lo" "to_u64 hi = hi"
    using b64 lo64 hi64 halves by (simp_all only: to_u64_id)
  have fits: "(MAX_TRANSFER_AMOUNT < a) = False" using amount(3) by simp
  have nonneg: "assertNonNegativeAmount a = Inr ()"
    using amount(2) by (simp add: assertNonNegativeAmount_def)
  have folded: "a mod 65536 = lo" "a div 65536 = hi" by (simp_all add: halves_def)
  note steps = u64 nonneg ct ext new rLo rHi gLo gHi rN cN ct' parse eqp vap rP cP rap plans ae slices
    amount fits dest b64 aud [unfolded auditor_key_def]
    extract_from_three [OF gLo(2-5)] extract_from_three [OF gHi(2-5)]
  show ?thesis
    unfolding getConfidentialTransferProofFlow_def
    using plans(2-4) gLo(9) gHi(9) ae(2)
    by (simp del: concat.simps add: steps Let_def split yields_simps parseElGamalCiphertext_def
        TRANSFER_AMOUNT_LO_BIT_LENGTH_def TRANSFER_AMOUNT_HI_BIT_LENGTH_def
        REMAINING_BALANCE_BIT_LENGTH_def RANGE_PROOF_PADDING_BIT_LENGTH_def
        transfer_action_of_def closes_all_def context_plan_for_def folded)
qed

definition withdraw_action_of ::
  "'w zk \<Rightarrow> withdraw_plan_input \<Rightarrow> int \<Rightarrow> int \<Rightarrow> proof_flow \<Rightarrow> bool" where
  "withdraw_action_of Z input b a flow \<longleftrightarrow>
     (\<exists>args prog. ix_call (pf_action flow) = ConfidentialWithdraw args prog \<and> wa_amount args = a \<and>
        pf_proofAccounts flow = [wa_equalityRecord args, wa_rangeRecord args] \<and>
        ae_decrypts Z (wp_aesKey input) (wa_newDecryptableAvailableBalance args) (b - a))"

lemma withdraw_flow_yields:
  assumes R: "ristretto_group R" and Z: "zk_documented R scalar keys Z" and K: "proof_client_ok K"
    and src: "holds_balance R scalar Z (wp_elgamalKeypair input) (wp_aesKey input)
        (wp_tokenAccount input) b" "wp_elgamalKeypair input \<in> keys"
    and amount: "toBigInt (wp_amount input) = Inr a" "0 < a" "a \<le> b"
  shows "io_yields (getConfidentialWithdrawProofFlow R K Z input) w
     (\<lambda>flow _. withdraw_action_of Z input b a flow \<and> closes_all (wp_payer input) flow)"
proof -
  let ?kp = "wp_elgamalKeypair input"
  note docs = Z [unfolded zk_documented_def]
  have b64: "0 \<le> b - a" "b - a < 2 ^ 64" and a64: "a < 2 ^ 64"
    using src(1) amount by (auto simp: holds_balance_def)
  obtain ct where ct: "confidentialState (wp_tokenAccount input) = Some ct"
      "opens R (scalar (kp_secret ?kp)) (availableBalance ct) b"
      "decryptAvailableBalance Z ct (wp_aesKey input) = Inr b"
    using src(1) by (auto simp: holds_balance_def decryptAvailableBalance_Inr)
  have ext: "getRequiredConfidentialTransferAccountExtension (wp_tokenAccount input) = Inr ct"
    using ct(1) by (simp add: required_extension_Inr)
  have new: "computeNewAvailableBalance b a = Inr (b - a)"
    using amount by (simp add: computeNewAvailableBalance_Inr)
  obtain rN w1 where rN: "zk_newOpening Z w = (Inr rN, w1)"
    using docs unfolding opening_ok_def by blast
  obtain cN where cN: "zk_commit Z (b - a) rN = Inr cN"
    using docs b64 unfolding commitment_ok_def by blast
  obtain ct' where ct': "subtractAmountFromCiphertext R (availableBalance ct) a = Inr ct'"
      "opens R (scalar (kp_secret ?kp)) ct' (b - a)"
    using subtractAmount_opens [OF R ct(2) amount(2) a64] by auto
  have parse: "zk_elgamalFromBytes Z ct' = Some ct'"
    using docs ct'(2) unfolding parse_ok_def by (metis opensE)
  obtain eqp w2 where eqp: "zk_equalityProof Z ?kp ct' cN rN (b - a) w1 = (Inr eqp, w2)"
    using docs b64 ct'(2) cN src(2) unfolding equality_ok_def by blast
  have "in_ranges Z 64 [cN] [b - a] [64] [rN]"
    using b64 cN by (simp add: in_ranges_def)
  then obtain rap w3 where rap: "zk_rangeProofU64 Z [cN] [b - a] [64] [rN] w2 = (Inr rap, w3)"
    using docs unfolding range_ok_def by blast
  obtain p q w4 where plans: "promise_all (kit_race K)
       [buildContextStateProofPlan K eqp CiphertextCommitmentEquality (wp_payer input) None,
        buildContextStateProofPlan K rap BatchedRangeProofU64 (wp_payer input) None] w3
       = (Inr [p, q], w4)"
      "context_plan_for (wp_payer input) p" "context_plan_for (wp_payer input) q"
    by (rule two_plans_total [OF K])
  obtain ae w5 where ae: "zk_aeEncrypt Z (wp_aesKey input) (b - a) w4 = (Inr ae, w5)"
      "ae_decrypts Z (wp_aesKey input) ae (b - a)"
    using docs b64 unfolding ae_ok_def by blast
  have u64: "to_u64 (b - a) = b - a" using b64 by (rule to_u64_id)
  have positive: "(a \<le> 0) = False" using amount(2) by simp
  note steps = u64 positive ct ext new rN cN ct' parse eqp rap plans ae amount b64
  show ?thesis
    unfolding getConfidentialWithdrawProofFlow_def
    using plans(2-3) ae(2)
    by (simp add: steps Let_def yields_simps parseElGamalCiphertext_def
        REMAINING_BALANCE_BIT_LENGTH_def withdraw_action_of_def closes_all_def
        context_plan_for_def)
qed

section \<open>What a flow needs, and how it is refused\<close>

text \<open>A transfer flow that was built passed every check of the code.\<close>

lemma transfer_flow_checks:
  assumes "getConfidentialTransferProofFlow R K Z input w = (Inr flow, w')"
  shows "\<exists>ct a b. confidentialState (tp_sourceTokenAccount input) = Some ct \<and>
     toBigInt (tp_amount input) = Inr a \<and> 0 \<le> a \<and> a \<le> MAX_TRANSFER_AMOUNT \<and>
     ae_decrypts Z (tp_aesKey input) (decryptableAvailableBalance ct) b \<and> a \<le> b"
  using assms unfolding getConfidentialTransferProofFlow_def
  by (auto simp: io_elim assertNonNegativeAmount_def required_extension_Inr split_transfer_amount
      computeNewAvailableBalance_Inr decryptAvailableBalance_Inr Let_def split: if_splits)

lemma withdraw_flow_checks:
  assumes "getConfidentialWithdrawProofFlow R K Z input w = (Inr flow, w')"
  shows "\<exists>ct a b. confidentialState (wp_tokenAccount input) = Some ct \<and>
     toBigInt (wp_amount input) = Inr a \<and> 0 < a \<and>
     ae_decrypts Z (wp_aesKey input) (decryptableAvailableBalance ct) b \<and> a \<le> b"
  using assms unfolding getConfidentialWithdrawProofFlow_def
  by (auto simp: io_elim required_extension_Inr
      computeNewAvailableBalance_Inr decryptAvailableBalance_Inr Let_def split: if_splits)

lemma transfer_flow_too_large:
  assumes "confidentialState (tp_sourceTokenAccount input) = Some ct"
    and "toBigInt (tp_amount input) = Inr a" and "MAX_TRANSFER_AMOUNT < a"
  shows "\<exists>e. getConfidentialTransferProofFlow R K Z input w = (Inl e, w) \<and> has_code AMOUNT_TOO_LARGE e"
  using assms
  by (simp add: getConfidentialTransferProofFlow_def required_extension_Inr [THEN iffD2]
      assertNonNegativeAmount_def max_transfer_amount)

lemma withdraw_flow_insufficient:
  assumes "confidentialState (wp_tokenAccount input) = Some ct"
    and "toBigInt (wp_amount input) = Inr a" and "0 < a"
    and "ae_decrypts Z (wp_aesKey input) (decryptableAvailableBalance ct) b" and "b < a"
  shows "\<exists>e. getConfidentialWithdrawProofFlow R K Z input w = (Inl e, w) \<and> has_code INSUFFICIENT_FUNDS e"
  using assms
  by (simp add: getConfidentialWithdrawProofFlow_def required_extension_Inr [THEN iffD2]
      decryptAvailableBalance_Inr [THEN iffD2] computeNewAvailableBalance_def
      assertNonNegativeAmount_def)

section \<open>The order of a flow's instructions\<close>

text \<open>
  \<open>schedule plan ixs\<close>: the instructions \<open>ixs\<close>, in that order, are a way to run the plan: one
  after another for a sequential plan, interleaved for a parallel one.
\<close>

inductive schedule :: "instruction_plan \<Rightarrow> instruction list \<Rightarrow> bool" where
  single: "schedule (Single_Plan i) [i]"
| seq_nil: "schedule (Sequential_Plan []) []"
| seq_cons: "schedule p xs \<Longrightarrow> schedule (Sequential_Plan ps) ys \<Longrightarrow>
     schedule (Sequential_Plan (p # ps)) (xs @ ys)"
| par_nil: "schedule (Parallel_Plan []) []"
| par_cons: "schedule p xs \<Longrightarrow> schedule (Parallel_Plan ps) ys \<Longrightarrow> zs \<in> shuffles xs ys \<Longrightarrow>
     schedule (Parallel_Plan (p # ps)) zs"

inductive_cases schedule_singleE: "schedule (Single_Plan i) zs"
inductive_cases schedule_seqE: "schedule (Sequential_Plan ps) zs"
inductive_cases schedule_parE: "schedule (Parallel_Plan ps) zs"

inductive_simps schedule_single_simp [simp]: "schedule (Single_Plan i) zs"
inductive_simps schedule_seq_nil_simp [simp]: "schedule (Sequential_Plan []) zs"
inductive_simps schedule_seq_cons_simp: "schedule (Sequential_Plan (p # ps)) zs"

lemma schedule_parallel_singles:
  "schedule (Parallel_Plan (map Single_Plan ixs)) zs \<Longrightarrow> mset zs = mset ixs"
proof (induction ixs arbitrary: zs)
  case Nil
  then show ?case by (auto elim: schedule_parE)
next
  case (Cons i ixs)
  from Cons.prems obtain xs ys where "schedule (Single_Plan i) xs"
      "schedule (Parallel_Plan (map Single_Plan ixs)) ys" "zs \<in> shuffles xs ys"
    by (auto elim: schedule_parE)
  with Cons.IH show ?case by (auto dest: mset_shuffles)
qed

lemma schedule_flow:
  assumes "schedule (proofFlowToPlan flow) zs"
  shows "\<exists>before after. zs = before @ pf_action flow # after \<and> schedule (pf_setup flow) before \<and>
     mset after = mset (pf_cleanup flow)"
  using assms
  by (auto simp: proofFlowToPlan_def schedule_seq_cons_simp dest: schedule_parallel_singles)

lemma schedule_sequential_total: "\<exists>zs. schedule (Sequential_Plan (map Single_Plan ixs)) zs"
  by (induction ixs) (auto intro: schedule.intros)

section \<open>The concrete libraries satisfy the hypotheses\<close>

lemma toy_zk_documented: "zk_documented byte_group scalar keys (toy_zk :: 'w zk)"
proof -
  have "ae_ok (toy_zk :: 'w zk)"
    by (simp add: ae_ok_def ae_decrypts_def toy_zk_def idle_zk_def le_nat_bigUint64)
  moreover have "grouped_ok byte_group scalar keys (toy_zk :: 'w zk)"
  proof -
    have "\<exists>c h1 h2 h3. zk_groupedEncrypt (toy_zk :: 'w zk) p1 p2 p3 v r = Inr (c @ concat [h1, h2, h3]) \<and>
        length c = 32 \<and> length h1 = 32 \<and> length h2 = 32 \<and> length h3 = 32 \<and>
        zk_commit (toy_zk :: 'w zk) v r = Inr c \<and> zk_commitmentFromBytes (toy_zk :: 'w zk) c = Inr c \<and>
        (\<forall>s. opens byte_group s (c @ h1) v \<and> opens byte_group s (c @ h2) v \<and> opens byte_group s (c @ h3) v)"
      for p1 p2 p3 v r
      by (rule exI [of _ "point v"], rule exI [of _ "point 0"], rule exI [of _ "point 0"],
          rule exI [of _ "point 0"]) (simp add: toy_zk_def idle_zk_def opens_point)
    then show ?thesis unfolding grouped_ok_def by metis
  qed
  ultimately show ?thesis
    by (simp add: zk_documented_def opening_ok_def commitment_ok_def parse_ok_def equality_ok_def
        validity_ok_def range_ok_def toy_zk_def idle_zk_def)
qed

lemma toy_kit_ok: "proof_client_ok toy_kit"
  by (simp add: proof_client_ok_def toy_kit_def)

lemma toy_holds_balance:
  "0 \<le> b \<Longrightarrow> b < 2 ^ 64 \<Longrightarrow>
     holds_balance byte_group scalar (toy_zk :: 'w zk) kp key (token_with p b) b"
  by (simp add: holds_balance_def ct_with_def opens_point ae_decrypts_def toy_zk_def idle_zk_def
      le_nat_bigUint64)

section \<open>Properties\<close>

text \<open>An amount one transfer can carry splits into a low half of 16 bits and a high half of
  32 bits that put it back together; so both halves fit the bit lengths of the range proof.\<close>

theorem split_amount_roundtrip:
  assumes "0 \<le> amount" and "amount \<le> MAX_TRANSFER_AMOUNT"
  shows "case splitAmount amount TRANSFER_AMOUNT_LO_BIT_LENGTH of (lo, hi) \<Rightarrow>
     0 \<le> lo \<and> lo < 2 ^ 16 \<and> 0 \<le> hi \<and> hi < 2 ^ 32 \<and> lo + hi * 2 ^ 16 = amount"
  using transfer_halves_bounds [OF assms] by (simp add: split_transfer_amount)

theorem split_amount_roundtrip_witness:
  "case splitAmount 281474976710655 TRANSFER_AMOUNT_LO_BIT_LENGTH of (lo, hi) \<Rightarrow>
     0 \<le> lo \<and> lo < 2 ^ 16 \<and> 0 \<le> hi \<and> hi < 2 ^ 32 \<and> lo + hi * 2 ^ 16 = 281474976710655"
  by (rule split_amount_roundtrip) (simp_all add: max_transfer_amount)

text \<open>C6: For a configured account whose two encrypted balances agree on \<open>b\<close> and an amount of at
  most \<open>b\<close> and \<open>2 ^ 48 - 1\<close>, the transfer flow is built: every proof it asks the zk-sdk for is of
  a true statement. Its instruction stores an AES ciphertext of \<open>b - amount\<close>, uses exactly its
  three proof accounts, carries the two halves of the amount encrypted to the auditor's key, and
  its cleanup closes exactly the proof accounts it created, refunding the payer.\<close>

theorem transfer_flow_correct:
  assumes "ristretto_group R" and "zk_documented R scalar keys Z" and "proof_client_ok K"
    and "holds_balance R scalar Z (tp_sourceElgamalKeypair input) (tp_aesKey input)
        (tp_sourceTokenAccount input) b" and "tp_sourceElgamalKeypair input \<in> keys"
    and "toBigInt (tp_amount input) = Inr a" "0 \<le> a" "a \<le> MAX_TRANSFER_AMOUNT" "a \<le> b"
    and "getDestinationElGamalPubkey K Z input = Inr dp" and "auditor_key K Z input = Inr ap"
  shows "io_yields (getConfidentialTransferProofFlow R K Z input) w
     (\<lambda>flow _. transfer_action_of R scalar keys Z input ap b a flow \<and> closes_all (tp_payer input) flow)"
  by (rule transfer_flow_yields [OF assms])

definition sample_transfer :: transfer_plan_input where
  "sample_transfer = \<lparr>tp_sourceToken = ''src'', tp_mint = ''mint'', tp_destinationToken = ''dst'',
     tp_sourceTokenAccount = token_with 0 1000, tp_auditorElgamalPubkey = Some ''auditor'',
     tp_authority = ''alice'', tp_amount = BigInt_v 600, tp_sourceElgamalKeypair = some_keypair,
     tp_aesKey = [1], tp_multiSigners = None, tp_transferHookAccounts = None,
     tp_programAddress = None, tp_payer = signer_named ''payer'',
     tp_destinationTokenAccount = Some (token_with 0 0), tp_destinationElgamalPubkey = None\<rparr>"

theorem transfer_flow_correct_witness:
  "io_yields (getConfidentialTransferProofFlow byte_group toy_kit toy_zk sample_transfer) 0
     (\<lambda>flow _. transfer_action_of byte_group (\<lambda>_. 5) UNIV (toy_zk :: nat zk) sample_transfer
        [97, 117, 100, 105, 116, 111, 114] 1000 600 flow \<and> closes_all (signer_named ''payer'') flow)"
proof -
  have dest: "getDestinationElGamalPubkey toy_kit toy_zk sample_transfer = Inr [107]"
    by (simp add: getDestinationElGamalPubkey_def sample_transfer_def token_with_def ct_with_def
        getRequiredConfidentialTransferAccountExtension_def getElGamalPubkeyFromAddress_def
        toy_kit_def toy_zk_def idle_kit_def idle_zk_def)
  have aud: "auditor_key toy_kit toy_zk sample_transfer = Inr [97, 117, 100, 105, 116, 111, 114]"
    by (simp add: auditor_key_def sample_transfer_def getElGamalPubkeyFromAddress_def
        toy_kit_def toy_zk_def idle_kit_def idle_zk_def)
  have fields: "tp_payer sample_transfer = signer_named ''payer''" "tp_aesKey sample_transfer = [1]"
    "tp_sourceTokenAccount sample_transfer = token_with 0 1000"
    "tp_amount sample_transfer = BigInt_v 600"
    "tp_sourceElgamalKeypair sample_transfer = some_keypair"
    by (simp_all add: sample_transfer_def)
  show ?thesis
    using transfer_flow_correct [OF byte_group_ok toy_zk_documented toy_kit_ok _ _ _ _ _ _ dest aud,
        where b = 1000 and a = 600 and scalar = "\<lambda>_. 5" and keys = UNIV and w = 0]
    by (simp add: fields toy_holds_balance max_transfer_amount)
qed

text \<open>C9: Likewise for a withdraw of a positive amount of at most the balance: the flow is built,
  withdraws exactly the amount, stores an AES ciphertext of the remaining balance, and closes the
  two proof accounts it created.\<close>

theorem withdraw_flow_correct:
  assumes "ristretto_group R" and "zk_documented R scalar keys Z" and "proof_client_ok K"
    and "holds_balance R scalar Z (wp_elgamalKeypair input) (wp_aesKey input)
        (wp_tokenAccount input) b" and "wp_elgamalKeypair input \<in> keys"
    and "toBigInt (wp_amount input) = Inr a" "0 < a" "a \<le> b"
  shows "io_yields (getConfidentialWithdrawProofFlow R K Z input) w
     (\<lambda>flow _. withdraw_action_of Z input b a flow \<and> closes_all (wp_payer input) flow)"
  by (rule withdraw_flow_yields [OF assms])

definition sample_withdraw :: withdraw_plan_input where
  "sample_withdraw = \<lparr>wp_token = ''src'', wp_mint = ''mint'', wp_tokenAccount = token_with 0 1000,
     wp_authority = ''alice'', wp_amount = BigInt_v 400, wp_decimals = 2,
     wp_elgamalKeypair = some_keypair, wp_aesKey = [1], wp_multiSigners = None,
     wp_programAddress = None, wp_payer = signer_named ''payer''\<rparr>"

theorem withdraw_flow_correct_witness:
  "io_yields (getConfidentialWithdrawProofFlow byte_group toy_kit toy_zk sample_withdraw) 0
     (\<lambda>flow _. withdraw_action_of (toy_zk :: nat zk) sample_withdraw 1000 400 flow \<and>
        closes_all (signer_named ''payer'') flow)"
  using withdraw_flow_correct [OF byte_group_ok toy_zk_documented toy_kit_ok,
      where b = 1000 and a = 400 and scalar = "\<lambda>_. 5" and keys = UNIV and w = 0
        and input = sample_withdraw]
  by (simp add: sample_withdraw_def toy_holds_balance)


definition sample_ix :: "address \<Rightarrow> instruction" where
  "sample_ix a = \<lparr>ix_call = CloseContextState a ''p'' ''p'', ix_accounts = None\<rparr>"

definition sample_flow :: proof_flow where
  "sample_flow = \<lparr>pf_proofAccounts = [''a''], pf_setup = Single_Plan (sample_ix ''setup''),
     pf_action = sample_ix ''action'', pf_cleanup = [sample_ix ''a'']\<rparr>"


end
