(* ===== verification/Send.thy ===== *)
theory Send
  imports Signing Proof_Flow
begin

text \<open>
  The sending half of \<open>src/src/internal/send.ts\<close>: one transaction, a whole proof flow with its
  cleanup on failure, closing proof accounts, and the retry loop. The RPC client, the planner and
  the wallets are the parameters of \<open>Services\<close>; \<open>sendAndConfirmTransactionFactory\<close> is
  \<open>rpc_sendAndConfirm\<close>, \<open>isSolanaError(e, SOLANA_ERROR__BLOCK_HEIGHT_EXCEEDED)\<close> is
  \<open>kit_blockHeightExceeded\<close>.
\<close>

record 'w send_context =
  ctx_rpc :: "'w rpc"
  ctx_payer :: signer
  ctx_operation :: string
  ctx_computeUnitPrice :: "numeric option"

section \<open>One transaction\<close>

definition logsOf :: "'w send_context \<Rightarrow> signature \<Rightarrow> ('w, string list option) task" where
  "logsOf ctx signature =
     io_catch
       (io_bind (rpc_getTransaction (ctx_rpc ctx) signature) (\<lambda>tx.
        io_return (case tx of
            None \<Rightarrow> None
          | Some t \<Rightarrow> (case rt_meta t of None \<Rightarrow> None | Some m \<Rightarrow> tm_logMessages m))))
       (\<lambda>_. io_return None)"

definition simulateAndSend ::
  "'w kit \<Rightarrow> 'w send_context \<Rightarrow> transaction \<Rightarrow> string \<Rightarrow> ('w, signature) task" where
  "simulateAndSend K ctx tx step =
     io_bind (rpc_simulateTransaction (ctx_rpc ctx) tx) (\<lambda>simulation.
     case sim_err simulation of
       Some err \<Rightarrow>
         (let logs = (case sim_logs simulation of Some l \<Rightarrow> l | None \<Rightarrow> []) in
          io_throw (ConfidentialTransfersError TRANSACTION_FAILED
            (ctx_operation ctx @ '' '' @
             (if step = ctx_operation ctx then ''transaction''
              else ''step '' @ dquote @ step @ dquote) @
             '' failed simulation: '' @ err @
             newline @ ''--- program logs ---'' @ newline @ join newline logs)
            (no_details\<lparr>d_operation := Some (ctx_operation ctx), d_step := Some step,
               d_logs := Some logs\<rparr>)))
     | None \<Rightarrow>
         io_bind (io_of (kit_getSignature K tx)) (\<lambda>signature.
         io_try (rpc_sendAndConfirm (ctx_rpc ctx) tx)
           (\<lambda>_. io_return signature)
           (\<lambda>e.
            if kit_blockHeightExceeded K e
            then io_throw (ConfidentialTransfersError TRANSACTION_EXPIRED
              (ctx_operation ctx @ '': a transaction was not confirmed before its blockhash expired '' @
               ''(the network may be busy; a priority fee helps). Nothing from it landed; it is safe to run again.'')
              (no_details\<lparr>d_operation := Some (ctx_operation ctx), d_step := Some step,
                 d_cause := Some e\<rparr>))
            else io_bind (logsOf ctx signature) (\<lambda>logs.
              io_throw (ConfidentialTransfersError TRANSACTION_FAILED
                (ctx_operation ctx @ '': transaction '' @ signature @ '' failed: '' @ js_message e)
                (no_details\<lparr>d_operation := Some (ctx_operation ctx), d_step := Some step,
                   d_logs := logs, d_cause := Some e\<rparr>))))))"

definition latestLifetime :: "'w send_context \<Rightarrow> ('w, lifetime) task" where
  "latestLifetime ctx = rpc_getLatestBlockhash (ctx_rpc ctx)"

definition sendInstructions ::
  "'w kit \<Rightarrow> 'w send_context \<Rightarrow> instruction list \<Rightarrow> ('w, signature) task" where
  "sendInstructions K ctx instructions =
     io_bind (latestLifetime ctx) (\<lambda>lifetime.
     io_bind (io_of (withPriorityFee K
       \<lparr>msg_feePayer = ctx_payer ctx, msg_lifetime = Some lifetime, msg_instructions = instructions\<rparr>
       (ctx_computeUnitPrice ctx))) (\<lambda>message.
     io_bind (signTransactionMessagesTogether K [message] lifetime) (\<lambda>transactions.
     simulateAndSend K ctx (transactions ! 0) (ctx_operation ctx))))"

section \<open>Closing proof accounts\<close>

definition CLOSES_PER_TRANSACTION :: nat where "CLOSES_PER_TRANSACTION = 8"

text \<open>The addresses whose account exists and belongs to the proof program.\<close>

definition existingProofAccounts :: "address list \<Rightarrow> address option list \<Rightarrow> address list" where
  "existingProofAccounts addresses value =
     map snd (filter (\<lambda>(i, _). item value i = Some (Some ZK_ELGAMAL_PROOF_PROGRAM_ADDRESS))
       (enumerate 0 addresses))"

definition closeInstruction :: "'w kit \<Rightarrow> signer \<Rightarrow> address \<Rightarrow> instruction" where
  "closeInstruction K payer a = build K (CloseContextState a (sg_address payer) (sg_address payer))"

fun closeBatches ::
  "'w kit \<Rightarrow> 'w send_context \<Rightarrow> address list list \<Rightarrow> address list \<Rightarrow> ('w, address list) task" where
  "closeBatches K cleanupCtx [] closed = io_return closed"
| "closeBatches K cleanupCtx (batch # rest) closed =
     io_try (sendInstructions K cleanupCtx (map (closeInstruction K (ctx_payer cleanupCtx)) batch))
       (\<lambda>_. closeBatches K cleanupCtx rest (closed @ batch))
       (\<lambda>_. closeBatches K cleanupCtx rest closed)"

definition closeProofAccounts ::
  "'w kit \<Rightarrow> 'w send_context \<Rightarrow> address list \<Rightarrow> ('w, proof_accounts) task" where
  "closeProofAccounts K ctx addresses =
     (if addresses = [] then io_return \<lparr>pa_closed = [], pa_leftOpen = []\<rparr>
      else
        io_try (rpc_getMultipleAccounts (ctx_rpc ctx) addresses)
          (\<lambda>value.
           let existing = existingProofAccounts addresses value in
           if existing = [] then io_return \<lparr>pa_closed = [], pa_leftOpen = []\<rparr>
           else
             let cleanupCtx = ctx\<lparr>ctx_operation := ctx_operation ctx @ '' (closing proof accounts)''\<rparr> in
             io_bind (closeBatches K cleanupCtx (batches CLOSES_PER_TRANSACTION existing) [])
               (\<lambda>closed. io_return \<lparr>pa_closed = closed,
                  pa_leftOpen = filter (\<lambda>a. a \<notin> set closed) existing\<rparr>))
          (\<lambda>_. io_return \<lparr>pa_closed = [], pa_leftOpen = addresses\<rparr>))"

definition withCleanupNote :: "string \<Rightarrow> proof_accounts \<Rightarrow> string" where
  "withCleanupNote msg proofAccounts =
     (if pa_leftOpen proofAccounts \<noteq> []
      then msg @ newline @ show_nat (length (pa_leftOpen proofAccounts)) @
        '' proof account(s) could not be closed: '' @ join '', '' (pa_leftOpen proofAccounts) @
        ''. recoverProofAccounts() closes them and returns their rent.''
      else if pa_closed proofAccounts \<noteq> []
      then msg @ newline @ ''The '' @ show_nat (length (pa_closed proofAccounts)) @
        '' proof account(s) created before the failure were closed and their rent returned.''
      else msg)"

section \<open>A proof flow\<close>

record proof_flow_result =
  fr_signatures :: "signature list"
  fr_proofAccountsLeftOpen :: "address list"

text \<open>\<open>findIndex\<close>, with \<open>None\<close> for \<open>-1\<close>.\<close>

fun findIndex :: "('a \<Rightarrow> bool) \<Rightarrow> 'a list \<Rightarrow> nat option" where
  "findIndex p [] = None"
| "findIndex p (x # xs) = (if p x then Some 0 else map_option Suc (findIndex p xs))"

definition stepName :: "nat option \<Rightarrow> string \<Rightarrow> nat \<Rightarrow> string" where
  "stepName actionIndex actionStep i =
     (case actionIndex of
        None \<Rightarrow> ''proofs''
      | Some a \<Rightarrow> if i < a then ''proofs'' else actionStep)"

text \<open>The error a failed step is reported with.\<close>

definition flowError ::
  "string \<Rightarrow> string \<Rightarrow> signature list \<Rightarrow> proof_accounts \<Rightarrow> exn \<Rightarrow> exn" where
  "flowError operation step signatures proofAccounts e =
     (let error = (if isConfidentialTransfersError e None then e
        else ConfidentialTransfersError TRANSACTION_FAILED (operation @ '' failed: '' @ js_string e)
          (no_details\<lparr>d_cause := Some e\<rparr>)) in
      ConfidentialTransfersError (err_code error) (withCleanupNote (err_message error) proofAccounts)
        \<lparr>d_operation = Some operation, d_step = Some step, d_logs = err_logs error,
         d_signatures = Some signatures, d_proofAccounts = Some proofAccounts,
         d_retryable = Some (err_retryable error),
         d_cause = (case err_cause error of Some c \<Rightarrow> Some c | None \<Rightarrow> Some e)\<rparr>)"

text \<open>
  The loop of \<open>executeProofFlow\<close> over the signed transactions, from the \<open>i\<close>-th on, with the
  signatures sent so far. How a transaction is sent and how proof accounts are closed are
  arguments, so that the loop can be reasoned about from their contracts alone.
\<close>

fun runSteps ::
  "(transaction \<Rightarrow> string \<Rightarrow> ('w, signature) task) \<Rightarrow> (address list \<Rightarrow> ('w, proof_accounts) task) \<Rightarrow>
     string \<Rightarrow> address list \<Rightarrow> nat option \<Rightarrow> string \<Rightarrow> nat \<Rightarrow> signature list \<Rightarrow> transaction list \<Rightarrow>
     ('w, proof_flow_result) task" where
  "runSteps send close operation accounts actionIndex actionStep i signatures [] =
     io_return \<lparr>fr_signatures = signatures, fr_proofAccountsLeftOpen = []\<rparr>"
| "runSteps send close operation accounts actionIndex actionStep i signatures (tx # txs) =
     (let step = stepName actionIndex actionStep i in
      io_try (send tx step)
        (\<lambda>s. runSteps send close operation accounts actionIndex actionStep (Suc i)
           (signatures @ [s]) txs)
        (\<lambda>e. let actionLanded = (case actionIndex of None \<Rightarrow> False | Some a \<Rightarrow> a < i) in
           io_bind (close accounts) (\<lambda>proofAccounts.
           if actionLanded
           then io_return \<lparr>fr_signatures = signatures,
             fr_proofAccountsLeftOpen = pa_leftOpen proofAccounts\<rparr>
           else io_throw (flowError operation step signatures proofAccounts e))))"

text \<open>Everything before the first transaction is sent: plan, price and sign.\<close>

definition prepareFlow ::
  "'w kit \<Rightarrow> 'w send_context \<Rightarrow> proof_flow \<Rightarrow> ('w, nat option \<times> transaction list) task" where
  "prepareFlow K ctx flow =
     io_bind (kit_planner K (ctx_payer ctx) (proofFlowToPlan flow)) (\<lambda>planned.
     let actionIndex = findIndex (\<lambda>m. pf_action flow \<in> set (msg_instructions m)) planned in
     io_bind (latestLifetime ctx) (\<lambda>lifetime.
     io_bind (io_of (result_map (\<lambda>m. withPriorityFee K (m\<lparr>msg_lifetime := Some lifetime\<rparr>)
       (ctx_computeUnitPrice ctx)) planned)) (\<lambda>messages.
     io_bind (signTransactionMessagesTogether K messages lifetime) (\<lambda>transactions.
     io_return (actionIndex, transactions)))))"

definition executeProofFlow ::
  "'w kit \<Rightarrow> 'w send_context \<Rightarrow> proof_flow \<Rightarrow> string \<Rightarrow> ('w, proof_flow_result) task" where
  "executeProofFlow K ctx flow actionStep =
     io_bind (prepareFlow K ctx flow) (\<lambda>(actionIndex, transactions).
     runSteps (simulateAndSend K ctx) (closeProofAccounts K ctx) (ctx_operation ctx)
       (pf_proofAccounts flow) actionIndex actionStep 0 [] transactions)"

section \<open>Retries\<close>

text \<open>\<open>n >= r\<close> for the loop counter and any number: never true of \<open>NaN\<close> and \<open>Infinity\<close>.\<close>

fun reached :: "nat \<Rightarrow> js_number \<Rightarrow> bool" where
  "reached n (Dyadic m k) \<longleftrightarrow> m \<le> int n * 2 ^ k"
| "reached n (Infinite positive) \<longleftrightarrow> \<not> positive"
| "reached n NaN \<longleftrightarrow> False"

text \<open>The loop as it is written: not returning is \<open>None\<close>.\<close>

partial_function (option) retryLoop ::
  "js_number \<Rightarrow> ('w, 'a) task \<Rightarrow> nat \<Rightarrow> 'w \<Rightarrow> ((exn + 'a) \<times> 'w) option" where
  "retryLoop retries attempt n w =
     (case attempt w of
        (Inr a, w') \<Rightarrow> Some (Inr a, w')
      | (Inl e, w') \<Rightarrow>
          if reached n retries \<or> \<not> retryable_error e then Some (Inl e, w')
          else retryLoop retries attempt (Suc n) w')"

text \<open>
  For a whole number of retries, as documented, the loop ends, and the operations are modelled
  with this total form of it; \<open>retryLoop_int\<close> relates the two.
\<close>

function withRetriesFrom :: "nat \<Rightarrow> int \<Rightarrow> ('w, 'a) task \<Rightarrow> ('w, 'a) task" where
  "withRetriesFrom n retries attempt =
     io_try attempt io_return
       (\<lambda>e. if retries \<le> int n \<or> \<not> retryable_error e then io_throw e
            else withRetriesFrom (Suc n) retries attempt)"
  by pat_completeness auto
termination
  by (relation "measure (\<lambda>(n, retries, _). nat (retries - int n))") auto

declare withRetriesFrom.simps [simp del]

definition withRetries :: "int option \<Rightarrow> ('w, 'a) task \<Rightarrow> ('w, 'a) task" where
  "withRetries retries = withRetriesFrom 0 (case retries of Some r \<Rightarrow> r | None \<Rightarrow> 0)"

section \<open>Sending one transaction\<close>

lemma logsOf_total: "\<exists>logs w'. logsOf ctx s w = (Inr logs, w')"
  by (cases "rpc_getTransaction (ctx_rpc ctx) s w"; cases "fst (rpc_getTransaction (ctx_rpc ctx) s w)")
    (auto simp: logsOf_def io_catch_def io_bind_def)

lemma simulateAndSend_Inr:
  "simulateAndSend K ctx tx step w = (Inr s, w') \<longleftrightarrow>
     (\<exists>sim w1. rpc_simulateTransaction (ctx_rpc ctx) tx w = (Inr sim, w1) \<and> sim_err sim = None \<and>
        kit_getSignature K tx = Inr s \<and> rpc_sendAndConfirm (ctx_rpc ctx) tx w1 = (Inr (), w'))"
proof -
  have "io_try (rpc_sendAndConfirm (ctx_rpc ctx) tx) (\<lambda>_. io_return s0) (\<lambda>e.
      if kit_blockHeightExceeded K e then io_throw (f e)
      else io_bind (logsOf ctx s0) (\<lambda>logs. io_throw (g e logs))) w1 = (Inr s, w') \<longleftrightarrow>
      rpc_sendAndConfirm (ctx_rpc ctx) tx w1 = (Inr (), w') \<and> s0 = s" for s0 f g w1
    by (auto simp: io_try_def io_elim split: prod.splits sum.splits if_splits)
  then show ?thesis
    unfolding simulateAndSend_def
    by (auto simp: io_elim Let_def split: option.splits)
qed

section \<open>Closing proof accounts\<close>

lemma closeBatches_total:
  "\<exists>sent w'. closeBatches K ctx bs closed w = (Inr (closed @ concat sent), w') \<and> set sent \<subseteq> set bs"
proof (induction bs arbitrary: closed w)
  case Nil
  then show ?case by (auto intro: exI [of _ "[]"])
next
  case (Cons b bs)
  let ?send = "sendInstructions K ctx (map (closeInstruction K (ctx_payer ctx)) b)"
  show ?case
  proof (cases rule: io_outcome_cases [of ?send w])
    case (ok s w1)
    obtain sent w' where "closeBatches K ctx bs (closed @ b) w1 = (Inr ((closed @ b) @ concat sent), w')"
        "set sent \<subseteq> set bs"
      using Cons.IH by blast
    with ok show ?thesis by (intro exI [of _ "b # sent"]) auto
  next
    case (err e w1)
    obtain sent w' where "closeBatches K ctx bs closed w1 = (Inr (closed @ concat sent), w')"
        "set sent \<subseteq> set bs"
      using Cons.IH by blast
    with err show ?thesis by (intro exI [of _ sent]) auto
  qed
qed

lemma closeBatches_all:
  assumes "\<And>ixs w. \<exists>s w'. sendInstructions K ctx ixs w = (Inr s, w')"
  shows "\<exists>w'. closeBatches K ctx bs closed w = (Inr (closed @ concat bs), w')"
proof (induction bs arbitrary: closed w)
  case Nil
  then show ?case by simp
next
  case (Cons b bs)
  obtain s w1 where
      "sendInstructions K ctx (map (closeInstruction K (ctx_payer ctx)) b) w = (Inr s, w1)"
    using assms by blast
  then show ?case using Cons.IH [of "closed @ b" w1] by simp
qed

lemma existing_subset: "set (existingProofAccounts addresses value) \<subseteq> set addresses"
  by (auto simp: existingProofAccounts_def in_set_enumerate_eq)

text \<open>What a closer does: it never throws, and reports each account as closed or as left open.\<close>

lemma closeProofAccounts_outcome:
  "\<exists>p w'. closeProofAccounts K ctx addresses w = (Inr p, w') \<and>
     set (pa_closed p) \<union> set (pa_leftOpen p) \<subseteq> set addresses \<and>
     set (pa_closed p) \<inter> set (pa_leftOpen p) = {}"
proof (cases "addresses = []")
  case True
  then show ?thesis by (simp add: closeProofAccounts_def)
next
  case False
  show ?thesis
  proof (cases rule: io_outcome_cases [of "rpc_getMultipleAccounts (ctx_rpc ctx) addresses" w])
    case (err e w1)
    then show ?thesis using False by (simp add: closeProofAccounts_def)
  next
    case (ok found w1)
    let ?ex = "existingProofAccounts addresses found"
    let ?cctx = "ctx\<lparr>ctx_operation := ctx_operation ctx @ '' (closing proof accounts)''\<rparr>"
    obtain sent w2 where sent:
        "closeBatches K ?cctx (batches CLOSES_PER_TRANSACTION ?ex) [] w1 = (Inr (concat sent), w2)"
        "set sent \<subseteq> set (batches CLOSES_PER_TRANSACTION ?ex)"
      using closeBatches_total [of K ?cctx "batches CLOSES_PER_TRANSACTION ?ex" "[]" w1] by auto
    have "set (concat (batches CLOSES_PER_TRANSACTION ?ex)) = set ?ex"
      by (simp add: concat_batches CLOSES_PER_TRANSACTION_def del: set_concat)
    then have "set (concat sent) \<subseteq> set ?ex" using sent(2) by auto
    then show ?thesis
      using ok False sent(1) existing_subset [of addresses found]
      by (cases "?ex = []") (auto simp: closeProofAccounts_def Let_def)
  qed
qed

section \<open>The contract of a closer, and what the flow gets from it\<close>

locale proof_account_closer =
  fixes close :: "address list \<Rightarrow> ('w, proof_accounts) task"
  assumes close_outcome: "\<exists>p w'. close xs w = (Inr p, w') \<and>
      set (pa_closed p) \<union> set (pa_leftOpen p) \<subseteq> set xs \<and>
      set (pa_closed p) \<inter> set (pa_leftOpen p) = {}"
begin

lemma close_value: "close xs w = (r, w') \<Longrightarrow> \<exists>p. r = Inr p"
  using close_outcome [of xs w] by auto

lemma close_reports:
  "close xs w = (Inr p, w') \<Longrightarrow> set (pa_closed p) \<union> set (pa_leftOpen p) \<subseteq> set xs \<and>
     set (pa_closed p) \<inter> set (pa_leftOpen p) = {}"
  using close_outcome [of xs w] by auto

end

text \<open>With a sender whose value is a signature of the transaction it sent.\<close>

locale proof_flow_services = proof_account_closer close
  for close :: "address list \<Rightarrow> ('w, proof_accounts) task" +
  fixes send :: "transaction \<Rightarrow> string \<Rightarrow> ('w, signature) task"
    and signs :: "transaction \<Rightarrow> signature \<Rightarrow> bool"
  assumes send_signs: "send tx step w = (Inr s, w') \<Longrightarrow> signs tx s"
begin

text \<open>A flow that ends without an error sent everything up to and including the action.\<close>

lemma run_value:
  assumes "runSteps send close operation accounts actionIndex actionStep i sigs txs w = (Inr r, w')"
  shows "\<exists>sent. fr_signatures r = sigs @ sent \<and> length sent \<le> length txs \<and>
     list_all2 signs (take (length sent) txs) sent \<and>
     (if length sent = length txs then fr_proofAccountsLeftOpen r = []
      else (\<exists>a. actionIndex = Some a \<and> a < i + length sent) \<and>
        set (fr_proofAccountsLeftOpen r) \<subseteq> set accounts)"
  using assms
proof (induction txs arbitrary: i sigs w)
  case Nil
  then show ?case by auto
next
  case (Cons tx txs)
  let ?send = "send tx (stepName actionIndex actionStep i)"
  show ?case
  proof (cases rule: io_outcome_cases [of ?send w])
    case (ok s w1)
    with Cons.prems have "runSteps send close operation accounts actionIndex actionStep (Suc i)
        (sigs @ [s]) txs w1 = (Inr r, w')" by (simp add: Let_def)
    from Cons.IH [OF this] obtain sent where "fr_signatures r = (sigs @ [s]) @ sent"
        "length sent \<le> length txs" "list_all2 signs (take (length sent) txs) sent"
        "if length sent = length txs then fr_proofAccountsLeftOpen r = []
         else (\<exists>a. actionIndex = Some a \<and> a < Suc i + length sent) \<and>
           set (fr_proofAccountsLeftOpen r) \<subseteq> set accounts" by blast
    moreover have "signs tx s" using ok by (rule send_signs)
    ultimately show ?thesis by (intro exI [of _ "s # sent"]) auto
  next
    case (err e w1)
    obtain p w2 where "close accounts w1 = (Inr p, w2)" "set (pa_leftOpen p) \<subseteq> set accounts"
      using close_outcome [of accounts w1] by auto
    with Cons.prems err show ?thesis
      by (intro exI [of _ "[]"]) (auto simp: Let_def split: option.splits if_splits)
  qed
qed

text \<open>A flow that fails stopped at or before the action, and its error says what was sent and
  what became of the proof accounts.\<close>

lemma run_error:
  assumes "runSteps send close operation accounts actionIndex actionStep i sigs txs w = (Inl e, w')"
  shows "\<exists>sent p cause. length sent < length txs \<and>
     list_all2 signs (take (length sent) txs) sent \<and>
     e = flowError operation (stepName actionIndex actionStep (i + length sent)) (sigs @ sent) p cause \<and>
     (\<forall>a. actionIndex = Some a \<longrightarrow> i + length sent \<le> a) \<and>
     set (pa_closed p) \<union> set (pa_leftOpen p) \<subseteq> set accounts \<and>
     set (pa_closed p) \<inter> set (pa_leftOpen p) = {}"
  using assms
proof (induction txs arbitrary: i sigs w)
  case Nil
  then show ?case by simp
next
  case (Cons tx txs)
  let ?send = "send tx (stepName actionIndex actionStep i)"
  show ?case
  proof (cases rule: io_outcome_cases [of ?send w])
    case (ok s w1)
    with Cons.prems have "runSteps send close operation accounts actionIndex actionStep (Suc i)
        (sigs @ [s]) txs w1 = (Inl e, w')" by (simp add: Let_def)
    from Cons.IH [OF this] obtain sent p c where "length sent < length txs"
        "list_all2 signs (take (length sent) txs) sent"
        "e = flowError operation (stepName actionIndex actionStep (Suc i + length sent))
           ((sigs @ [s]) @ sent) p c"
        "\<forall>a. actionIndex = Some a \<longrightarrow> Suc i + length sent \<le> a"
        "set (pa_closed p) \<union> set (pa_leftOpen p) \<subseteq> set accounts"
        "set (pa_closed p) \<inter> set (pa_leftOpen p) = {}" by blast
    moreover have "signs tx s" using ok by (rule send_signs)
    ultimately show ?thesis by (intro exI [of _ "s # sent"] exI [of _ p] exI [of _ c]) auto
  next
    case (err e0 w1)
    obtain p w2 where p: "close accounts w1 = (Inr p, w2)"
        "set (pa_closed p) \<union> set (pa_leftOpen p) \<subseteq> set accounts"
        "set (pa_closed p) \<inter> set (pa_leftOpen p) = {}"
      using close_outcome [of accounts w1] by auto
    with Cons.prems err have "e = flowError operation (stepName actionIndex actionStep i) sigs p e0"
        "\<forall>a. actionIndex = Some a \<longrightarrow> i \<le> a"
      by (auto simp: Let_def split: option.splits if_splits)
    with p show ?thesis by (intro exI [of _ "[]"] exI [of _ p] exI [of _ e0]) auto
  qed
qed

end

interpretation closer: proof_account_closer "closeProofAccounts K ctx" for K ctx
  by unfold_locales (rule closeProofAccounts_outcome)

interpretation flow_services:
  proof_flow_services "closeProofAccounts K ctx" "simulateAndSend K ctx"
    "\<lambda>tx s. kit_getSignature K tx = Inr s" for K ctx
  by unfold_locales (auto simp: simulateAndSend_Inr)

lemma findIndex_bound: "findIndex p xs = Some a \<Longrightarrow> a < length xs"
  by (induction xs arbitrary: a) (auto split: if_splits)

lemma findIndex_Some: "findIndex p xs = Some a \<Longrightarrow> p (xs ! a)"
  by (induction xs arbitrary: a) (auto split: if_splits)

lemma findIndex_None: "findIndex p xs = None \<longleftrightarrow> (\<forall>x \<in> set xs. \<not> p x)"
  by (induction xs) (auto split: if_splits)

lemma flowError_fields:
  "isConfidentialTransfersError (flowError operation step sigs p e) None"
  "err_operation (flowError operation step sigs p e) = Some operation"
  "err_step (flowError operation step sigs p e) = Some step"
  "err_signatures (flowError operation step sigs p e) = Some sigs"
  "err_proofAccounts (flowError operation step sigs p e) = Some p"
  "err_code (flowError operation step sigs p e) =
     (if isConfidentialTransfersError e None then err_code e else TRANSACTION_FAILED)"
  "retryable_error (flowError operation step sigs p e) \<longleftrightarrow> retryable_error e"
  by (simp_all add: flowError_def Let_def retryable_constructed retryable_error_def)

section \<open>Retries\<close>

lemma withRetriesFrom_unfold:
  "withRetriesFrom n r attempt w =
     (case attempt w of
        (Inr a, w') \<Rightarrow> (Inr a, w')
      | (Inl e, w') \<Rightarrow>
          if r \<le> int n \<or> \<not> retryable_error e then (Inl e, w')
          else withRetriesFrom (Suc n) r attempt w')"
  by (subst withRetriesFrom.simps) (simp add: io_try_def split: prod.splits sum.splits)

lemma retryLoop_int: "retryLoop (js_int r) attempt n w = Some (withRetriesFrom n r attempt w)"
proof (induction n r attempt arbitrary: w rule: withRetriesFrom.induct)
  case (1 n r attempt)
  then show ?case
    by (subst retryLoop.simps, subst withRetriesFrom_unfold)
      (auto simp: js_int_def split: prod.splits sum.splits)
qed

text \<open>The attempts, counted beside the world.\<close>

definition counted :: "('w, 'a) task \<Rightarrow> ('w \<times> nat, 'a) task" where
  "counted attempt ws = (case attempt (fst ws) of (r, w') \<Rightarrow> (r, (w', Suc (snd ws))))"

lemma counted_retries:
  "withRetriesFrom n r (counted attempt) (w, k) = (res, (w', k')) \<Longrightarrow>
     withRetriesFrom n r attempt w = (res, w') \<and> k < k' \<and> k' \<le> Suc (k + nat (r - int n)) \<and>
     (\<forall>e. res = Inl e \<longrightarrow> retryable_error e \<longrightarrow> k' = Suc (k + nat (r - int n)))"
proof (induction n r "counted attempt" arbitrary: w k rule: withRetriesFrom.induct)
  case (1 n r)
  obtain x w1 where att: "attempt w = (x, w1)" by force
  then have c: "counted attempt (w, k) = (x, (w1, Suc k))" by (simp add: counted_def)
  show ?case
  proof (cases x)
    case (Inr a)
    with "1.prems" att c show ?thesis
      by (auto simp: withRetriesFrom_unfold [of n r])
  next
    case x: (Inl e)
    show ?thesis
    proof (cases "r \<le> int n \<or> \<not> retryable_error e")
      case True
      with "1.prems" att c x show ?thesis
        by (auto simp: withRetriesFrom_unfold [of n r])
    next
      case False
      with "1.prems" c x have "withRetriesFrom (Suc n) r (counted attempt) (w1, Suc k) = (res, (w', k'))"
        by (simp add: withRetriesFrom_unfold [of n r])
      from "1.hyps" [OF False this] False att x show ?thesis
        by (auto simp: withRetriesFrom_unfold [of n r])
    qed
  qed
qed

text \<open>What the retry loop returns is what some attempt returned.\<close>

lemma withRetries_from_attempt:
  "withRetriesFrom n r attempt w = (res, w') \<Longrightarrow> \<exists>w0. attempt w0 = (res, w')"
proof (induction n r attempt arbitrary: w rule: withRetriesFrom.induct)
  case (1 n r attempt)
  obtain x w1 where att: "attempt w = (x, w1)" by force
  with 1 show ?case
    by (cases x) (auto simp: withRetriesFrom_unfold [of n r] split: if_splits)
qed

lemma withRetries_invariant:
  "withRetriesFrom n r attempt w = (res, w') \<Longrightarrow> P w \<Longrightarrow>
     (\<And>w r w'. P w \<Longrightarrow> attempt w = (r, w') \<Longrightarrow> P w') \<Longrightarrow>
     \<exists>w0. P w0 \<and> attempt w0 = (res, w')"
proof (induction n r attempt arbitrary: w rule: withRetriesFrom.induct)
  case (1 n r attempt)
  obtain x w1 where att: "attempt w = (x, w1)" by force
  show ?case
  proof (cases "\<exists>e. x = Inl e \<and> \<not> (r \<le> int n \<or> \<not> retryable_error e)")
    case True
    then obtain e where e: "x = Inl e" "\<not> (r \<le> int n \<or> \<not> retryable_error e)" by blast
    with "1.prems"(1) att have "withRetriesFrom (Suc n) r attempt w1 = (res, w')"
      by (simp add: withRetriesFrom_unfold [of n r])
    from "1.IH" [OF e(2) this "1.prems"(3) [OF "1.prems"(2) att] "1.prems"(3)] show ?thesis .
  next
    case False
    with "1.prems"(1) att have "x = res \<and> w1 = w'"
      by (cases x) (auto simp: withRetriesFrom_unfold [of n r])
    with "1.prems"(2) att show ?thesis by blast
  qed
qed

lemma withRetries_not_repeated:
  "attempt w = (Inl e, w') \<Longrightarrow> \<not> retryable_error e \<Longrightarrow> withRetries r attempt w = (Inl e, w')"
  by (simp add: withRetries_def withRetriesFrom_unfold)

lemma withRetries_first:
  "attempt w = (Inr a, w') \<Longrightarrow> withRetries r attempt w = (Inr a, w')"
  by (simp add: withRetries_def withRetriesFrom_unfold)

lemma withRetries_value:
  "withRetries r attempt w = (res, w') \<Longrightarrow> \<exists>w0. attempt w0 = (res, w')"
  unfolding withRetries_def by (rule withRetries_from_attempt)

text \<open>\<open>NaN\<close> and \<open>Infinity\<close> retries: the loop does not end while attempts expire.\<close>

lemma retryLoop_forever:
  assumes "\<And>n. \<not> reached n r" and "\<And>w. \<exists>e w'. attempt w = (Inl e, w') \<and> retryable_error e"
  shows "retryLoop r attempt n w = None"
proof -
  have "False" if "retryLoop r attempt n w = Some y" for y
    using that assms
  proof (induction rule: retryLoop.raw_induct [rotated, consumes 1])
    case (1 loop r attempt n w y)
    obtain e w' where "attempt w = (Inl e, w')" "retryable_error e" using "1.prems"(2) by blast
    with 1 have "loop r attempt (Suc n) w' = Some (fst y, snd y)" by auto
    then show ?case using "1"(1) "1"(3,4) by blast
  qed
  then show ?thesis by (cases "retryLoop r attempt n w") auto
qed

section \<open>Properties\<close>

lemma prepareFlow_action:
  assumes "prepareFlow K ctx flow w = (Inr (actionIndex, txs), w')"
  shows "\<exists>planned w0. kit_planner K (ctx_payer ctx) (proofFlowToPlan flow) w = (Inr planned, w0) \<and>
     length txs = length planned \<and>
     actionIndex = findIndex (\<lambda>m. pf_action flow \<in> set (msg_instructions m)) planned"
proof -
  obtain planned w0 messages lt w1 w2 where run:
      "kit_planner K (ctx_payer ctx) (proofFlowToPlan flow) w = (Inr planned, w0)"
      "result_map (\<lambda>m. withPriorityFee K (m\<lparr>msg_lifetime := Some lt\<rparr>) (ctx_computeUnitPrice ctx)) planned
        = Inr messages"
      "signTransactionMessagesTogether K messages lt w1 = (Inr txs, w2)"
      "actionIndex = findIndex (\<lambda>m. pf_action flow \<in> set (msg_instructions m)) planned"
    using assms by (auto simp: prepareFlow_def io_elim Let_def)
  have "length txs = length messages"
    using signed_together_length [OF run(3)] .
  then show ?thesis using run result_map_length [OF run(2)] by auto
qed




text \<open>Closing proof accounts never throws; it reports accounts it was given, none of them both
  as closed and as left open.\<close>

theorem closing_never_throws:
  "\<exists>p w'. closeProofAccounts K ctx addresses w = (Inr p, w') \<and>
     set (pa_closed p) \<union> set (pa_leftOpen p) \<subseteq> set addresses \<and>
     set (pa_closed p) \<inter> set (pa_leftOpen p) = {}"
  by (rule closer.close_outcome)


text \<open>C14: With a whole number of retries the retry loop ends, after at least one attempt and at
  most one more than the retries; what it throws after fewer is not retryable.\<close>

theorem retries_bounded:
  "\<exists>res w' k. retryLoop (js_int r) (counted attempt) 0 (w, 0) = Some (res, (w', k)) \<and>
     withRetries (Some r) attempt w = (res, w') \<and> 1 \<le> k \<and> k \<le> Suc (nat r) \<and>
     (\<forall>e. res = Inl e \<longrightarrow> retryable_error e \<longrightarrow> k = Suc (nat r))"
proof -
  obtain res w' k where run: "withRetriesFrom 0 r (counted attempt) (w, 0) = (res, (w', k))"
    by (metis prod.exhaust)
  then show ?thesis
    using counted_retries [OF run] by (auto simp: retryLoop_int withRetries_def)
qed

text \<open>C18: With \<open>NaN\<close> or \<open>Infinity\<close> retries the loop does not end while every attempt expires.\<close>

theorem unbounded_retries_diverge:
  assumes "r = NaN \<or> r = Infinite True"
    and "\<And>w. \<exists>e w'. attempt w = (Inl e, w') \<and> retryable_error e"
  shows "retryLoop r attempt 0 w = None"
  by (rule retryLoop_forever) (use assms in auto)

subsection \<open>Witnesses\<close>

definition toy_ctx :: "nat option \<Rightarrow> exn \<Rightarrow> nat send_context" where
  "toy_ctx fail_at e = \<lparr>ctx_rpc = toy_rpc fail_at e, ctx_payer = signer_named ''payer'',
     ctx_operation = ''transfer'', ctx_computeUnitPrice = None\<rparr>"

definition toy_tx :: transaction where
  "toy_tx = \<lparr>tx_messageBytes = [115], tx_signatures = [(''payer'', Some [1])],
     tx_lifetime = Some some_lifetime\<rparr>"


lemma toy_prepare:
  "prepareFlow toy_kit (toy_ctx fail_at e) sample_flow w = (Inr (Some 1, [toy_tx, toy_tx, toy_tx]), w)"
  by code_simp



lemma toy_sends: "sendInstructions toy_kit (toy_ctx None e) ixs w = (Inr ''sig'', Suc w)"
  by code_simp

lemma toy_sends_renamed:
  "sendInstructions toy_kit ((toy_ctx None e)\<lparr>ctx_operation := p\<rparr>) ixs w = (Inr ''sig'', Suc w)"
  by code_simp


definition always_expired :: "(nat, unit) task" where
  "always_expired = io_throw (bare_error TRANSACTION_EXPIRED ''expired'')"

theorem retries_bounded_witness:
  "\<exists>e. retryLoop (js_int 2) (counted always_expired) 0 (0, 0) = Some (Inl e, (0, 3))"
proof -
  have "withRetries (Some 2) always_expired 0 = (Inl (bare_error TRANSACTION_EXPIRED ''expired''), 0)"
    by (simp add: withRetries_def withRetriesFrom_unfold always_expired_def)
  then show ?thesis
    using retries_bounded [of 2 always_expired 0] by auto
qed

theorem unbounded_retries_diverge_witness: "retryLoop NaN always_expired 0 (0::nat) = None"
  by (rule unbounded_retries_diverge) (simp_all add: always_expired_def)

end
