(* ===== verification/Keys.thy ===== *)
theory Keys
  imports Proof_Flow
begin

text \<open>
  Where the confidential keys come from: \<open>src/src/keys.ts\<close>, \<open>src/src/internal/ownerKeys.ts\<close> and
  the Node flavour \<open>src/src/internal/zk.ts\<close>, whose \<open>ensureZk\<close> and \<open>assertZkReady\<close> do nothing
  (the browser's loader is the theory \<open>Zk_Web\<close>). Key expansion from a signature is the zk-sdk's.
\<close>

section \<open>The Node flavour of the zk-sdk loader\<close>

definition initConfidentialTransfers :: "('w, unit) task" where
  "initConfidentialTransfers = io_return ()"

definition ensureZk :: "('w, unit) task" where
  "ensureZk = io_return ()"

definition assertZkReady :: "string \<Rightarrow> exn + unit" where
  "assertZkReady what = Inr ()"

section \<open>Deriving keys from a message signature\<close>

definition sameBytes :: "bytes option \<Rightarrow> bytes \<Rightarrow> bool" where
  "sameBytes a b =
     (case a of
        None \<Rightarrow> False
      | Some xs \<Rightarrow> if length xs \<noteq> length b then False else list_all (\<lambda>(x, y). x = y) (zip xs b))"

definition signDerivationMessage :: "'w kit \<Rightarrow> signer \<Rightarrow> bytes \<Rightarrow> ('w, bytes) task" where
  "signDerivationMessage K signer msg =
     io_bind
       (if sg_messagePartial signer then kit_signMessages K signer msg
        else if sg_messageModifying signer
        then io_bind (kit_modifyAndSignMessages K signer msg) (\<lambda>modified.
          if \<not> sameBytes (map_option fst modified) msg
          then io_throw (bare_error BAD_MESSAGE_SIGNATURE
            (''Wallet '' @ sg_address signer @ '' changed the message it was asked to sign, so the confidential '' @
             ''keys would not match the standard derivation. Use a wallet that signs messages as given.''))
          else io_return (map_option snd modified))
        else io_throw (bare_error CANNOT_SIGN_MESSAGES
          (''Signer '' @ sg_address signer @ '' cannot sign messages, and the '' @
           ''confidential keys come from a message signature. With a browser wallet, use one that '' @
           ''supports signMessage (Wallet Standard `solana:signMessage`).'')))
       (\<lambda>dictionary.
     case Option.bind dictionary (\<lambda>d. map_of d (sg_address signer)) of
       None \<Rightarrow> io_throw (bare_error BAD_MESSAGE_SIGNATURE
         (''Signer '' @ sg_address signer @ '' did not return a signature''))
     | Some signature \<Rightarrow>
         io_bind (io_of (kit_encodeAddress K (sg_address signer))) (\<lambda>publicKey.
         io_bind (io_of (kit_ed25519Verify K signature msg publicKey)) (\<lambda>valid.
         if \<not> valid
         then io_throw (bare_error BAD_MESSAGE_SIGNATURE
           (''Signer '' @ sg_address signer @ '' returned a signature that does not verify against its address''))
         else io_return signature)))"

definition confidentialKeysFrom :: "'w kit \<Rightarrow> 'w zk \<Rightarrow> signer \<Rightarrow> bytes \<Rightarrow> ('w, keypairs) task" where
  "confidentialKeysFrom K Z signer msg =
     io_bind ensureZk (\<lambda>_.
     io_bind (signDerivationMessage K signer msg) (\<lambda>signature.
     io_of (zk_keysFromSignature Z signature)))"

definition deriveConfidentialKeys :: "'w kit \<Rightarrow> 'w zk \<Rightarrow> signer \<Rightarrow> ('w, keypairs) task" where
  "deriveConfidentialKeys K Z signer =
     io_bind ensureZk (\<lambda>_. confidentialKeysFrom K Z signer (zk_signerMessage Z))"

definition deriveConfidentialKeysWithSeed ::
  "'w kit \<Rightarrow> 'w zk \<Rightarrow> signer \<Rightarrow> bytes \<Rightarrow> ('w, keypairs) task" where
  "deriveConfidentialKeysWithSeed K Z signer publicSeed =
     io_bind ensureZk (\<lambda>_.
     io_bind (io_of (zk_signerMessageWithSeed Z publicSeed)) (\<lambda>msg.
     confidentialKeysFrom K Z signer msg))"

definition pdaWalletPublicSeed ::
  "'w kit \<Rightarrow> 'w zk \<Rightarrow> address \<Rightarrow> address \<Rightarrow> address \<Rightarrow> address \<Rightarrow> exn + bytes" where
  "pdaWalletPublicSeed K Z programId walletPda mintAddress tokenAccount =
     result_bind (assertZkReady ''pdaWalletPublicSeed'') (\<lambda>_.
     result_bind (kit_encodeAddress K programId) (\<lambda>p.
     result_bind (kit_encodeAddress K walletPda) (\<lambda>w.
     result_bind (kit_encodeAddress K mintAddress) (\<lambda>m.
     result_bind (kit_encodeAddress K tokenAccount) (\<lambda>t.
     zk_pdaWalletPublicSeed Z p w m t)))))"

definition getElGamalPubkeyAddress :: "'w kit \<Rightarrow> elgamal_keypair \<Rightarrow> exn + address" where
  "getElGamalPubkeyAddress K keypair =
     result_bind (assertZkReady ''getElGamalPubkeyAddress'') (\<lambda>_.
     kit_decodeAddress K (kp_pubkey keypair))"

definition deriveElGamalKeypair :: "'w kit \<Rightarrow> 'w zk \<Rightarrow> signer \<Rightarrow> ('w, address \<times> bytes) task" where
  "deriveElGamalKeypair K Z signer =
     io_bind (deriveConfidentialKeys K Z signer) (\<lambda>keys.
     io_bind (io_of (getElGamalPubkeyAddress K (elgamalKeypair keys))) (\<lambda>pubkey.
     io_return (pubkey, kp_secret (elgamalKeypair keys))))"

definition deriveAeKey :: "'w kit \<Rightarrow> 'w zk \<Rightarrow> signer \<Rightarrow> ('w, bytes) task" where
  "deriveAeKey K Z signer =
     io_bind (deriveConfidentialKeys K Z signer) (\<lambda>keys. io_return (aesKey keys))"

section \<open>The owner's keys in an operation\<close>

definition ownerKeys ::
  "'w kit \<Rightarrow> 'w zk \<Rightarrow> signer \<Rightarrow> keypairs option \<Rightarrow> string \<Rightarrow> ('w, keypairs) task" where
  "ownerKeys K Z owner keys operation =
     io_bind ensureZk (\<lambda>_.
     case keys of
       Some k \<Rightarrow> io_return k
     | None \<Rightarrow>
         if \<not> isMessageSigner owner
         then io_throw (sdk_error CANNOT_SIGN_MESSAGES operation
           (operation @ '': the owner '' @ sg_address owner @
            '' cannot sign messages, and no `keys` were passed. '' @
            ''The confidential keys come from the owner's signature over a fixed message, so either use '' @
            ''a signer that can sign messages (a wallet with signMessage, or a keypair signer), or '' @
            ''derive the keys once with deriveConfidentialKeys({ signer }) and pass them as `keys`.''))
         else deriveConfidentialKeys K Z owner)"

definition assertKeysMatchAccount ::
  "'w kit \<Rightarrow> keypairs \<Rightarrow> token \<Rightarrow> address \<Rightarrow> string \<Rightarrow> exn + unit" where
  "assertKeysMatchAccount K keys account tokenAddress operation =
     (case tk_extensions account of
        None \<Rightarrow> Inr ()
      | Some extensions \<Rightarrow>
          (case find_map ct_account_of extensions of
             None \<Rightarrow> Inr ()
           | Some ct \<Rightarrow>
               result_bind (getElGamalPubkeyAddress K (elgamalKeypair keys)) (\<lambda>ours.
               if ours \<noteq> elgamalPubkey ct
               then Inl (sdk_error KEYS_MISMATCH operation
                 (operation @ '': these confidential keys (ElGamal public key '' @ ours @
                  '') are not the keys token '' @ ''account '' @ tokenAddress @
                  '' is configured with ('' @ elgamalPubkey ct @
                  ''). Derive them from the account '' @ ''owner's wallet.''))
               else Inr ())))"

section \<open>Facts\<close>

lemma sameBytes_eq: "sameBytes (Some xs) b \<longleftrightarrow> xs = b"
  using list_all2_iff [of "(=)" xs b] by (auto simp: sameBytes_def list.rel_eq list_all_iff)

lemma assertKeys_Inr:
  "confidentialState account = Some ct \<Longrightarrow>
     assertKeysMatchAccount K keys account t op = Inr u \<longleftrightarrow>
       kit_decodeAddress K (kp_pubkey (elgamalKeypair keys)) = Inr (elgamalPubkey ct)"
  by (auto simp: assertKeysMatchAccount_def confidentialState_def getElGamalPubkeyAddress_def
      assertZkReady_def io_elim split: option.splits)

lemma signDerivationMessage_Inr:
  assumes "signDerivationMessage K signer msg w = (Inr sig, w')"
  shows "isMessageSigner signer \<and> (\<exists>pk. kit_encodeAddress K (sg_address signer) = Inr pk \<and>
     kit_ed25519Verify K sig msg pk = Inr True)"
  using assms
  by (auto simp: signDerivationMessage_def isMessageSigner_def io_elim split: if_splits option.splits)

text \<open>
  What the operations rely on: a source of keys whose value is the key pair the caller passed, or
  one that was derived; it never asks when keys were passed.
\<close>

locale key_source =
  fixes derive :: "('w, keypairs) task"
    and keysFor :: "keypairs option \<Rightarrow> ('w, keypairs) task"
  assumes given: "keysFor (Some k) w = (Inr k, w)"
    and derived: "keysFor None w = (Inr k, w') \<Longrightarrow> derive w = (Inr k, w')"
begin

text \<open>\<open>keys ??= await ...\<close>: a second use of the same variable costs nothing.\<close>

lemma cached:
  assumes "keysFor ks w = (Inr k, w')"
  shows "keysFor (Some k) w'' = (Inr k, w'')" "ks = Some k' \<Longrightarrow> k = k' \<and> w' = w"
    "ks = None \<Longrightarrow> derive w = (Inr k, w')"
  using assms given derived by auto

end

interpretation owner_keys:
  key_source "deriveConfidentialKeys K Z owner" "\<lambda>ks. ownerKeys K Z owner ks operation"
  for K Z owner operation
  by unfold_locales (auto simp: ownerKeys_def ensureZk_def io_elim split: if_splits)

section \<open>Properties\<close>

text \<open>C21: Derived keys come from a signature over exactly the standard message that verifies
  against the signer's address; the signer could sign messages.\<close>

theorem derived_keys_verified:
  assumes "deriveConfidentialKeys K Z signer w = (Inr keys, w')"
  shows "isMessageSigner signer \<and> (\<exists>sig pk. kit_encodeAddress K (sg_address signer) = Inr pk \<and>
     kit_ed25519Verify K sig (zk_signerMessage Z) pk = Inr True \<and> zk_keysFromSignature Z sig = Inr keys)"
  using assms signDerivationMessage_Inr
  by (fastforce simp: deriveConfidentialKeys_def confidentialKeysFrom_def ensureZk_def io_elim)

theorem derived_keys_verified_witness:
  "isMessageSigner (signer_named ''alice'') \<and>
   (\<exists>sig pk. kit_encodeAddress toy_kit (sg_address (signer_named ''alice'')) = Inr pk \<and>
     kit_ed25519Verify toy_kit sig (zk_signerMessage (toy_zk :: nat zk)) pk = Inr True \<and>
     zk_keysFromSignature (toy_zk :: nat zk) sig = Inr \<lparr>elgamalKeypair = some_keypair, aesKey = [1]\<rparr>)"
proof (rule derived_keys_verified)
  show "deriveConfidentialKeys toy_kit toy_zk (signer_named ''alice'') 0 =
      (Inr \<lparr>elgamalKeypair = some_keypair, aesKey = [1]\<rparr>, 0)"
    by code_simp
qed

text \<open>A wallet that changed the message, returned no signature of its address, or one that does
  not verify, is refused with BAD_MESSAGE_SIGNATURE: no keys are derived from it.\<close>

theorem bad_signature_refused:
  assumes "\<not> sg_messagePartial signer" and "sg_messageModifying signer"
    and "kit_modifyAndSignMessages K signer msg w = (Inr modified, w')"
    and "kit_encodeAddress K (sg_address signer) = Inr pk"
    and "\<And>sig. kit_ed25519Verify K sig msg pk = Inr (good sig)"
    and "case modified of None \<Rightarrow> True
       | Some (content, d) \<Rightarrow> content \<noteq> msg \<or>
           (case map_of d (sg_address signer) of None \<Rightarrow> True | Some sig \<Rightarrow> \<not> good sig)"
  shows "\<exists>e. signDerivationMessage K signer msg w = (Inl e, w') \<and> has_code BAD_MESSAGE_SIGNATURE e"
proof (cases modified)
  case None
  with assms(1-3) show ?thesis by (simp add: signDerivationMessage_def sameBytes_def)
next
  case (Some p)
  obtain content d where p: "p = (content, d)" by force
  show ?thesis
  proof (cases "content = msg")
    case False
    with assms(1-3) Some p show ?thesis by (simp add: signDerivationMessage_def sameBytes_eq)
  next
    case True
    with assms Some p show ?thesis
      by (auto simp: signDerivationMessage_def sameBytes_eq split: option.splits)
  qed
qed

theorem bad_signature_refused_witness:
  "\<exists>e. signDerivationMessage (toy_kit\<lparr>kit_modifyAndSignMessages :=
       (\<lambda>s m. io_return (Some (0 # m, [(sg_address s, [1, 2])])))\<rparr>) (wallet_named ''alice'') [115] 0 = (Inl e, 0) \<and>
     has_code BAD_MESSAGE_SIGNATURE e"
  by (rule bad_signature_refused [where good = "\<lambda>sig. sig = [1, 2]"])
    (auto simp: toy_kit_def idle_kit_def wallet_named_def)

text \<open>For a configured account the key check passes exactly when the account's ElGamal key is
  that of the given keys; otherwise the operation is refused with KEYS_MISMATCH.\<close>

theorem keys_match_checked:
  assumes "confidentialState account = Some ct"
    and "kit_decodeAddress K (kp_pubkey (elgamalKeypair keys)) = Inr ours"
  shows "if ours = elgamalPubkey ct then assertKeysMatchAccount K keys account t operation = Inr ()
     else \<exists>e. assertKeysMatchAccount K keys account t operation = Inl e \<and>
       refused_with KEYS_MISMATCH operation e"
  using assms
  by (auto simp: assertKeysMatchAccount_def confidentialState_def getElGamalPubkeyAddress_def
      assertZkReady_def split: option.splits)

theorem keys_match_checked_witness:
  "assertKeysMatchAccount toy_kit \<lparr>elgamalKeypair = some_keypair, aesKey = [1]\<rparr> (token_with 0 5) ''t'' ''op'' = Inr ()"
proof -
  have "kit_decodeAddress toy_kit (kp_pubkey some_keypair) = Inr ''k''"
    by code_simp
  then show ?thesis
    using keys_match_checked [of "token_with 0 5" "ct_with 5" toy_kit
        "\<lparr>elgamalKeypair = some_keypair, aesKey = [1]\<rparr>" "''k''" "''t''" "''op''"]
    by (simp add: ct_with_def)
qed

end
