(* ===== verification/Operations.thy ===== *)
theory Operations
  imports Send Keys
begin

text \<open>
  The operations that send one transaction or none: \<open>deposit.ts\<close>, \<open>applyPendingBalance.ts\<close>,
  \<open>configureAccount.ts\<close>, \<open>decryptBalance.ts\<close> and \<open>recoverProofAccounts.ts\<close> under \<open>src/src/\<close>.
  The captured variable \<open>keys\<close> of an operation lives beside the world while its attempts run.
\<close>

section \<open>What the operations share\<close>

record 'w operation_input =
  in_rpc :: "'w rpc"
  in_payer :: signer
  in_owner :: signer
  in_mint :: address
  in_token :: "address option"
  in_keys :: "keypairs option"
  in_programAddress :: "address option"
  in_computeUnitPrice :: "numeric option"
  in_retries :: "int option"

definition programOf :: "('w, 'z) operation_input_scheme \<Rightarrow> address" where
  "programOf input =
     (case in_programAddress input of Some p \<Rightarrow> p | None \<Rightarrow> TOKEN_2022_PROGRAM_ADDRESS)"

definition sendContext :: "('w, 'z) operation_input_scheme \<Rightarrow> string \<Rightarrow> 'w send_context" where
  "sendContext input operation =
     \<lparr>ctx_rpc = in_rpc input, ctx_payer = in_payer input, ctx_operation = operation,
      ctx_computeUnitPrice = in_computeUnitPrice input\<rparr>"

text \<open>The token account given, or the owner's associated one.\<close>

definition tokenOf :: "'w kit \<Rightarrow> ('w, 'z) operation_input_scheme \<Rightarrow> exn + address" where
  "tokenOf K input =
     (case in_token input of
        Some t \<Rightarrow> Inr t
      | None \<Rightarrow> kit_findAssociatedTokenPda K (sg_address (in_owner input)) (programOf input) (in_mint input))"

text \<open>\<open>keys ??= await ownerKeys(...)\<close> on the captured variable.\<close>

definition cachedKeys ::
  "('w, keypairs) task \<Rightarrow> ('w \<times> keypairs option, keypairs) task" where
  "cachedKeys derive =
     io_bind io_get (\<lambda>keys.
     case keys of
       Some k \<Rightarrow> io_return k
     | None \<Rightarrow>
         io_bind (io_local derive) (\<lambda>k.
         io_bind (io_put (Some k)) (\<lambda>_. io_return k)))"

text \<open>Retrying attempts that share the captured variable, which starts as the keys passed.\<close>

definition withCapturedKeys ::
  "int option \<Rightarrow> keypairs option \<Rightarrow> ('w \<times> keypairs option, 'a) task \<Rightarrow> ('w, 'a) task" where
  "withCapturedKeys retries keys attempt w =
     (case withRetries retries attempt (w, keys) of (r, (w', _)) \<Rightarrow> (r, w'))"

section \<open>deposit\<close>

record 'w deposit_input = "'w operation_input" +
  di_amount :: numeric
  di_decimals :: nat

definition depositAttempt ::
  "'w kit \<Rightarrow> 'w deposit_input \<Rightarrow> address \<Rightarrow> int \<Rightarrow> ('w, signature) task" where
  "depositAttempt K input t amount =
     io_bind (readConfiguredAccount (in_rpc input) t ''deposit'' ''your'') (\<lambda>(data, ct).
     if tk_amount data < amount
     then io_throw (sdk_error INSUFFICIENT_FUNDS ''deposit''
       (''deposit: the public balance of '' @ t @ '' is '' @ show_int (tk_amount data) @
        '', less than '' @ show_int amount @ ''.''))
     else
       io_bind (io_of (assertCanReceive ct t ''deposit'' Your)) (\<lambda>_.
       sendInstructions K (sendContext input ''deposit'')
         [build K (ConfidentialDeposit t (in_mint input) (sg_address (in_owner input)) amount
           (di_decimals input) (programOf input))]))"

definition deposit :: "'w kit \<Rightarrow> 'w deposit_input \<Rightarrow> ('w, address \<times> signature) task" where
  "deposit K input =
     io_bind (io_of (toBigInt (di_amount input))) (\<lambda>amount.
     if amount \<le> 0
     then io_throw (sdk_error INVALID_INPUT ''deposit''
       (''deposit: the amount must be greater than zero, got '' @ show_int amount @ ''.''))
     else if MAX_DEPOSIT_OR_TRANSFER_AMOUNT < amount
     then io_throw (sdk_error AMOUNT_TOO_LARGE ''deposit''
       (''deposit: '' @ show_int amount @ '' is more than one deposit can carry ('' @
        show_int MAX_DEPOSIT_OR_TRANSFER_AMOUNT @ '', 2^48 - 1). Split it.''))
     else
       io_bind (io_of (tokenOf K input)) (\<lambda>t.
       io_bind (withRetries (in_retries input) (depositAttempt K input t amount)) (\<lambda>signature.
       io_return (t, signature))))"

section \<open>applyPendingBalance\<close>

definition PENDING_BALANCE_LO_BIT_LENGTH :: int where "PENDING_BALANCE_LO_BIT_LENGTH = 16"

definition decryptPart :: "string \<Rightarrow> address \<Rightarrow> string \<Rightarrow> exn + int \<Rightarrow> exn + int" where
  "decryptPart operation t what r =
     (case r of
        Inr v \<Rightarrow> Inr v
      | Inl e \<Rightarrow> Inl (sdk_error_with_cause DECRYPTION_FAILED operation
          (operation @ '': could not decrypt the '' @ what @ '' of '' @ t @ ''. '' @
           (if what = ''pending balance (high part)''
            then ''Incoming amounts add up to more than can be decrypted at once (about 2^48 base units); '' @
              ''the pending balance cannot be applied with this SDK. ''
            else '''') @ js_string e) e))"

definition parseElGamal :: "'w zk \<Rightarrow> string \<Rightarrow> bytes \<Rightarrow> exn + bytes" where
  "parseElGamal Z operation bs =
     (case zk_elgamalFromBytes Z bs of
        None \<Rightarrow> Inl (sdk_error DECRYPTION_FAILED operation
          (operation @ '': failed to parse an ElGamal ciphertext''))
      | Some c \<Rightarrow> Inr c)"

definition parseAe :: "'w zk \<Rightarrow> string \<Rightarrow> bytes \<Rightarrow> exn + bytes" where
  "parseAe Z operation bs =
     (case zk_aeFromBytes Z bs of
        None \<Rightarrow> Inl (sdk_error DECRYPTION_FAILED operation
          (operation @ '': failed to parse an AES ciphertext''))
      | Some c \<Rightarrow> Inr c)"

text \<open>The balance after applying, from the account state read in this attempt.\<close>

definition appliedBalance :: "'w zk \<Rightarrow> keypairs \<Rightarrow> ct_account \<Rightarrow> address \<Rightarrow> exn + int" where
  "appliedBalance Z keys ct t =
     (let operation = ''applyPendingBalance''; secret = kp_secret (elgamalKeypair keys) in
      result_bind (decryptPart operation t ''pending balance (low part)''
        (result_bind (parseElGamal Z operation (pendingBalanceLow ct)) (zk_elgamalDecrypt Z secret)))
        (\<lambda>pendingLo.
      result_bind (decryptPart operation t ''pending balance (high part)''
        (result_bind (parseElGamal Z operation (pendingBalanceHigh ct)) (zk_elgamalDecrypt Z secret)))
        (\<lambda>pendingHi.
      result_bind (decryptPart operation t ''available balance''
        (result_bind (parseAe Z operation (decryptableAvailableBalance ct)) (zk_aeDecrypt Z (aesKey keys))))
        (\<lambda>currentAvailable.
      Inr (currentAvailable + (bigint_shl pendingHi PENDING_BALANCE_LO_BIT_LENGTH + pendingLo))))))"

definition applyAttempt ::
  "'w kit \<Rightarrow> 'w zk \<Rightarrow> ('w, 'z) operation_input_scheme \<Rightarrow> address \<Rightarrow> ('w \<times> keypairs option, signature) task"
where
  "applyAttempt K Z input t =
     (let operation = ''applyPendingBalance'' in
      io_bind (io_local (readConfiguredAccount (in_rpc input) t operation ''your'')) (\<lambda>(data, ct).
      io_bind (cachedKeys (ownerKeys K Z (in_owner input) None operation)) (\<lambda>keys.
      io_bind (io_of (assertKeysMatchAccount K keys data t operation)) (\<lambda>_.
      io_bind (io_of (appliedBalance Z keys ct t)) (\<lambda>newAvailable.
      io_bind (io_local (zk_aeEncrypt Z (aesKey keys) newAvailable)) (\<lambda>encrypted.
      io_local (sendInstructions K (sendContext input operation)
        [build K (ApplyConfidentialPendingBalance t (sg_address (in_owner input))
          (pendingBalanceCreditCounter ct) encrypted (programOf input))])))))))"

definition applyPendingBalance ::
  "'w kit \<Rightarrow> 'w zk \<Rightarrow> 'w operation_input \<Rightarrow> ('w, address \<times> signature) task" where
  "applyPendingBalance K Z input =
     io_bind (io_of (tokenOf K input)) (\<lambda>t.
     io_bind (withCapturedKeys (in_retries input) (in_keys input) (applyAttempt K Z input t))
       (\<lambda>signature. io_return (t, signature)))"

section \<open>configureAccount\<close>

record 'w configure_input = "'w operation_input" +
  ci_maximumPendingBalanceCreditCounter :: "numeric option"

record configure_result =
  cr_token :: address
  cr_keys :: keypairs
  cr_signature :: signature

definition DEFAULT_MAXIMUM_PENDING_BALANCE_CREDIT_COUNTER :: int where
  "DEFAULT_MAXIMUM_PENDING_BALANCE_CREDIT_COUNTER = bigint_shl 1 16"

definition configureInstructions ::
  "'w kit \<Rightarrow> 'w configure_input \<Rightarrow> address \<Rightarrow> bytes \<Rightarrow> instruction \<Rightarrow> instruction list" where
  "configureInstructions K input t zeroBalance verifyProofInstruction =
     [build K (CreateAssociatedTokenIdempotent t (in_mint input) (sg_address (in_owner input))
        (sg_address (in_payer input)) (programOf input)),
      build K (Reallocate t (sg_address (in_payer input)) (sg_address (in_owner input))
        [''ConfidentialTransferAccount''] (programOf input)),
      build K (ConfigureConfidentialTransferAccount
        \<lparr>ca_token = t, ca_mint = in_mint input, ca_authority = sg_address (in_owner input),
         ca_decryptableZeroBalance = zeroBalance,
         ca_maximumPendingBalanceCreditCounter =
           (case ci_maximumPendingBalanceCreditCounter input of
              Some m \<Rightarrow> m | None \<Rightarrow> BigInt_v DEFAULT_MAXIMUM_PENDING_BALANCE_CREDIT_COUNTER),
         ca_proofInstructionOffset = 1\<rparr> (programOf input)),
      verifyProofInstruction]"

text \<open>A verify client that returned no instruction leaves an \<open>undefined\<close> in the list, on which
  compiling the message throws.\<close>

definition configureAttempt ::
  "'w kit \<Rightarrow> 'w zk \<Rightarrow> 'w configure_input \<Rightarrow> address \<Rightarrow> keypairs \<Rightarrow> ('w, signature) task" where
  "configureAttempt K Z input t keys =
     io_bind (zk_pubkeyValidityProof Z (elgamalKeypair keys)) (\<lambda>proofData.
     io_bind (kit_verifyProof K PubkeyValidity (sg_address (in_payer input)) proofData None) (\<lambda>ixs.
     io_bind (zk_aeEncrypt Z (aesKey keys) 0) (\<lambda>zeroBalance.
     case ixs of
       [] \<Rightarrow> io_throw (Js_Error ''TypeError'' ''Cannot read properties of undefined'')
     | verifyProofInstruction # _ \<Rightarrow>
         sendInstructions K (sendContext input ''configureAccount'')
           (configureInstructions K input t zeroBalance verifyProofInstruction))))"

definition configureAccount ::
  "'w kit \<Rightarrow> 'w zk \<Rightarrow> 'w configure_input \<Rightarrow> ('w, configure_result) task" where
  "configureAccount K Z input =
     io_bind (io_of (kit_findAssociatedTokenPda K (sg_address (in_owner input)) (programOf input)
       (in_mint input))) (\<lambda>t.
     io_bind (rpc_fetchMaybeToken (in_rpc input) t) (\<lambda>existing.
     if Option.bind existing confidentialState \<noteq> None
     then io_throw (sdk_error ACCOUNT_ALREADY_CONFIGURED ''configureAccount''
       (''configureAccount: token account '' @ t @ '' is already configured for confidential transfers.''))
     else
       io_bind (ownerKeys K Z (in_owner input) (in_keys input) ''configureAccount'') (\<lambda>keys.
       io_bind (withRetries (in_retries input) (configureAttempt K Z input t keys)) (\<lambda>signature.
       io_return \<lparr>cr_token = t, cr_keys = keys, cr_signature = signature\<rparr>))))"

section \<open>decryptBalance\<close>

definition decryptBalance :: "'w kit \<Rightarrow> 'w zk \<Rightarrow> 'w operation_input \<Rightarrow> ('w, int) task" where
  "decryptBalance K Z input =
     io_bind (io_of (tokenOf K input)) (\<lambda>t.
     io_bind (readConfiguredAccount (in_rpc input) t ''decryptBalance'' ''the'') (\<lambda>(data, ct).
     io_bind (ownerKeys K Z (in_owner input) (in_keys input) ''decryptBalance'') (\<lambda>keys.
     io_bind (io_of (assertKeysMatchAccount K keys data t ''decryptBalance'')) (\<lambda>_.
     case zk_aeFromBytes Z (decryptableAvailableBalance ct) of
       None \<Rightarrow> io_throw (sdk_error DECRYPTION_FAILED ''decryptBalance''
         ''decryptBalance: failed to parse the decryptable available balance'')
     | Some ciphertext \<Rightarrow>
         (case zk_aeDecrypt Z (aesKey keys) ciphertext of
            Inr v \<Rightarrow> io_return v
          | Inl e \<Rightarrow> io_throw (sdk_error_with_cause DECRYPTION_FAILED ''decryptBalance''
              (''decryptBalance: could not decrypt the available balance of '' @ t @ '': '' @ js_string e) e))))))"

section \<open>recoverProofAccounts\<close>

record 'w recover_input =
  ri_rpc :: "'w rpc"
  ri_authority :: signer
  ri_computeUnitPrice :: "numeric option"

record recover_result =
  rr_closed :: "address list"
  rr_leftOpen :: "address list"
  rr_lamports :: int

definition recoverProofAccounts ::
  "'w kit \<Rightarrow> 'w recover_input \<Rightarrow> ('w, recover_result) task" where
  "recoverProofAccounts K input =
     io_bind (rpc_getProgramAccounts (ri_rpc input) ZK_ELGAMAL_PROOF_PROGRAM_ADDRESS
       (sg_address (ri_authority input))) (\<lambda>accounts.
     io_bind (closeProofAccounts K
       \<lparr>ctx_rpc = ri_rpc input, ctx_payer = ri_authority input,
        ctx_operation = ''recoverProofAccounts'', ctx_computeUnitPrice = ri_computeUnitPrice input\<rparr>
       (map fst accounts)) (\<lambda>p.
     io_return \<lparr>rr_closed = pa_closed p, rr_leftOpen = pa_leftOpen p,
       rr_lamports = foldl (\<lambda>sum a. sum + snd a) 0
         (filter (\<lambda>a. fst a \<in> set (pa_closed p)) accounts)\<rparr>))"

section \<open>Facts\<close>

lemma cachedKeys_set: "cachedKeys derive (w, Some k) = (Inr k, (w, Some k))"
  by (simp add: cachedKeys_def io_get_def io_bind_def)

lemma cachedKeys_unset:
  "cachedKeys derive (w, None) =
     (case derive w of (Inl e, w') \<Rightarrow> (Inl e, (w', None)) | (Inr k, w') \<Rightarrow> (Inr k, (w', Some k)))"
  by (simp add: cachedKeys_def io_get_def io_put_def io_bind_def split: prod.splits sum.splits)

lemma cachedKeys_Inr:
  "cachedKeys derive ws = (Inr k, ws') \<longleftrightarrow>
     snd ws' = Some k \<and> (if snd ws = None then derive (fst ws) = (Inr k, fst ws') else snd ws = Some k \<and> ws' = ws)"
  by (cases ws; cases ws'; cases "snd ws")
    (auto simp: cachedKeys_set cachedKeys_unset split: prod.splits sum.splits)

text \<open>Once the captured variable is set, attempts leave it alone.\<close>

definition captured :: "keypairs \<Rightarrow> 'w \<times> keypairs option \<Rightarrow> bool" where
  "captured k ws \<longleftrightarrow> snd ws = Some k"

lemma captured_local: "io_keeps (captured k) (io_local m)"
  by (auto intro!: keepsI simp: captured_def io_local_def split: prod.splits)

lemma captured_cached: "io_keeps (captured k) (cachedKeys derive)"
  by (rule keepsI) (auto simp: captured_def cachedKeys_set)

lemmas captured_steps = captured_local captured_cached

lemma applyAttempt_captured: "io_keeps (captured k) (applyAttempt K Z input t)"
  unfolding applyAttempt_def Let_def by (intro keeps_rules captured_steps)

text \<open>The attempt whose result the operation returns ran with the passed keys, if keys were passed.\<close>

lemma withCapturedKeys_attempt:
  assumes "withCapturedKeys retries keys attempt w = (res, w')"
    and "\<And>k. io_keeps (captured k) attempt"
  shows "\<exists>ws ws'. attempt ws = (res, ws') \<and> fst ws' = w' \<and> (\<forall>k. keys = Some k \<longrightarrow> snd ws = Some k)"
proof -
  obtain ks' where run: "withRetries retries attempt (w, keys) = (res, (w', ks'))"
    using assms(1) by (auto simp: withCapturedKeys_def split: prod.splits)
  let ?P = "\<lambda>ws. \<forall>k. keys = Some k \<longrightarrow> captured k ws"
  have "\<exists>ws. ?P ws \<and> attempt ws = (res, (w', ks'))"
  proof (rule withRetries_invariant [OF run [unfolded withRetries_def]])
    show "?P (w, keys)" by (simp add: captured_def)
  next
    fix ws r ws' assume "?P ws" and "attempt ws = (r, ws')"
    then show "?P ws'" using keepsD [OF assms(2)] by metis
  qed
  then show ?thesis by (auto simp: captured_def)
qed

lemma ae_encrypted:
  "ae_ok Z \<Longrightarrow> 0 \<le> v \<Longrightarrow> v < 2 ^ 64 \<Longrightarrow> zk_aeEncrypt Z key v w = (Inr bs, w') \<Longrightarrow> ae_decrypts Z key bs v"
  unfolding ae_ok_def by (metis Inr_inject prod.inject)

lemma decryptPart_Inr: "decryptPart op t what r = Inr v \<longleftrightarrow> r = Inr v"
  by (simp add: decryptPart_def split: sum.splits)

lemma decryptPart_Inl:
  "decryptPart op t what r = Inl e \<Longrightarrow> refused_with DECRYPTION_FAILED op e"
  by (auto simp: decryptPart_def split: sum.splits)

definition elgamal_decrypts :: "'w zk \<Rightarrow> bytes \<Rightarrow> bytes \<Rightarrow> int \<Rightarrow> bool" where
  "elgamal_decrypts Z secret bs v \<longleftrightarrow>
     (\<exists>c. zk_elgamalFromBytes Z bs = Some c \<and> zk_elgamalDecrypt Z secret c = Inr v)"

lemma appliedBalance_Inr:
  "appliedBalance Z keys ct t = Inr v \<longleftrightarrow>
     (\<exists>lo hi current. elgamal_decrypts Z (kp_secret (elgamalKeypair keys)) (pendingBalanceLow ct) lo \<and>
        elgamal_decrypts Z (kp_secret (elgamalKeypair keys)) (pendingBalanceHigh ct) hi \<and>
        ae_decrypts Z (aesKey keys) (decryptableAvailableBalance ct) current \<and>
        v = current + lo + hi * 2 ^ 16)"
  by (auto simp: appliedBalance_def Let_def io_elim decryptPart_Inr parseElGamal_def parseAe_def
      elgamal_decrypts_def ae_decrypts_def PENDING_BALANCE_LO_BIT_LENGTH_def bigint_shl_eq
      split: option.splits)

lemma appliedBalance_Inl:
  "appliedBalance Z keys ct t = Inl e \<Longrightarrow> refused_with DECRYPTION_FAILED ''applyPendingBalance'' e"
  by (auto simp: appliedBalance_def Let_def result_bind_eq_Inl dest!: decryptPart_Inl)

lemma applyAttempt_Inr:
  "applyAttempt K Z input t ws = (Inr sig, ws') \<Longrightarrow>
     \<exists>d ct keys v enc w1 w2 w3 w4. rpc_fetchMaybeToken (in_rpc input) t w1 = (Inr (Some d), w2) \<and>
       confidentialState d = Some ct \<and> snd ws' = Some keys \<and>
       (\<forall>k. snd ws = Some k \<longrightarrow> keys = k) \<and>
       kit_decodeAddress K (kp_pubkey (elgamalKeypair keys)) = Inr (elgamalPubkey ct) \<and>
       appliedBalance Z keys ct t = Inr v \<and> zk_aeEncrypt Z (aesKey keys) v w3 = (Inr enc, w4) \<and>
       sendInstructions K (sendContext input ''applyPendingBalance'')
         [build K (ApplyConfidentialPendingBalance t (sg_address (in_owner input))
           (pendingBalanceCreditCounter ct) enc (programOf input))] w4 = (Inr sig, fst ws')"
proof -
  let ?op = "''applyPendingBalance''"
  assume run: "applyAttempt K Z input t ws = (Inr sig, ws')"
  obtain d ct ws1 keys ws2 v enc ws3 where steps:
      "readConfiguredAccount (in_rpc input) t ?op ''your'' (fst ws) = (Inr (d, ct), fst ws1)"
      "snd ws1 = snd ws"
      "cachedKeys (ownerKeys K Z (in_owner input) None ?op) ws1 = (Inr keys, ws2)"
      "assertKeysMatchAccount K keys d t ?op = Inr ()" "appliedBalance Z keys ct t = Inr v"
      "zk_aeEncrypt Z (aesKey keys) v (fst ws2) = (Inr enc, fst ws3)" "snd ws3 = snd ws2"
      "sendInstructions K (sendContext input ?op)
         [build K (ApplyConfidentialPendingBalance t (sg_address (in_owner input))
           (pendingBalanceCreditCounter ct) enc (programOf input))] (fst ws3) = (Inr sig, fst ws')"
      "snd ws' = snd ws3"
    using run unfolding applyAttempt_def Let_def
    by (force simp: io_bind_eq_Inr io_local_eq_pair)
  have ct: "rpc_fetchMaybeToken (in_rpc input) t (fst ws) = (Inr (Some d), fst ws1)"
      "confidentialState d = Some ct"
    using steps(1) by (simp_all add: readConfiguredAccount_Inr)
  have "snd ws2 = Some keys" "\<forall>k. snd ws = Some k \<longrightarrow> keys = k"
    using steps(2,3) by (auto simp: cachedKeys_Inr split: if_splits)
  moreover have "kit_decodeAddress K (kp_pubkey (elgamalKeypair keys)) = Inr (elgamalPubkey ct)"
    using steps(4) ct(2) by (simp add: assertKeys_Inr)
  ultimately show ?thesis using ct steps by metis
qed

section \<open>Properties\<close>

text \<open>A deposit that returns sent one transaction with one instruction, a deposit of exactly the
  amount, from an account that was configured, approved, accepting credits, below its credit limit
  and holding at least the amount in its public balance.\<close>

theorem deposit_value:
  assumes "deposit K input w = (Inr (t, sig), w')"
  shows "\<exists>a d ct w1 w2. toBigInt (di_amount input) = Inr a \<and> 0 < a \<and> a < 2 ^ 48 \<and>
     rpc_fetchMaybeToken (in_rpc input) t w1 = (Inr (Some d), w2) \<and> confidentialState d = Some ct \<and>
     a \<le> tk_amount d \<and> approved ct \<and> allowConfidentialCredits ct \<and>
     pendingBalanceCreditCounter ct < maximumPendingBalanceCreditCounter ct \<and>
     sendInstructions K (sendContext input ''deposit'')
       [build K (ConfidentialDeposit t (in_mint input) (sg_address (in_owner input)) a
         (di_decimals input) (programOf input))] w2 = (Inr sig, w')"
proof -
  obtain a w0 where a: "toBigInt (di_amount input) = Inr a" "0 < a" "a \<le> MAX_DEPOSIT_OR_TRANSFER_AMOUNT"
      "withRetries (in_retries input) (depositAttempt K input t a) w0 = (Inr sig, w')"
    using assms by (auto simp: deposit_def io_elim split: if_splits)
  from withRetries_value [OF a(4)] obtain w1 where "depositAttempt K input t a w1 = (Inr sig, w')" ..
  then obtain d ct w2 where "rpc_fetchMaybeToken (in_rpc input) t w1 = (Inr (Some d), w2)"
      "confidentialState d = Some ct" "a \<le> tk_amount d" "assertCanReceive ct t ''deposit'' Your = Inr ()"
      "sendInstructions K (sendContext input ''deposit'')
        [build K (ConfidentialDeposit t (in_mint input) (sg_address (in_owner input)) a
          (di_decimals input) (programOf input))] w2 = (Inr sig, w')"
    by (auto simp: depositAttempt_def io_elim readConfiguredAccount_Inr split: if_splits)
  with a(1-3) show ?thesis by (auto simp: assertCanReceive_Inr max_amount)
qed

text \<open>A deposit of nothing, of a negative amount or of more than \<open>2 ^ 48 - 1\<close> is refused before
  anything is read or sent.\<close>

theorem deposit_bad_amount:
  assumes "toBigInt (di_amount input) = Inr a" and "a \<le> 0 \<or> 2 ^ 48 \<le> a"
  shows "\<exists>e. deposit K input w = (Inl e, w) \<and>
     refused_with (if a \<le> 0 then INVALID_INPUT else AMOUNT_TOO_LARGE) ''deposit'' e"
  using assms by (auto simp: deposit_def max_amount)

text \<open>A deposit from an account that holds too little in public, or that cannot take another
  credit, is refused with the code that says so after one read of the account, whatever the number
  of retries, and nothing is sent.\<close>

theorem deposit_refused_by_account:
  assumes "toBigInt (di_amount input) = Inr a" "0 < a" "a < 2 ^ 48" and "tokenOf K input = Inr t"
    and "rpc_fetchMaybeToken (in_rpc input) t w = (Inr (Some d), w1)" and "confidentialState d = Some ct"
    and "tk_amount d < a \<or> \<not> approved ct \<or> \<not> allowConfidentialCredits ct \<or>
      maximumPendingBalanceCreditCounter ct \<le> pendingBalanceCreditCounter ct"
  shows "\<exists>e. deposit K input w = (Inl e, w1) \<and>
     refused_with (if tk_amount d < a then INSUFFICIENT_FUNDS else refusal_code ct) ''deposit'' e"
proof -
  have read: "readConfiguredAccount (in_rpc input) t ''deposit'' ''your'' w = (Inr (d, ct), w1)"
    using assms by (simp add: readConfiguredAccount_Inr)
  have "\<exists>e. depositAttempt K input t a w = (Inl e, w1) \<and>
     refused_with (if tk_amount d < a then INSUFFICIENT_FUNDS else refusal_code ct) ''deposit'' e"
  proof (cases "tk_amount d < a")
    case True
    then show ?thesis by (simp add: depositAttempt_def read)
  next
    case False
    with assms(7) have "assertCanReceive ct t ''deposit'' Your \<noteq> Inr ()"
      by (auto simp: assertCanReceive_Inr)
    then obtain e where "assertCanReceive ct t ''deposit'' Your = Inl e"
      by (cases "assertCanReceive ct t ''deposit'' Your") auto
    with False assertCanReceive_Inl [OF this] show ?thesis by (simp add: depositAttempt_def read)
  qed
  then obtain e where e: "depositAttempt K input t a w = (Inl e, w1)"
      "refused_with (if tk_amount d < a then INSUFFICIENT_FUNDS else refusal_code ct) ''deposit'' e"
    by blast
  have "withRetries (in_retries input) (depositAttempt K input t a) w = (Inl e, w1)"
    by (rule withRetries_not_repeated [where w = w]) (use e refused_withD in auto)
  with e(2) assms(1-4) show ?thesis by (simp add: deposit_def max_amount)
qed

text \<open>C10: Applying the pending balance sends one instruction that states the account's own credit
  counter and an AES ciphertext of the new balance, which decrypts to the available balance plus
  both parts of the pending one, the high part shifted by 16 bits. The keys used are those passed,
  or derived, and they are the account's.\<close>

theorem apply_value:
  assumes "applyPendingBalance K Z input w = (Inr (t, sig), w')" and "ae_ok Z"
  shows "\<exists>d ct keys lo hi current enc w1 w2 w4.
     rpc_fetchMaybeToken (in_rpc input) t w1 = (Inr (Some d), w2) \<and> confidentialState d = Some ct \<and>
     (\<forall>k. in_keys input = Some k \<longrightarrow> keys = k) \<and>
     kit_decodeAddress K (kp_pubkey (elgamalKeypair keys)) = Inr (elgamalPubkey ct) \<and>
     elgamal_decrypts Z (kp_secret (elgamalKeypair keys)) (pendingBalanceLow ct) lo \<and>
     elgamal_decrypts Z (kp_secret (elgamalKeypair keys)) (pendingBalanceHigh ct) hi \<and>
     ae_decrypts Z (aesKey keys) (decryptableAvailableBalance ct) current \<and>
     (0 \<le> current + lo + hi * 2 ^ 16 \<and> current + lo + hi * 2 ^ 16 < 2 ^ 64 \<longrightarrow>
        ae_decrypts Z (aesKey keys) enc (current + lo + hi * 2 ^ 16)) \<and>
     sendInstructions K (sendContext input ''applyPendingBalance'')
       [build K (ApplyConfidentialPendingBalance t (sg_address (in_owner input))
         (pendingBalanceCreditCounter ct) enc (programOf input))] w4 = (Inr sig, w')"
proof -
  obtain w0 where run: "withCapturedKeys (in_retries input) (in_keys input) (applyAttempt K Z input t) w0
      = (Inr sig, w')"
    using assms(1) by (auto simp: applyPendingBalance_def io_elim)
  obtain ws0 ws' where ws0: "\<forall>k. in_keys input = Some k \<longrightarrow> snd ws0 = Some k"
      "applyAttempt K Z input t ws0 = (Inr sig, ws')" "fst ws' = w'"
    using withCapturedKeys_attempt [OF run applyAttempt_captured] by blast
  from applyAttempt_Inr [OF ws0(2)] obtain d ct keys v enc w1 w2 w3 w4 where parts:
      "rpc_fetchMaybeToken (in_rpc input) t w1 = (Inr (Some d), w2)" "confidentialState d = Some ct"
      "\<forall>k. snd ws0 = Some k \<longrightarrow> keys = k"
      "kit_decodeAddress K (kp_pubkey (elgamalKeypair keys)) = Inr (elgamalPubkey ct)"
      "appliedBalance Z keys ct t = Inr v" "zk_aeEncrypt Z (aesKey keys) v w3 = (Inr enc, w4)"
      "sendInstructions K (sendContext input ''applyPendingBalance'')
         [build K (ApplyConfidentialPendingBalance t (sg_address (in_owner input))
           (pendingBalanceCreditCounter ct) enc (programOf input))] w4 = (Inr sig, w')"
    using ws0(3) by auto
  have "0 \<le> v \<and> v < 2 ^ 64 \<longrightarrow> ae_decrypts Z (aesKey keys) enc v"
    using ae_encrypted [OF assms(2) _ _ parts(6)] by blast
  moreover obtain lo hi current where
      "elgamal_decrypts Z (kp_secret (elgamalKeypair keys)) (pendingBalanceLow ct) lo"
      "elgamal_decrypts Z (kp_secret (elgamalKeypair keys)) (pendingBalanceHigh ct) hi"
      "ae_decrypts Z (aesKey keys) (decryptableAvailableBalance ct) current"
      "v = current + lo + hi * 2 ^ 16"
    using parts(5) unfolding appliedBalance_Inr by blast
  moreover have "\<forall>k. in_keys input = Some k \<longrightarrow> keys = k" using ws0(1) parts(3) by simp
  ultimately show ?thesis using parts(1,2,4,7) by blast
qed

text \<open>When a balance of the account cannot be parsed or decrypted with the keys passed, applying
  is refused with DECRYPTION_FAILED after one read, and nothing is sent or repeated.\<close>

theorem apply_undecryptable:
  assumes "tokenOf K input = Inr t" and "in_keys input = Some keys"
    and "rpc_fetchMaybeToken (in_rpc input) t w = (Inr (Some d), w1)" and "confidentialState d = Some ct"
    and "kit_decodeAddress K (kp_pubkey (elgamalKeypair keys)) = Inr (elgamalPubkey ct)"
    and "appliedBalance Z keys ct t = Inl e"
  shows "applyPendingBalance K Z input w = (Inl e, w1) \<and> refused_with DECRYPTION_FAILED ''applyPendingBalance'' e"
proof -
  note refused = appliedBalance_Inl [OF assms(6)]
  have "readConfiguredAccount (in_rpc input) t ''applyPendingBalance'' ''your'' w = (Inr (d, ct), w1)"
    using assms(3,4) by (simp add: readConfiguredAccount_Inr)
  moreover have "assertKeysMatchAccount K keys d t ''applyPendingBalance'' = Inr ()"
    using assms(4,5) by (simp add: assertKeys_Inr)
  ultimately have "applyAttempt K Z input t (w, Some keys) = (Inl e, (w1, Some keys))"
    by (simp add: applyAttempt_def Let_def cachedKeys_set assms(6))
  then have "withRetries (in_retries input) (applyAttempt K Z input t) (w, Some keys) = (Inl e, (w1, Some keys))"
    by (rule withRetries_not_repeated) (use refused refused_withD in auto)
  then show ?thesis
    using refused assms(1,2) by (simp add: applyPendingBalance_def withCapturedKeys_def)
qed

text \<open>A decrypted balance is what the account's AES ciphertext decrypts to under keys whose
  ElGamal key is the account's.\<close>

theorem decrypted_balance_value:
  assumes "decryptBalance K Z input w = (Inr v, w')"
  shows "\<exists>t d ct keys w1 w2. tokenOf K input = Inr t \<and>
     rpc_fetchMaybeToken (in_rpc input) t w1 = (Inr (Some d), w2) \<and> confidentialState d = Some ct \<and>
     ownerKeys K Z (in_owner input) (in_keys input) ''decryptBalance'' w2 = (Inr keys, w') \<and>
     kit_decodeAddress K (kp_pubkey (elgamalKeypair keys)) = Inr (elgamalPubkey ct) \<and>
     ae_decrypts Z (aesKey keys) (decryptableAvailableBalance ct) v"
proof -
  have opened: "(case zk_aeFromBytes Z bs of None \<Rightarrow> io_throw e1
      | Some c \<Rightarrow> (case zk_aeDecrypt Z k c of Inr v \<Rightarrow> io_return v | Inl e \<Rightarrow> io_throw (e2 e))) w1 = (Inr v, w2)
      \<longleftrightarrow> w2 = w1 \<and> ae_decrypts Z k bs v" for bs k e1 e2 w1 w2
    by (auto simp: ae_decrypts_def split: option.splits sum.splits)
  obtain t d ct keys w2 where "tokenOf K input = Inr t"
      "readConfiguredAccount (in_rpc input) t ''decryptBalance'' ''the'' w = (Inr (d, ct), w2)"
      "ownerKeys K Z (in_owner input) (in_keys input) ''decryptBalance'' w2 = (Inr keys, w')"
      "assertKeysMatchAccount K keys d t ''decryptBalance'' = Inr ()"
      "ae_decrypts Z (aesKey keys) (decryptableAvailableBalance ct) v"
    using assms by (auto simp: decryptBalance_def io_elim opened)
  moreover from this(2) have "rpc_fetchMaybeToken (in_rpc input) t w = (Inr (Some d), w2)"
      "confidentialState d = Some ct" by (simp_all add: readConfiguredAccount_Inr)
  moreover from this(2) calculation(4)
  have "kit_decodeAddress K (kp_pubkey (elgamalKeypair keys)) = Inr (elgamalPubkey ct)"
    by (simp add: assertKeys_Inr)
  ultimately show ?thesis by blast
qed

text \<open>An account that is configured already is refused before any signature is asked for.\<close>

theorem configure_refused_when_configured:
  assumes "kit_findAssociatedTokenPda K (sg_address (in_owner input)) (programOf input) (in_mint input) = Inr t"
    and "rpc_fetchMaybeToken (in_rpc input) t w = (Inr (Some d), w1)" and "confidentialState d = Some ct"
  shows "\<exists>e. configureAccount K Z input w = (Inl e, w1) \<and>
     refused_with ACCOUNT_ALREADY_CONFIGURED ''configureAccount'' e"
  using assms by (simp add: configureAccount_def)


text \<open>Recovering closes accounts found under the authority: what it reports as closed and as left
  open are found accounts, none in both, and the rent it reports is that of the closed ones.\<close>

theorem recovered_accounts:
  assumes "rpc_getProgramAccounts (ri_rpc input) ZK_ELGAMAL_PROOF_PROGRAM_ADDRESS
      (sg_address (ri_authority input)) w = (Inr accounts, w1)" and "distinct (map fst accounts)"
  shows "\<exists>r w'. recoverProofAccounts K input w = (Inr r, w') \<and>
     set (rr_closed r) \<union> set (rr_leftOpen r) \<subseteq> fst ` set accounts \<and>
     set (rr_closed r) \<inter> set (rr_leftOpen r) = {} \<and>
     rr_lamports r = (\<Sum>a \<in> set (rr_closed r). the (map_of accounts a))"
proof -
  let ?ctx = "\<lparr>ctx_rpc = ri_rpc input, ctx_payer = ri_authority input,
      ctx_operation = ''recoverProofAccounts'', ctx_computeUnitPrice = ri_computeUnitPrice input\<rparr>"
  obtain p w2 where p: "closeProofAccounts K ?ctx (map fst accounts) w1 = (Inr p, w2)"
      "set (pa_closed p) \<union> set (pa_leftOpen p) \<subseteq> set (map fst accounts)"
      "set (pa_closed p) \<inter> set (pa_leftOpen p) = {}"
    using closer.close_outcome [of K ?ctx "map fst accounts" w1] by (elim exE conjE) (rule that)
  let ?paid = "filter (\<lambda>a. fst a \<in> set (pa_closed p)) accounts"
  have fold: "foldl (\<lambda>sum a. sum + snd a) n xs = n + sum_list (map snd xs)" for n :: int and xs :: "(address \<times> int) list"
    by (induction xs arbitrary: n) simp_all
  have d: "distinct (map fst ?paid)" using assms(2) by (simp add: distinct_map_filter)
  have "sum_list (map snd ?paid) = sum_list (map (\<lambda>a. the (map_of accounts a)) (map fst ?paid))"
    using assms(2) by (auto intro!: arg_cong [of _ _ sum_list] simp: map_of_is_SomeI)
  also have "\<dots> = (\<Sum>a \<in> set (map fst ?paid). the (map_of accounts a))"
    using d by (rule sum_list_distinct_conv_sum_set)
  also have "set (map fst ?paid) = set (pa_closed p)" using p(2) by auto
  finally have "foldl (\<lambda>sum a. sum + snd a) 0 ?paid = (\<Sum>a \<in> set (pa_closed p). the (map_of accounts a))"
    by (simp add: fold)
  with p show ?thesis by (simp add: recoverProofAccounts_def assms(1))
qed

subsection \<open>Witnesses\<close>

definition some_keys :: keypairs where
  "some_keys = \<lparr>elgamalKeypair = some_keypair, aesKey = [1]\<rparr>"

definition op_rpc :: "token option \<Rightarrow> nat rpc" where
  "op_rpc account = (toy_rpc None rejected)\<lparr>rpc_fetchMaybeToken := (\<lambda>_. io_return account),
     rpc_getProgramAccounts := (\<lambda>_ _. io_return [(''a'', 5), (''b'', 7)])\<rparr>"

definition op_input :: "token option \<Rightarrow> nat operation_input" where
  "op_input account = \<lparr>in_rpc = op_rpc account, in_payer = signer_named ''payer'',
     in_owner = signer_named ''alice'', in_mint = ''mint'', in_token = None, in_keys = Some some_keys,
     in_programAddress = None, in_computeUnitPrice = None, in_retries = Some 1\<rparr>"

definition deposit_of :: "int \<Rightarrow> nat deposit_input" where
  "deposit_of a = operation_input.extend (op_input (Some (token_with 1000 0)))
     \<lparr>di_amount = BigInt_v a, di_decimals = 2\<rparr>"

definition configure_of :: "token option \<Rightarrow> nat configure_input" where
  "configure_of account = operation_input.extend (op_input account)
     \<lparr>ci_maximumPendingBalanceCreditCounter = None\<rparr>"

lemma toy_ae_ok: "ae_ok (toy_zk :: 'w zk)"
  using toy_zk_documented by (auto simp: zk_documented_def)

theorem deposit_value_witness:
  "\<exists>t sig w' a. deposit toy_kit (deposit_of 600) 0 = (Inr (t, sig), w') \<and>
     toBigInt (di_amount (deposit_of 600)) = Inr a \<and> 0 < a \<and> a < 2 ^ 48"
proof -
  have "deposit toy_kit (deposit_of 600) 0 = (Inr (''alice/mint'', ''sig''), 1)" by code_simp
  then show ?thesis using deposit_value [of toy_kit "deposit_of 600" 0] by metis
qed

theorem deposit_bad_amount_witness:
  "\<exists>e. deposit toy_kit (deposit_of 281474976710656) 0 = (Inl e, 0) \<and>
     refused_with AMOUNT_TOO_LARGE ''deposit'' e"
  using deposit_bad_amount [of "deposit_of 281474976710656" "281474976710656" toy_kit 0]
  by (simp add: deposit_of_def op_input_def operation_input.defs)

theorem deposit_refused_by_account_witness:
  "\<exists>e. deposit toy_kit (deposit_of 1001) 0 = (Inl e, 0) \<and> refused_with INSUFFICIENT_FUNDS ''deposit'' e"
proof -
  have "toBigInt (di_amount (deposit_of 1001)) = Inr 1001" "tokenOf toy_kit (deposit_of 1001) = Inr ''alice/mint''"
      "rpc_fetchMaybeToken (in_rpc (deposit_of 1001)) ''alice/mint'' 0 = (Inr (Some (token_with 1000 0)), 0)"
      "tk_amount (token_with 1000 0) = 1000"
    by (simp_all add: deposit_of_def op_input_def operation_input.defs op_rpc_def tokenOf_def
        toy_kit_def idle_kit_def signer_named_def token_with_def)
  then show ?thesis
    using deposit_refused_by_account [of "deposit_of 1001" 1001 toy_kit "''alice/mint''" 0 "token_with 1000 0" 0 "ct_with 0"]
    by simp
qed

lemma op_facts:
  "tokenOf toy_kit (op_input account) = Inr ''alice/mint''"
  "in_keys (op_input account) = Some some_keys"
  "rpc_fetchMaybeToken (in_rpc (op_input account)) t w = (Inr account, w)"
  "kit_findAssociatedTokenPda toy_kit (sg_address (in_owner (op_input account)))
     (programOf (op_input account)) (in_mint (op_input account)) = Inr ''alice/mint''"
  by (simp_all add: op_input_def op_rpc_def tokenOf_def toy_kit_def idle_kit_def signer_named_def)

lemma some_keys_match:
  "kit_decodeAddress toy_kit (kp_pubkey (elgamalKeypair some_keys)) = Inr (elgamalPubkey (ct_with b))"
proof -
  have "kit_decodeAddress toy_kit (kp_pubkey (elgamalKeypair some_keys)) = Inr ''k''" by code_simp
  then show ?thesis by (simp add: ct_with_def)
qed

lemma op_sends: "sendInstructions toy_kit (sendContext (op_input account) p) ixs w = (Inr ''sig'', Suc w)"
  by code_simp

lemma apply_runs:
  "applyPendingBalance toy_kit toy_zk (op_input (Some (token_with 0 5))) 0 = (Inr (''alice/mint'', ''sig''), 1)"
proof -
  let ?in = "op_input (Some (token_with 0 5))"
  have read: "readConfiguredAccount (in_rpc ?in) t op whose w = (Inr (token_with 0 5, ct_with 5), w)" for t op whose w
    by (simp add: readConfiguredAccount_Inr op_facts)
  have match: "assertKeysMatchAccount toy_kit some_keys (token_with 0 5) t op = Inr ()" for t op
    by (simp add: assertKeys_Inr [OF confidentialState_token_with] some_keys_match)
  have applied: "appliedBalance (toy_zk :: nat zk) some_keys (ct_with 5) t = Inr 5" for t
    by (simp add: appliedBalance_def parseElGamal_def parseAe_def decryptPart_def ct_with_def toy_zk_def
        idle_zk_def point_def byte_group_def le_nat_bigUint64 bigint_shl_def)
  have enc: "zk_aeEncrypt (toy_zk :: nat zk) k v w = (Inr (bigUint64 v), w)" for k v w
    by (simp add: toy_zk_def)
  have "applyAttempt toy_kit toy_zk ?in t (0, Some some_keys) = (Inr ''sig'', (1, Some some_keys))" for t
    by (simp add: applyAttempt_def Let_def read match applied enc cachedKeys_set op_sends)
  then show ?thesis
    by (simp add: applyPendingBalance_def op_facts withCapturedKeys_def withRetries_first)
qed

theorem apply_value_witness:
  "\<exists>t sig w' d ct. applyPendingBalance toy_kit toy_zk (op_input (Some (token_with 0 5))) 0 = (Inr (t, sig), w') \<and>
     confidentialState d = Some ct \<and>
     kit_decodeAddress toy_kit (kp_pubkey (elgamalKeypair some_keys)) = Inr (elgamalPubkey ct)"
proof -
  have "applyPendingBalance toy_kit toy_zk (op_input (Some (token_with 0 5))) 0 = (Inr (''alice/mint'', ''sig''), 1)"
    by (rule apply_runs)
  moreover have "in_keys (op_input (Some (token_with 0 5))) = Some some_keys" by (simp add: op_input_def)
  ultimately show ?thesis
    using apply_value [OF _ toy_ae_ok, of toy_kit "op_input (Some (token_with 0 5))" 0] by metis
qed

theorem apply_undecryptable_witness:
  "\<exists>e. applyPendingBalance toy_kit (toy_zk\<lparr>zk_elgamalDecrypt := (\<lambda>_ _. Inl no_call)\<rparr>)
       (op_input (Some (token_with 0 5))) 0 = (Inl e, 0) \<and>
     refused_with DECRYPTION_FAILED ''applyPendingBalance'' e"
proof -
  let ?Z = "toy_zk\<lparr>zk_elgamalDecrypt := (\<lambda>_ _. Inl no_call)\<rparr> :: nat zk"
  obtain e where "appliedBalance ?Z some_keys (ct_with 5) ''alice/mint'' = Inl e"
    by (simp add: appliedBalance_def parseElGamal_def toy_zk_def idle_zk_def decryptPart_def)
  from apply_undecryptable [OF op_facts(1,2,3) confidentialState_token_with some_keys_match this]
  show ?thesis by blast
qed

theorem decrypted_balance_value_witness:
  "ae_decrypts (toy_zk :: nat zk) (aesKey some_keys) (decryptableAvailableBalance (ct_with 5)) 5"
proof -
  have "decryptBalance toy_kit toy_zk (op_input (Some (token_with 0 5))) 0 = (Inr 5, 0)" by code_simp
  from decrypted_balance_value [OF this] show ?thesis
    by (auto simp: op_facts ownerKeys_def ensureZk_def)
qed

theorem configure_refused_when_configured_witness:
  "\<exists>e. configureAccount toy_kit toy_zk (configure_of (Some (token_with 0 5))) 0 = (Inl e, 0) \<and>
     refused_with ACCOUNT_ALREADY_CONFIGURED ''configureAccount'' e"
  by (rule configure_refused_when_configured [OF _ _ confidentialState_token_with])
    (simp_all add: configure_of_def op_input_def operation_input.defs op_rpc_def toy_kit_def idle_kit_def)


definition recover_sample :: "nat recover_input" where
  "recover_sample = \<lparr>ri_rpc = op_rpc None, ri_authority = signer_named ''payer'', ri_computeUnitPrice = None\<rparr>"

theorem recovered_accounts_witness:
  "\<exists>r w'. recoverProofAccounts toy_kit recover_sample 0 = (Inr r, w') \<and>
     set (rr_closed r) \<inter> set (rr_leftOpen r) = {} \<and>
     rr_lamports r = (\<Sum>a \<in> set (rr_closed r). the (map_of [(''a'', 5), (''b'', 7)] a))"
proof -
  have "rpc_getProgramAccounts (ri_rpc recover_sample) ZK_ELGAMAL_PROOF_PROGRAM_ADDRESS
      (sg_address (ri_authority recover_sample)) 0 = (Inr [(''a'', 5), (''b'', 7)], 0)"
    by (simp add: recover_sample_def op_rpc_def)
  from recovered_accounts [OF this, of toy_kit] show ?thesis by auto
qed

end
