(* ===== verification/Transfer_Hook.thy ===== *)
theory Transfer_Hook
  imports Concrete
begin

text \<open>
  \<open>src/src/internal/transferHook.ts\<close>: finding a mint's transfer hook and resolving the accounts
  its metadata list asks for. The reference for the byte formats are the encoders \<open>encodeMetaList\<close>
  and \<open>packSeed\<close> of the SPL layout, which the parsers of the module undo.
\<close>

section \<open>Reading accounts\<close>

definition EXTRA_ACCOUNT_METAS_SEED :: string where
  "EXTRA_ACCOUNT_METAS_SEED = ''extra-account-metas''"

definition CONFIDENTIAL_TRANSFER_HOOK_AMOUNT :: int where
  "CONFIDENTIAL_TRANSFER_HOOK_AMOUNT = 0xffffffffffffffff"

definition EXECUTE_DISCRIMINATOR :: bytes where
  "EXECUTE_DISCRIMINATOR = [105, 37, 101, 197, 75, 251, 102, 26]"

definition META_HEADER :: nat where "META_HEADER = 16"
definition META_ENTRY :: nat where "META_ENTRY = 35"

definition utf8 :: "string \<Rightarrow> bytes" where
  "utf8 s = map (\<lambda>c. of_nat (of_char c)) s"

fun accountData :: "'w kit \<Rightarrow> account_data option \<Rightarrow> exn + bytes option" where
  "accountData K None = Inr None"
| "accountData K (Some (Data_Pair raw _)) = result_bind (kit_base64 K raw) (\<lambda>b. Inr (Some b))"
| "accountData K (Some (Data_String raw)) = result_bind (kit_base64 K raw) (\<lambda>b. Inr (Some b))"

definition fetchData :: "'w kit \<Rightarrow> 'w rpc \<Rightarrow> address \<Rightarrow> ('w, bytes option) task" where
  "fetchData K R a = io_bind (rpc_getAccountInfo R a) (\<lambda>v. io_of (accountData K v))"

fun hook_of :: "extension \<Rightarrow> program_id option" where
  "hook_of (TransferHook p) = Some p"
| "hook_of _ = None"

fun program_address :: "program_id \<Rightarrow> address option" where
  "program_address (Plain_Id a) = Some a"
| "program_address (Option_Id v) = v"
| "program_address No_Id = None"

definition getTransferHookProgram :: "'w rpc \<Rightarrow> address \<Rightarrow> ('w, address option) task" where
  "getTransferHookProgram R mintAddress =
     io_bind (rpc_fetchMint R mintAddress) (\<lambda>data.
     let extensions = (case mt_extensions data of Some es \<Rightarrow> es | None \<Rightarrow> []) in
     io_return (case find_map hook_of extensions of
         None \<Rightarrow> None
       | Some raw \<Rightarrow>
           (case program_address raw of
              None \<Rightarrow> None
            | Some p \<Rightarrow> if p = SYSTEM_PROGRAM then None else Some p)))"

definition findExtraAccountMetaListPda :: "'w kit \<Rightarrow> address \<Rightarrow> address \<Rightarrow> exn + address" where
  "findExtraAccountMetaListPda K mintAddress hookProgram =
     result_bind (kit_encodeAddress K mintAddress) (\<lambda>m.
     kit_getProgramDerivedAddress K hookProgram [utf8 EXTRA_ACCOUNT_METAS_SEED, m])"

section \<open>The metadata list\<close>

record meta =
  mm_discriminator :: nat
  mm_addressConfig :: bytes
  mm_isSigner :: bool
  mm_isWritable :: bool

definition metaAt :: "bytes \<Rightarrow> nat \<Rightarrow> meta" where
  "metaAt data start =
     \<lparr>mm_discriminator = unat (data ! start), mm_addressConfig = slice (start + 1) (start + 33) data,
      mm_isSigner = (data ! (start + 33) = 1), mm_isWritable = (data ! (start + 34) = 1)\<rparr>"

text \<open>The loop over \<open>n\<close> more entries, the next at \<open>start\<close>; it stops where the data ends.\<close>

fun metasFrom :: "bytes \<Rightarrow> nat \<Rightarrow> nat \<Rightarrow> meta list" where
  "metasFrom data 0 start = []"
| "metasFrom data (Suc n) start =
     (if length data < start + META_ENTRY then []
      else metaAt data start # metasFrom data n (start + META_ENTRY))"

definition parseMetaList :: "bytes \<Rightarrow> meta list" where
  "parseMetaList data =
     (if length data < META_HEADER then [] else metasFrom data (getUint32 data 12) META_HEADER)"

section \<open>Seeds\<close>

definition hook_error :: "string \<Rightarrow> exn" where
  "hook_error msg = Js_Error ''Error'' msg"

definition byteAt :: "bytes \<Rightarrow> nat \<Rightarrow> nat option" where
  "byteAt bs i = map_option unat (item bs i)"

text \<open>
  \<open>subarray(index, index + length)\<close>; an \<open>undefined\<close> bound makes the end \<open>NaN\<close>, which counts as
  0, so the result is empty.
\<close>

definition subarrayAt :: "bytes \<Rightarrow> nat option \<Rightarrow> nat option \<Rightarrow> bytes" where
  "subarrayAt bs index len =
     (case (index, len) of (Some i, Some n) \<Rightarrow> slice i (i + n) bs | _ \<Rightarrow> [])"

definition previousAt :: "account_meta list \<Rightarrow> nat option \<Rightarrow> account_meta option" where
  "previousAt previous index = Option.bind index (item previous)"

definition show_index :: "nat option \<Rightarrow> string" where
  "show_index index = (case index of Some i \<Rightarrow> show_nat i | None \<Rightarrow> ''undefined'')"

function unpackFrom ::
  "'w kit \<Rightarrow> 'w rpc \<Rightarrow> bytes \<Rightarrow> account_meta list \<Rightarrow> bytes \<Rightarrow> nat \<Rightarrow> bytes list \<Rightarrow> ('w, bytes list) task"
where
  "unpackFrom K R config previous instructionData i seeds =
     (if length config \<le> i then io_return seeds
      else
        let kind = unat (config ! i) in
        if kind = 0 then io_return seeds
        else if kind = 1 then
          (case byteAt config (i + 1) of
             None \<Rightarrow> io_return (seeds @ [[]])
           | Some len \<Rightarrow> unpackFrom K R config previous instructionData (i + (2 + len))
               (seeds @ [slice (i + 2) (i + 2 + len) config]))
        else if kind = 2 then
          unpackFrom K R config previous instructionData (i + 3)
            (seeds @ [subarrayAt instructionData (byteAt config (i + 1)) (byteAt config (i + 2))])
        else if kind = 3 then
          (case previousAt previous (byteAt config (i + 1)) of
             None \<Rightarrow> io_throw (hook_error (''transfer hook seed refers to account '' @
               show_index (byteAt config (i + 1)) @ '', which is not in the list''))
           | Some account \<Rightarrow>
               io_bind (io_of (kit_encodeAddress K (am_address account))) (\<lambda>key.
               unpackFrom K R config previous instructionData (i + 2) (seeds @ [key])))
        else if kind = 4 then
          (case previousAt previous (byteAt config (i + 1)) of
             None \<Rightarrow> io_throw (hook_error (''transfer hook seed refers to account '' @
               show_index (byteAt config (i + 1)) @ '', which is not in the list''))
           | Some account \<Rightarrow>
               io_bind (fetchData K R (am_address account)) (\<lambda>data.
               case data of
                 None \<Rightarrow> io_throw (hook_error (''transfer hook seed reads account '' @
                   am_address account @ '', which does not exist''))
               | Some bs \<Rightarrow> unpackFrom K R config previous instructionData (i + 4)
                   (seeds @ [subarrayAt bs (byteAt config (i + 2)) (byteAt config (i + 3))])))
        else io_throw (hook_error (''unsupported transfer hook seed type '' @ show_nat kind)))"
  by pat_completeness auto
termination
  by (relation "measure (\<lambda>(_, _, config, _, _, i, _). length config - i)") auto

declare unpackFrom.simps [simp del]

definition unpackSeeds ::
  "'w kit \<Rightarrow> 'w rpc \<Rightarrow> bytes \<Rightarrow> account_meta list \<Rightarrow> bytes \<Rightarrow> ('w, bytes list) task" where
  "unpackSeeds K R config previous instructionData = unpackFrom K R config previous instructionData 0 []"

section \<open>Resolving the accounts\<close>

definition resolveMeta ::
  "'w kit \<Rightarrow> 'w rpc \<Rightarrow> meta \<Rightarrow> account_meta list \<Rightarrow> bytes \<Rightarrow> address \<Rightarrow> ('w, account_meta) task" where
  "resolveMeta K R m previous instructionData hookProgram =
     (let role = (if mm_isWritable m then WRITABLE else READONLY);
          derive = (\<lambda>programAddress.
            io_bind (unpackSeeds K R (mm_addressConfig m) previous instructionData) (\<lambda>seeds.
            io_bind (io_of (kit_getProgramDerivedAddress K programAddress seeds)) (\<lambda>a.
            io_return \<lparr>am_address = a, am_role = role\<rparr>))) in
      if mm_discriminator m = 0
      then io_bind (io_of (kit_decodeAddress K (mm_addressConfig m))) (\<lambda>a.
        io_return \<lparr>am_address = a, am_role = role\<rparr>)
      else if mm_discriminator m \<noteq> 1
      then
        (case (if mm_discriminator m < 128 then None else item previous (mm_discriminator m - 128)) of
           None \<Rightarrow> io_throw (hook_error (''transfer hook PDA refers to program at index '' @
             show_int (int (mm_discriminator m) - 128) @ '', which is not in the list''))
         | Some account \<Rightarrow> derive (am_address account))
      else derive hookProgram)"

record hook_input =
  hi_mint :: address
  hi_sourceToken :: address
  hi_destinationToken :: address
  hi_owner :: address
  hi_amount :: "int option"

fun resolveMetas ::
  "'w kit \<Rightarrow> 'w rpc \<Rightarrow> bytes \<Rightarrow> address \<Rightarrow> meta list \<Rightarrow> account_meta list \<Rightarrow> ('w, account_meta list) task"
where
  "resolveMetas K R instructionData hookProgram [] resolved = io_return resolved"
| "resolveMetas K R instructionData hookProgram (m # ms) resolved =
     io_bind (resolveMeta K R m resolved instructionData hookProgram) (\<lambda>a.
     resolveMetas K R instructionData hookProgram ms (resolved @ [a]))"

definition executeData :: "int \<Rightarrow> exn + bytes" where
  "executeData amount =
     result_bind (set_at (zeros 16) EXECUTE_DISCRIMINATOR 0) (\<lambda>d. set_at d (bigUint64 amount) 8)"

definition resolveTransferHookAccounts ::
  "'w kit \<Rightarrow> 'w rpc \<Rightarrow> hook_input \<Rightarrow> ('w, account_meta list) task" where
  "resolveTransferHookAccounts K R input =
     io_bind (getTransferHookProgram R (hi_mint input)) (\<lambda>program.
     case program of
       None \<Rightarrow> io_return []
     | Some hookProgram \<Rightarrow>
         io_bind (io_of (findExtraAccountMetaListPda K (hi_mint input) hookProgram)) (\<lambda>metaListAddress.
         io_bind (fetchData K R metaListAddress) (\<lambda>metaListData.
         case metaListData of
           None \<Rightarrow> io_return []
         | Some data \<Rightarrow>
             let resolved = [\<lparr>am_address = hi_sourceToken input, am_role = WRITABLE\<rparr>,
                   \<lparr>am_address = hi_mint input, am_role = READONLY\<rparr>,
                   \<lparr>am_address = hi_destinationToken input, am_role = WRITABLE\<rparr>,
                   \<lparr>am_address = hi_owner input, am_role = READONLY\<rparr>,
                   \<lparr>am_address = metaListAddress, am_role = READONLY\<rparr>];
                 amount = (case hi_amount input of
                   Some a \<Rightarrow> a | None \<Rightarrow> CONFIDENTIAL_TRANSFER_HOOK_AMOUNT) in
             io_bind (io_of (executeData amount)) (\<lambda>instructionData.
             io_bind (resolveMetas K R instructionData hookProgram (parseMetaList data) resolved)
               (\<lambda>all. io_return (drop 5 all @
                 [\<lparr>am_address = hookProgram, am_role = READONLY\<rparr>,
                  \<lparr>am_address = metaListAddress, am_role = READONLY\<rparr>]))))))"

section \<open>The list format\<close>

definition valid_meta :: "meta \<Rightarrow> bool" where
  "valid_meta m \<longleftrightarrow> mm_discriminator m < 256 \<and> length (mm_addressConfig m) = 32"

definition flag :: "bool \<Rightarrow> byte" where
  "flag b = (if b then 1 else 0)"

definition encodeMeta :: "meta \<Rightarrow> bytes" where
  "encodeMeta m = of_nat (mm_discriminator m) # mm_addressConfig m @
     [flag (mm_isSigner m), flag (mm_isWritable m)]"

text \<open>An 8-byte type discriminator, the byte length, the number of entries, the entries.\<close>

definition encodeMetaList :: "bytes \<Rightarrow> meta list \<Rightarrow> bytes" where
  "encodeMetaList discriminator ms =
     discriminator @ le_bytes 4 (4 + 35 * length ms) @ le_bytes 4 (length ms) @
     concat (map encodeMeta ms)"

lemma length_encodeMeta [byte_simps]: "valid_meta m \<Longrightarrow> length (encodeMeta m) = 35"
  by (simp add: encodeMeta_def valid_meta_def)

lemma metaAt_encoded:
  assumes "valid_meta m" and "length pre = start"
  shows "metaAt (pre @ encodeMeta m @ rest) start = m"
proof -
  have parts: "length (mm_addressConfig m) = 32" "mm_discriminator m < 256"
    using assms(1) by (auto simp: valid_meta_def)
  then have "unat (of_nat (mm_discriminator m) :: 8 word) = mm_discriminator m"
    by (simp add: unat_of_nat)
  moreover have "(pre @ encodeMeta m @ rest) ! (start + 33) = flag (mm_isSigner m)"
      "(pre @ encodeMeta m @ rest) ! (start + 34) = flag (mm_isWritable m)"
    using assms(2) parts by (auto simp: encodeMeta_def nth_append nth_Cons')
  ultimately show ?thesis
    using assms(2) parts
    by (simp add: metaAt_def encodeMeta_def slice_def flag_def nth_append)
qed

lemma metasFrom_encoded:
  assumes "\<forall>m \<in> set ms. valid_meta m" and "length pre = start"
  shows "metasFrom (pre @ concat (map encodeMeta ms)) (length ms) start = ms"
  using assms
proof (induction ms arbitrary: pre start)
  case Nil
  then show ?case by simp
next
  case (Cons m ms)
  have "metasFrom ((pre @ encodeMeta m) @ concat (map encodeMeta ms)) (length ms) (start + 35) = ms"
    using Cons.prems by (intro Cons.IH) (simp_all add: length_encodeMeta)
  then show ?case
    using Cons.prems by (simp add: META_ENTRY_def length_encodeMeta metaAt_encoded)
qed

text \<open>Entries beyond the end of the data are not read, whatever the count says.\<close>

lemma metasFrom_bound: "META_ENTRY * length (metasFrom data n start) \<le> length data - start"
proof (induction n arbitrary: start)
  case 0
  then show ?case by simp
next
  case (Suc n)
  show ?case using Suc.IH [of "start + META_ENTRY"] by (auto simp: META_ENTRY_def)
qed

lemma parse_encoded:
  assumes "length disc = 8" and "\<forall>m \<in> set ms. valid_meta m" and "length ms < 2 ^ 32"
  shows "parseMetaList (encodeMetaList disc ms) = ms"
proof -
  let ?pre = "disc @ le_bytes 4 (4 + 35 * length ms) @ le_bytes 4 (length ms)"
  have "getUint32 (encodeMetaList disc ms) 12 = length ms"
    using assms(1,3) by (simp add: getUint32_def encodeMetaList_def slice_def le_nat_le_bytes)
  moreover have "metasFrom (?pre @ concat (map encodeMeta ms)) (length ms) 16 = ms"
    using assms(1,2) by (intro metasFrom_encoded) simp_all
  ultimately show ?thesis
    using assms(1) by (simp add: parseMetaList_def META_HEADER_def encodeMetaList_def)
qed

interpretation meta_codec:
  codec "\<lambda>ms. length disc = 8 \<and> (\<forall>m \<in> set ms. valid_meta m) \<and> length ms < 2 ^ 32"
    "encodeMetaList disc" "\<lambda>bs. Some (parseMetaList bs)" for disc
  by unfold_locales (simp add: parse_encoded)

section \<open>The seed format\<close>

datatype seed =
    Literal bytes
  | Instruction_Data nat nat
  | Account_Key nat
  | Account_Data nat nat nat

fun packSeed :: "seed \<Rightarrow> bytes" where
  "packSeed (Literal bs) = [1, of_nat (length bs)] @ bs"
| "packSeed (Instruction_Data i n) = [2, of_nat i, of_nat n]"
| "packSeed (Account_Key i) = [3, of_nat i]"
| "packSeed (Account_Data a i n) = [4, of_nat a, of_nat i, of_nat n]"

fun packedLength :: "seed \<Rightarrow> nat" where
  "packedLength (Literal bs) = 2 + length bs"
| "packedLength (Instruction_Data i n) = 3"
| "packedLength (Account_Key i) = 2"
| "packedLength (Account_Data a i n) = 4"

lemma length_packSeed [byte_simps]: "length (packSeed s) = packedLength s"
  by (cases s) simp_all

fun valid_seed :: "seed \<Rightarrow> bool" where
  "valid_seed (Literal bs) \<longleftrightarrow> length bs < 256"
| "valid_seed (Instruction_Data i n) \<longleftrightarrow> i < 256 \<and> n < 256"
| "valid_seed (Account_Key i) \<longleftrightarrow> i < 256"
| "valid_seed (Account_Data a i n) \<longleftrightarrow> a < 256 \<and> i < 256 \<and> n < 256"

text \<open>The value of one seed, by the rules of the transfer-hook interface.\<close>

fun seedValue ::
  "'w kit \<Rightarrow> 'w rpc \<Rightarrow> account_meta list \<Rightarrow> bytes \<Rightarrow> seed \<Rightarrow> ('w, bytes) task" where
  "seedValue K R previous instructionData (Literal bs) = io_return bs"
| "seedValue K R previous instructionData (Instruction_Data i n) =
     io_return (slice i (i + n) instructionData)"
| "seedValue K R previous instructionData (Account_Key i) =
     (case item previous i of
        None \<Rightarrow> io_throw (hook_error (''transfer hook seed refers to account '' @ show_nat i @
          '', which is not in the list''))
      | Some account \<Rightarrow> io_of (kit_encodeAddress K (am_address account)))"
| "seedValue K R previous instructionData (Account_Data a i n) =
     (case item previous a of
        None \<Rightarrow> io_throw (hook_error (''transfer hook seed refers to account '' @ show_nat a @
          '', which is not in the list''))
      | Some account \<Rightarrow>
          io_bind (fetchData K R (am_address account)) (\<lambda>data.
          case data of
            None \<Rightarrow> io_throw (hook_error (''transfer hook seed reads account '' @
              am_address account @ '', which does not exist''))
          | Some bs \<Rightarrow> io_return (slice i (i + n) bs)))"

lemma unat_of_nat_byte: "n < 256 \<Longrightarrow> unat (of_nat n :: 8 word) = n"
  by (simp add: unat_of_nat)

lemma byteAt_append [simp]:
  "byteAt (pre @ xs) (length pre) = byteAt xs 0"
  "byteAt (pre @ xs) (Suc (length pre)) = byteAt xs 1"
  "byteAt (pre @ xs) (Suc (Suc (length pre))) = byteAt xs 2"
  "byteAt (pre @ xs) (length pre + numeral k) = byteAt xs (numeral k)"
  by (simp_all add: byteAt_def item_def nth_append)

lemma byteAt_simps [simp]:
  "byteAt (x # xs) 0 = Some (unat x)" "byteAt (x # y # xs) (Suc 0) = Some (unat y)"
  "byteAt (x # y # z # xs) 2 = Some (unat z)" "byteAt (x # y # z # u # xs) 3 = Some (unat u)"
  by (simp_all add: byteAt_def item_def)

lemma io_bind_throw [simp]: "io_bind (io_throw e) f = io_throw e"
  by (rule ext) simp

lemma io_bind_case_option:
  "io_bind (case x of None \<Rightarrow> a | Some y \<Rightarrow> b y) f =
     (case x of None \<Rightarrow> io_bind a f | Some y \<Rightarrow> io_bind (b y) f)"
  by (cases x) simp_all

lemma unpack_one:
  assumes "valid_seed s"
  shows "unpackFrom K R (pre @ packSeed s @ rest) previous ixData (length pre) acc =
     io_bind (seedValue K R previous ixData s) (\<lambda>v.
       unpackFrom K R (pre @ packSeed s @ rest) previous ixData (length pre + packedLength s) (acc @ [v]))"
proof (cases s)
  case (Literal bs)
  with assms show ?thesis
    by (subst unpackFrom.simps) (simp add: Let_def unat_of_nat_byte slice_def)
next
  case (Instruction_Data i n)
  with assms show ?thesis
    by (subst unpackFrom.simps) (simp add: Let_def unat_of_nat_byte subarrayAt_def)
next
  case (Account_Key i)
  with assms show ?thesis
    by (subst unpackFrom.simps)
      (simp add: Let_def unat_of_nat_byte previousAt_def show_index_def split: option.splits)
next
  case (Account_Data a i n)
  with assms show ?thesis
    by (subst unpackFrom.simps)
      (simp add: Let_def unat_of_nat_byte previousAt_def show_index_def subarrayAt_def io_bind_assoc
        io_bind_case_option cong: option.case_cong)
qed

lemma unpack_all:
  assumes "\<forall>s \<in> set ss. valid_seed s"
  shows "unpackFrom K R (pre @ concat (map packSeed ss) @ rest) previous ixData (length pre) acc =
     io_bind (io_map (seedValue K R previous ixData) ss) (\<lambda>vs.
       unpackFrom K R (pre @ concat (map packSeed ss) @ rest) previous ixData
         (length pre + length (concat (map packSeed ss))) (acc @ vs))"
  using assms
proof (induction ss arbitrary: pre acc)
  case Nil
  then show ?case by simp
next
  case (Cons s ss)
  let ?config = "pre @ concat (map packSeed (s # ss)) @ rest"
  have IH: "unpackFrom K R ?config previous ixData (length pre + packedLength s) (acc @ [v]) =
      io_bind (io_map (seedValue K R previous ixData) ss) (\<lambda>vs.
        unpackFrom K R ?config previous ixData
          (length pre + packedLength s + length (concat (map packSeed ss))) (acc @ v # vs))" for v
    using Cons.IH [of "pre @ packSeed s" "acc @ [v]"] Cons.prems
    by (simp add: length_packSeed)
  have "unpackFrom K R ?config previous ixData (length pre) acc =
      io_bind (seedValue K R previous ixData s) (\<lambda>v.
        unpackFrom K R ?config previous ixData (length pre + packedLength s) (acc @ [v]))"
    using unpack_one [of s K R pre "concat (map packSeed ss) @ rest"] Cons.prems by simp
  then show ?case by (simp only: IH) (simp add: io_bind_assoc length_packSeed add.assoc)
qed

text \<open>A seed list is padded with zeros to the 32 bytes of the address config.\<close>

definition packSeeds :: "seed list \<Rightarrow> bytes" where
  "packSeeds ss = concat (map packSeed ss) @ zeros (32 - length (concat (map packSeed ss)))"

lemma unpack_stops:
  "unpackFrom K R (pre @ zeros n) previous ixData (length pre) acc = io_return acc"
  by (cases n) (subst unpackFrom.simps, simp add: zeros_def Let_def)+

lemma unpackSeeds_packed:
  assumes "\<forall>s \<in> set ss. valid_seed s"
  shows "unpackSeeds K R (packSeeds ss) previous ixData = io_map (seedValue K R previous ixData) ss"
proof -
  have "unpackSeeds K R (packSeeds ss) previous ixData =
      io_bind (io_map (seedValue K R previous ixData) ss) (\<lambda>vs. io_return vs)"
    using unpack_all [OF assms, of K R "[]" _ previous ixData "[]"]
    by (simp add: unpackSeeds_def packSeeds_def unpack_stops)
  then show ?thesis by (simp add: io_bind_return_right)
qed

section \<open>Properties\<close>

lemma executeData_eq: "executeData amount = Inr (EXECUTE_DISCRIMINATOR @ bigUint64 amount)"
  using set_halves [of EXECUTE_DISCRIMINATOR 8 "bigUint64 amount"]
  by (simp add: executeData_def EXECUTE_DISCRIMINATOR_def)

lemma resolveMetas_Inr:
  "resolveMetas K R ixData hook ms resolved w = (Inr all, w') \<Longrightarrow>
     \<exists>new. all = resolved @ new \<and> length new = length ms \<and>
       list_all2 (\<lambda>m a. am_role a = (if mm_isWritable m then WRITABLE else READONLY) \<and>
         (mm_discriminator m = 0 \<longrightarrow> kit_decodeAddress K (mm_addressConfig m) = Inr (am_address a))) ms new"
proof (induction ms arbitrary: resolved w)
  case Nil
  then show ?case by simp
next
  case (Cons m ms)
  then obtain a w1 where a: "resolveMeta K R m resolved ixData hook w = (Inr a, w1)"
      "resolveMetas K R ixData hook ms (resolved @ [a]) w1 = (Inr all, w')"
    by (auto simp: io_elim)
  have "am_role a = (if mm_isWritable m then WRITABLE else READONLY) \<and>
      (mm_discriminator m = 0 \<longrightarrow> kit_decodeAddress K (mm_addressConfig m) = Inr (am_address a))"
    using a(1) by (auto simp: resolveMeta_def io_elim Let_def split: if_splits option.splits)
  with Cons.IH [OF a(2)] show ?case by (auto intro: exI [of _ "a # _"])
qed

text \<open>Parsing a mint's metadata list gives back the entries that were encoded in it.\<close>

theorem meta_list_roundtrip:
  assumes "length disc = 8" and "\<forall>m \<in> set ms. valid_meta m" and "length ms < 2 ^ 32"
  shows "parseMetaList (encodeMetaList disc ms) = ms"
  by (rule parse_encoded [OF assms])

definition sample_meta :: meta where
  "sample_meta = \<lparr>mm_discriminator = 0, mm_addressConfig = zeros 32, mm_isSigner = False,
     mm_isWritable = True\<rparr>"

definition sample_pda :: meta where
  "sample_pda = \<lparr>mm_discriminator = 1, mm_addressConfig = packSeeds [Literal [9, 8], Account_Key 1],
     mm_isSigner = False, mm_isWritable = False\<rparr>"

lemma sample_metas_valid: "\<forall>m \<in> set [sample_meta, sample_pda]. valid_meta m"
  by (simp add: sample_meta_def sample_pda_def valid_meta_def packSeeds_def)

theorem meta_list_roundtrip_witness:
  "parseMetaList (encodeMetaList (zeros 8) [sample_meta, sample_pda]) = [sample_meta, sample_pda]"
  by (rule meta_list_roundtrip) (use sample_metas_valid in simp_all)

text \<open>Unpacking the seeds packed into an address config gives the value of each seed in order:
  the literal, the slice of the instruction data, the key of the account, or the slice of its data;
  and it fails as the first of them fails.\<close>

theorem seeds_roundtrip:
  assumes "\<forall>s \<in> set ss. valid_seed s"
  shows "unpackSeeds K R (packSeeds ss) previous ixData = io_map (seedValue K R previous ixData) ss"
  by (rule unpackSeeds_packed [OF assms])

theorem seeds_roundtrip_witness:
  "unpackSeeds toy_kit (toy_rpc None rejected)
     (packSeeds [Literal [9, 8], Instruction_Data 1 2, Account_Key 0])
     [\<lparr>am_address = ''k'', am_role = READONLY\<rparr>] [1, 2, 3] 0 = (Inr [[9, 8], [2, 3], [107]], 0)"
  by (subst seeds_roundtrip) (simp, code_simp)

text \<open>C26: The accounts appended for a mint's hook are one for each entry of the metadata list, in
  order, writable exactly when the entry says so, then the hook program and the list, read-only.\<close>

theorem hook_accounts_order:
  assumes "resolveTransferHookAccounts K R input w = (Inr accounts, w')"
    and "getTransferHookProgram R (hi_mint input) w = (Inr (Some hook), w1)"
    and "findExtraAccountMetaListPda K (hi_mint input) hook = Inr pda"
    and "fetchData K R pda w1 = (Inr (Some data), w2)"
  shows "\<exists>extras. accounts = extras @ [\<lparr>am_address = hook, am_role = READONLY\<rparr>,
       \<lparr>am_address = pda, am_role = READONLY\<rparr>] \<and>
     list_all2 (\<lambda>m a. am_role a = (if mm_isWritable m then WRITABLE else READONLY) \<and>
       (mm_discriminator m = 0 \<longrightarrow> kit_decodeAddress K (mm_addressConfig m) = Inr (am_address a)))
       (parseMetaList data) extras"
proof -
  have "\<exists>resolved all ixData w3. length resolved = 5 \<and>
      resolveMetas K R ixData hook (parseMetaList data) resolved w2 = (Inr all, w3) \<and>
      accounts = drop 5 all @ [\<lparr>am_address = hook, am_role = READONLY\<rparr>,
         \<lparr>am_address = pda, am_role = READONLY\<rparr>]"
    using assms
    by (fastforce simp: resolveTransferHookAccounts_def executeData_eq io_elim Let_def
        intro: exI [of _ "[_, _, _, _, _]"])
  then obtain all ixData resolved w3 where all: "length resolved = 5"
      "resolveMetas K R ixData hook (parseMetaList data) resolved w2 = (Inr all, w3)"
      "accounts = drop 5 all @ [\<lparr>am_address = hook, am_role = READONLY\<rparr>,
         \<lparr>am_address = pda, am_role = READONLY\<rparr>]"
    by blast
  from resolveMetas_Inr [OF all(2)] all(1,3) show ?thesis by auto
qed

definition hook_kit :: "nat kit" where
  "hook_kit = toy_kit\<lparr>kit_base64 := (\<lambda>_. Inr (encodeMetaList (zeros 8) [sample_meta]))\<rparr>"

definition hook_rpc :: "nat rpc" where
  "hook_rpc = (toy_rpc None rejected)\<lparr>
     rpc_fetchMint := (\<lambda>_. io_return \<lparr>mt_decimals = 2, mt_extensions = Some [TransferHook (Plain_Id ''hook'')]\<rparr>),
     rpc_getAccountInfo := (\<lambda>_. io_return (Some (Data_Pair ''data'' ''base64'')))\<rparr>"

definition hook_sample :: hook_input where
  "hook_sample = \<lparr>hi_mint = ''m'', hi_sourceToken = ''s'', hi_destinationToken = ''d'',
     hi_owner = ''o'', hi_amount = None\<rparr>"

theorem hook_accounts_order_witness:
  "\<exists>accounts extras. resolveTransferHookAccounts hook_kit hook_rpc hook_sample 0 = (Inr accounts, 0) \<and>
     accounts = extras @ [\<lparr>am_address = ''hook'', am_role = READONLY\<rparr>,
       \<lparr>am_address = ''hook/pda'', am_role = READONLY\<rparr>]"
proof -
  have meta: "parseMetaList (encodeMetaList (zeros 8) [sample_meta]) = [sample_meta]"
    by (rule parse_encoded) (use sample_metas_valid in simp_all)
  have hook: "getTransferHookProgram hook_rpc (hi_mint hook_sample) 0 = (Inr (Some ''hook''), 0)"
    by (simp add: getTransferHookProgram_def hook_rpc_def SYSTEM_PROGRAM_def)
  have pda: "findExtraAccountMetaListPda hook_kit (hi_mint hook_sample) ''hook'' = Inr ''hook/pda''"
    by (simp add: findExtraAccountMetaListPda_def hook_kit_def toy_kit_def idle_kit_def)
  have data: "fetchData hook_kit hook_rpc ''hook/pda'' 0 = (Inr (Some (encodeMetaList (zeros 8) [sample_meta])), 0)"
    by (simp add: fetchData_def hook_rpc_def hook_kit_def)
  obtain a where "kit_decodeAddress hook_kit (zeros 32) = Inr a"
    by (simp add: hook_kit_def toy_kit_def idle_kit_def)
  then have "\<exists>accounts. resolveTransferHookAccounts hook_kit hook_rpc hook_sample 0 = (Inr accounts, 0)"
    by (simp add: resolveTransferHookAccounts_def hook pda data meta executeData_eq resolveMeta_def)
      (simp add: sample_meta_def)
  then obtain accounts where run:
      "resolveTransferHookAccounts hook_kit hook_rpc hook_sample 0 = (Inr accounts, 0)" by blast
  from hook_accounts_order [OF run hook pda data] run show ?thesis by blast
qed

text \<open>A mint without a hook, or whose hook is the system program, needs no extra accounts.\<close>

theorem no_hook_no_accounts:
  assumes "rpc_fetchMint R (hi_mint input) w = (Inr m, w')"
    and "case mt_extensions m of None \<Rightarrow> True
       | Some es \<Rightarrow> \<forall>e \<in> set es. \<forall>p. e = TransferHook p \<longrightarrow>
           program_address p = None \<or> program_address p = Some SYSTEM_PROGRAM"
  shows "resolveTransferHookAccounts K R input w = (Inr [], w')"
proof -
  have none: "case find_map hook_of es of None \<Rightarrow> True
      | Some raw \<Rightarrow> program_address raw = None \<or> program_address raw = Some SYSTEM_PROGRAM"
    if "\<forall>e \<in> set es. \<forall>p. e = TransferHook p \<longrightarrow>
      program_address p = None \<or> program_address p = Some SYSTEM_PROGRAM" for es
    using that
  proof (induction es)
    case Nil
    then show ?case by simp
  next
    case (Cons e es)
    then show ?case by (cases e) auto
  qed
  have "getTransferHookProgram R (hi_mint input) w = (Inr None, w')"
  proof (cases "mt_extensions m")
    case None
    with assms(1) show ?thesis by (simp add: getTransferHookProgram_def)
  next
    case (Some es)
    with assms(2) have "case find_map hook_of es of None \<Rightarrow> True
        | Some raw \<Rightarrow> program_address raw = None \<or> program_address raw = Some SYSTEM_PROGRAM"
      by (intro none) simp
    with assms(1) Some show ?thesis
      by (auto simp: getTransferHookProgram_def split: option.splits)
  qed
  then show ?thesis by (simp add: resolveTransferHookAccounts_def)
qed

theorem no_hook_no_accounts_witness:
  "resolveTransferHookAccounts hook_kit (hook_rpc\<lparr>rpc_fetchMint := (\<lambda>_. io_return
     \<lparr>mt_decimals = 2, mt_extensions = Some [TransferHook (Option_Id None)]\<rparr>)\<rparr>) hook_sample 0 = (Inr [], 0)"
proof (rule no_hook_no_accounts)
  show "case mt_extensions \<lparr>mt_decimals = 2, mt_extensions = Some [TransferHook (Option_Id None)]\<rparr> of
      None \<Rightarrow> True
    | Some es \<Rightarrow> \<forall>e \<in> set es. \<forall>p. e = TransferHook p \<longrightarrow>
        program_address p = None \<or> program_address p = Some SYSTEM_PROGRAM"
    by simp
qed simp

end
