(* ===== verification/Transfers.thy ===== *)
theory Transfers
  imports Operations Transfer_Hook
begin

text \<open>
  The operations that run a proof flow: \<open>src/src/transfer.ts\<close> and \<open>src/src/withdraw.ts\<close>. The
  Ristretto points are the parameter \<open>R\<close> of the ciphertext arithmetic.
\<close>

section \<open>transfer\<close>

record 'w transfer_input = "'w operation_input" +
  tr_destinationOwner :: "address option"
  tr_amount :: numeric
  tr_destinationToken :: "address option"
  tr_auditorElgamalPubkey :: "address option"

record transfer_result =
  to_sourceToken :: address
  to_destinationToken :: address
  to_flow :: proof_flow_result

fun ct_mint_of :: "extension \<Rightarrow> address option option" where
  "ct_mint_of (ConfidentialTransferMint a) = Some a"
| "ct_mint_of _ = None"

definition mintAuditorKey :: "'w rpc \<Rightarrow> address \<Rightarrow> ('w, address option) task" where
  "mintAuditorKey R mintAddress =
     io_bind (rpc_fetchMint R mintAddress) (\<lambda>data.
     io_return (case mt_extensions data of
         None \<Rightarrow> None
       | Some extensions \<Rightarrow>
           (case find_map ct_mint_of extensions of None \<Rightarrow> None | Some a \<Rightarrow> a)))"

definition transferPlanInput ::
  "('w, 'z) transfer_input_scheme \<Rightarrow> address \<Rightarrow> address \<Rightarrow> int \<Rightarrow> token \<Rightarrow> token \<Rightarrow> keypairs \<Rightarrow>
     address option \<Rightarrow> account_meta list \<Rightarrow> transfer_plan_input" where
  "transferPlanInput input source destination amount sourceData destData keys auditor hooks =
     \<lparr>tp_sourceToken = source, tp_mint = in_mint input, tp_destinationToken = destination,
      tp_sourceTokenAccount = sourceData, tp_auditorElgamalPubkey = auditor,
      tp_authority = sg_address (in_owner input), tp_amount = BigInt_v amount,
      tp_sourceElgamalKeypair = elgamalKeypair keys, tp_aesKey = aesKey keys,
      tp_multiSigners = None, tp_transferHookAccounts = Some hooks,
      tp_programAddress = Some (programOf input), tp_payer = in_payer input,
      tp_destinationTokenAccount = Some destData, tp_destinationElgamalPubkey = None\<rparr>"

definition transferAttempt ::
  "'p ristretto \<Rightarrow> 'w kit \<Rightarrow> 'w zk \<Rightarrow> 'w transfer_input \<Rightarrow> address \<Rightarrow> address \<Rightarrow> int \<Rightarrow>
     ('w \<times> keypairs option, proof_flow_result) task" where
  "transferAttempt R K Z input source destination amount =
     io_bind (io_local (promise_all (kit_race K)
       [readConfiguredAccount (in_rpc input) source ''transfer'' ''your'',
        readConfiguredAccount (in_rpc input) destination ''transfer'' ''the recipient's''])) (\<lambda>reads.
     let (sourceData, _) = reads ! 0; (destData, destCt) = reads ! 1 in
     io_bind (io_of (assertCanReceive destCt destination ''transfer'' The_Recipients)) (\<lambda>_.
     io_bind (io_local (resolveTransferHookAccounts K (in_rpc input)
       \<lparr>hi_mint = in_mint input, hi_sourceToken = source, hi_destinationToken = destination,
        hi_owner = sg_address (in_owner input), hi_amount = None\<rparr>)) (\<lambda>hooks.
     io_bind (cachedKeys (ownerKeys K Z (in_owner input) None ''transfer'')) (\<lambda>keys.
     io_bind (io_of (assertKeysMatchAccount K keys sourceData source ''transfer'')) (\<lambda>_.
     io_bind (case tr_auditorElgamalPubkey input of
         Some a \<Rightarrow> io_return (Some a)
       | None \<Rightarrow> io_local (mintAuditorKey (in_rpc input) (in_mint input))) (\<lambda>auditor.
     io_bind (io_local (getConfidentialTransferProofFlow R K Z
       (transferPlanInput input source destination amount sourceData destData keys auditor hooks))) (\<lambda>flow.
     io_local (executeProofFlow K (sendContext input ''transfer'') flow ''transfer''))))))))"

definition destinationOf :: "'w kit \<Rightarrow> ('w, 'z) transfer_input_scheme \<Rightarrow> exn + address" where
  "destinationOf K input =
     (case tr_destinationToken input of
        Some t \<Rightarrow> Inr t
      | None \<Rightarrow>
          (case tr_destinationOwner input of
             None \<Rightarrow> Inl (sdk_error INVALID_INPUT ''transfer''
               ''transfer requires either destinationToken or destinationOwner'')
           | Some owner \<Rightarrow> kit_findAssociatedTokenPda K owner (programOf input) (in_mint input)))"

definition transfer ::
  "'p ristretto \<Rightarrow> 'w kit \<Rightarrow> 'w zk \<Rightarrow> 'w transfer_input \<Rightarrow> ('w, transfer_result) task" where
  "transfer R K Z input =
     io_bind (io_of (toBigInt (tr_amount input))) (\<lambda>amount.
     if amount \<le> 0
     then io_throw (sdk_error INVALID_INPUT ''transfer''
       (''transfer: the amount must be greater than zero, got '' @ show_int amount @ ''.''))
     else
       io_bind (io_of (tokenOf K input)) (\<lambda>source.
       io_bind (io_of (destinationOf K input)) (\<lambda>destination.
       io_bind (withCapturedKeys (in_retries input) (in_keys input)
         (transferAttempt R K Z input source destination amount)) (\<lambda>result.
       io_return \<lparr>to_sourceToken = source, to_destinationToken = destination, to_flow = result\<rparr>))))"

section \<open>withdraw\<close>

record 'w withdraw_input = "'w operation_input" +
  wi_amount :: numeric
  wi_decimals :: nat

record withdraw_result =
  wr_token :: address
  wr_flow :: proof_flow_result

definition withdrawPlanInput ::
  "('w, 'z) withdraw_input_scheme \<Rightarrow> address \<Rightarrow> int \<Rightarrow> token \<Rightarrow> keypairs \<Rightarrow> withdraw_plan_input" where
  "withdrawPlanInput input t amount data keys =
     \<lparr>wp_token = t, wp_mint = in_mint input, wp_tokenAccount = data,
      wp_authority = sg_address (in_owner input), wp_amount = BigInt_v amount,
      wp_decimals = wi_decimals input, wp_elgamalKeypair = elgamalKeypair keys,
      wp_aesKey = aesKey keys, wp_multiSigners = None,
      wp_programAddress = Some (programOf input), wp_payer = in_payer input\<rparr>"

definition withdrawAttempt ::
  "'p ristretto \<Rightarrow> 'w kit \<Rightarrow> 'w zk \<Rightarrow> 'w withdraw_input \<Rightarrow> address \<Rightarrow> int \<Rightarrow>
     ('w \<times> keypairs option, proof_flow_result) task" where
  "withdrawAttempt R K Z input t amount =
     io_bind (io_local (readConfiguredAccount (in_rpc input) t ''withdraw'' ''your'')) (\<lambda>(data, _).
     io_bind (cachedKeys (ownerKeys K Z (in_owner input) None ''withdraw'')) (\<lambda>keys.
     io_bind (io_of (assertKeysMatchAccount K keys data t ''withdraw'')) (\<lambda>_.
     io_bind (io_local (getConfidentialWithdrawProofFlow R K Z
       (withdrawPlanInput input t amount data keys))) (\<lambda>flow.
     io_local (executeProofFlow K (sendContext input ''withdraw'') flow ''withdraw'')))))"

definition withdraw ::
  "'p ristretto \<Rightarrow> 'w kit \<Rightarrow> 'w zk \<Rightarrow> 'w withdraw_input \<Rightarrow> ('w, withdraw_result) task" where
  "withdraw R K Z input =
     io_bind (io_of (toBigInt (wi_amount input))) (\<lambda>amount.
     if amount \<le> 0
     then io_throw (sdk_error INVALID_INPUT ''withdraw''
       (''withdraw amount must be greater than zero, got '' @ show_int amount))
     else
       io_bind (io_of (tokenOf K input)) (\<lambda>t.
       io_bind (withCapturedKeys (in_retries input) (in_keys input) (withdrawAttempt R K Z input t amount))
         (\<lambda>result. io_return \<lparr>wr_token = t, wr_flow = result\<rparr>)))"

section \<open>Facts\<close>

lemma transferAttempt_captured: "io_keeps (captured k) (transferAttempt R K Z input s d a)"
  unfolding transferAttempt_def Let_def by (intro keeps_rules captured_steps)

lemma withdrawAttempt_captured: "io_keeps (captured k) (withdrawAttempt R K Z input t a)"
  unfolding withdrawAttempt_def by (intro keeps_rules captured_steps)

lemma promise_two_reads:
  assumes "promise_all race [t1, t2] w = (Inr reads, w')"
  shows "\<exists>a b w1. t1 w = (Inr a, w1) \<and> t2 w1 = (Inr b, w') \<and> reads = [a, b]"
  using promise_all_Inr_seq [OF assms] by (auto simp: io_elim)

text \<open>What an attempt that returned did.\<close>

definition transfer_done ::
  "'p ristretto \<Rightarrow> 'w kit \<Rightarrow> 'w zk \<Rightarrow> 'w transfer_input \<Rightarrow> address \<Rightarrow> address \<Rightarrow> int \<Rightarrow>
     keypairs \<Rightarrow> proof_flow \<Rightarrow> proof_flow_result \<Rightarrow> 'w \<Rightarrow> bool" where
  "transfer_done R K Z input source destination amount keys flow result w' \<longleftrightarrow>
     (\<exists>sd sct dd dct hooks auditor w1 w2 w3 w4 w5 w6 w7 w8.
        rpc_fetchMaybeToken (in_rpc input) source w1 = (Inr (Some sd), w2) \<and>
        confidentialState sd = Some sct \<and>
        rpc_fetchMaybeToken (in_rpc input) destination w2 = (Inr (Some dd), w3) \<and>
        confidentialState dd = Some dct \<and> approved dct \<and> allowConfidentialCredits dct \<and>
        pendingBalanceCreditCounter dct < maximumPendingBalanceCreditCounter dct \<and>
        resolveTransferHookAccounts K (in_rpc input)
          \<lparr>hi_mint = in_mint input, hi_sourceToken = source, hi_destinationToken = destination,
           hi_owner = sg_address (in_owner input), hi_amount = None\<rparr> w3 = (Inr hooks, w4) \<and>
        kit_decodeAddress K (kp_pubkey (elgamalKeypair keys)) = Inr (elgamalPubkey sct) \<and>
        (case tr_auditorElgamalPubkey input of
           Some a \<Rightarrow> auditor = Some a
         | None \<Rightarrow> mintAuditorKey (in_rpc input) (in_mint input) w5 = (Inr auditor, w6)) \<and>
        getConfidentialTransferProofFlow R K Z
          (transferPlanInput input source destination amount sd dd keys auditor hooks) w7 = (Inr flow, w8) \<and>
        executeProofFlow K (sendContext input ''transfer'') flow ''transfer'' w8 = (Inr result, w'))"

lemma bind_local_Inr:
  "io_bind (io_local m) f ws = (Inr b, ws'') \<longleftrightarrow>
     (\<exists>a w1. m (fst ws) = (Inr a, w1) \<and> f a (w1, snd ws) = (Inr b, ws''))"
  by (cases "m (fst ws)"; cases "fst (m (fst ws))") (auto simp: io_bind_def io_local_def)

lemma bind_of_Inr:
  "io_bind (io_of r) f ws = (Inr b, ws'') \<longleftrightarrow> (\<exists>a. r = Inr a \<and> f a ws = (Inr b, ws''))"
  by (cases r) simp_all

lemma bind_cached_Inr:
  "io_bind (cachedKeys derive) f ws = (Inr b, ws'') \<longleftrightarrow>
     (\<exists>k w1. f k (w1, Some k) = (Inr b, ws'') \<and>
        (if snd ws = None then derive (fst ws) = (Inr k, w1) else snd ws = Some k \<and> w1 = fst ws))"
  by (cases ws; cases "snd ws")
    (auto simp: io_bind_def cachedKeys_set cachedKeys_unset split: prod.splits sum.splits)

lemmas attempt_steps = bind_local_Inr bind_of_Inr bind_cached_Inr

lemma transferAttempt_Inr:
  assumes "transferAttempt R K Z input source destination amount ws = (Inr result, ws')"
  shows "\<exists>keys flow. transfer_done R K Z input source destination amount keys flow result (fst ws') \<and>
     (\<forall>k. snd ws = Some k \<longrightarrow> keys = k)"
proof -
  let ?hook = "\<lparr>hi_mint = in_mint input, hi_sourceToken = source, hi_destinationToken = destination,
           hi_owner = sg_address (in_owner input), hi_amount = None\<rparr>"
  obtain reads w1 u1 u2 hooks w2 keys w3 auditor ws4 flow w5 where steps:
      "promise_all (kit_race K)
         [readConfiguredAccount (in_rpc input) source ''transfer'' ''your'',
          readConfiguredAccount (in_rpc input) destination ''transfer'' ''the recipient's''] (fst ws)
         = (Inr reads, w1)"
      "assertCanReceive (snd (reads ! 1)) destination ''transfer'' The_Recipients = Inr u1"
      "resolveTransferHookAccounts K (in_rpc input) ?hook w1 = (Inr hooks, w2)"
      "if snd ws = None then ownerKeys K Z (in_owner input) None ''transfer'' w2 = (Inr keys, w3)
        else snd ws = Some keys \<and> w3 = w2"
      "assertKeysMatchAccount K keys (fst (reads ! 0)) source ''transfer'' = Inr u2"
      "(case tr_auditorElgamalPubkey input of Some a \<Rightarrow> io_return (Some a)
        | None \<Rightarrow> io_local (mintAuditorKey (in_rpc input) (in_mint input))) (w3, Some keys) = (Inr auditor, ws4)"
      "getConfidentialTransferProofFlow R K Z
        (transferPlanInput input source destination amount (fst (reads ! 0)) (fst (reads ! 1)) keys auditor hooks)
        (fst ws4) = (Inr flow, w5)"
      "executeProofFlow K (sendContext input ''transfer'') flow ''transfer'' w5 = (Inr result, fst ws')"
    using assms
    unfolding transferAttempt_def Let_def case_prod_beta attempt_steps fst_conv snd_conv
      io_bind_eq_Inr [where m = "case_option _ _ _"] io_local_eq_pair
    by blast
  obtain sd sct dd dct where pairs: "reads ! 0 = (sd, sct)" "reads ! 1 = (dd, dct)"
    by (metis prod.exhaust)
  note steps = steps [unfolded pairs fst_conv snd_conv]
  obtain wr where reads: "rpc_fetchMaybeToken (in_rpc input) source (fst ws) = (Inr (Some sd), wr)"
      "confidentialState sd = Some sct"
      "rpc_fetchMaybeToken (in_rpc input) destination wr = (Inr (Some dd), w1)"
      "confidentialState dd = Some dct"
    using promise_two_reads [OF steps(1)] pairs by (auto simp: readConfiguredAccount_Inr)
  have "\<forall>k. snd ws = Some k \<longrightarrow> keys = k"
    using steps(4) by (auto split: if_splits)
  moreover have "case tr_auditorElgamalPubkey input of Some a \<Rightarrow> auditor = Some a
      | None \<Rightarrow> mintAuditorKey (in_rpc input) (in_mint input) w3 = (Inr auditor, fst ws4)"
    using steps(6) by (auto split: option.splits prod.splits)
  moreover have "kit_decodeAddress K (kp_pubkey (elgamalKeypair keys)) = Inr (elgamalPubkey sct)"
    using steps(5) reads(2) by (simp add: assertKeys_Inr)
  ultimately show ?thesis
    using reads steps(2,3,7,8) unfolding transfer_done_def assertCanReceive_Inr by blast
qed

definition withdraw_done ::
  "'p ristretto \<Rightarrow> 'w kit \<Rightarrow> 'w zk \<Rightarrow> 'w withdraw_input \<Rightarrow> address \<Rightarrow> int \<Rightarrow>
     keypairs \<Rightarrow> proof_flow \<Rightarrow> proof_flow_result \<Rightarrow> 'w \<Rightarrow> bool" where
  "withdraw_done R K Z input t amount keys flow result w' \<longleftrightarrow>
     (\<exists>d ct w1 w2 w3 w4.
        rpc_fetchMaybeToken (in_rpc input) t w1 = (Inr (Some d), w2) \<and> confidentialState d = Some ct \<and>
        kit_decodeAddress K (kp_pubkey (elgamalKeypair keys)) = Inr (elgamalPubkey ct) \<and>
        getConfidentialWithdrawProofFlow R K Z (withdrawPlanInput input t amount d keys) w3 = (Inr flow, w4) \<and>
        executeProofFlow K (sendContext input ''withdraw'') flow ''withdraw'' w4 = (Inr result, w'))"

lemma withdrawAttempt_Inr:
  assumes "withdrawAttempt R K Z input t amount ws = (Inr result, ws')"
  shows "\<exists>keys flow. withdraw_done R K Z input t amount keys flow result (fst ws') \<and>
     (\<forall>k. snd ws = Some k \<longrightarrow> keys = k)"
proof -
  obtain p w1 keys w3 u flow w4 where steps:
      "readConfiguredAccount (in_rpc input) t ''withdraw'' ''your'' (fst ws) = (Inr p, w1)"
      "if snd ws = None then ownerKeys K Z (in_owner input) None ''withdraw'' w1 = (Inr keys, w3)
        else snd ws = Some keys \<and> w3 = w1"
      "assertKeysMatchAccount K keys (fst p) t ''withdraw'' = Inr u"
      "getConfidentialWithdrawProofFlow R K Z (withdrawPlanInput input t amount (fst p) keys) w3 = (Inr flow, w4)"
      "executeProofFlow K (sendContext input ''withdraw'') flow ''withdraw'' w4 = (Inr result, fst ws')"
    using assms
    unfolding withdrawAttempt_def case_prod_beta attempt_steps fst_conv snd_conv io_local_eq_pair
    by blast
  obtain d ct where p: "p = (d, ct)" by force
  have read: "rpc_fetchMaybeToken (in_rpc input) t (fst ws) = (Inr (Some d), w1)"
      "confidentialState d = Some ct"
    using steps(1) by (simp_all add: p readConfiguredAccount_Inr)
  have "kit_decodeAddress K (kp_pubkey (elgamalKeypair keys)) = Inr (elgamalPubkey ct)"
    using steps(3) read(2) by (simp add: p assertKeys_Inr)
  moreover have "\<forall>k. snd ws = Some k \<longrightarrow> keys = k" using steps(2) by (auto split: if_splits)
  ultimately show ?thesis
    using read steps(4,5) unfolding withdraw_done_def p fst_conv by blast
qed

lemma transfer_parts:
  assumes "transfer R K Z input w = (Inr r, w')"
  shows "\<exists>a keys flow. toBigInt (tr_amount input) = Inr a \<and> 0 < a \<and>
     tokenOf K input = Inr (to_sourceToken r) \<and> destinationOf K input = Inr (to_destinationToken r) \<and>
     (\<forall>k. in_keys input = Some k \<longrightarrow> keys = k) \<and>
     transfer_done R K Z input (to_sourceToken r) (to_destinationToken r) a keys flow (to_flow r) w'"
proof -
  obtain a source destination result w0 where run: "toBigInt (tr_amount input) = Inr a" "0 < a"
      "tokenOf K input = Inr source" "destinationOf K input = Inr destination"
      "withCapturedKeys (in_retries input) (in_keys input) (transferAttempt R K Z input source destination a) w0
        = (Inr result, w')"
      "r = \<lparr>to_sourceToken = source, to_destinationToken = destination, to_flow = result\<rparr>"
    using assms by (auto simp: transfer_def io_elim split: if_splits)
  obtain ws ws' where att: "transferAttempt R K Z input source destination a ws = (Inr result, ws')"
      "fst ws' = w'" "\<forall>k. in_keys input = Some k \<longrightarrow> snd ws = Some k"
    using withCapturedKeys_attempt [OF run(5) transferAttempt_captured] by blast
  from transferAttempt_Inr [OF att(1)] att(2,3) run show ?thesis by auto
qed

lemma withdraw_parts:
  assumes "withdraw R K Z input w = (Inr r, w')"
  shows "\<exists>a keys flow. toBigInt (wi_amount input) = Inr a \<and> 0 < a \<and> tokenOf K input = Inr (wr_token r) \<and>
     (\<forall>k. in_keys input = Some k \<longrightarrow> keys = k) \<and>
     withdraw_done R K Z input (wr_token r) a keys flow (wr_flow r) w'"
proof -
  obtain a t result w0 where run: "toBigInt (wi_amount input) = Inr a" "0 < a"
      "tokenOf K input = Inr t"
      "withCapturedKeys (in_retries input) (in_keys input) (withdrawAttempt R K Z input t a) w0
        = (Inr result, w')"
      "r = \<lparr>wr_token = t, wr_flow = result\<rparr>"
    using assms by (auto simp: withdraw_def io_elim split: if_splits)
  obtain ws ws' where att: "withdrawAttempt R K Z input t a ws = (Inr result, ws')"
      "fst ws' = w'" "\<forall>k. in_keys input = Some k \<longrightarrow> snd ws = Some k"
    using withCapturedKeys_attempt [OF run(4) withdrawAttempt_captured] by blast
  from withdrawAttempt_Inr [OF att(1)] att(2,3) run show ?thesis by auto
qed

text \<open>A flow the operation ran to its end was one whose checks passed on the account it read.\<close>

lemma transfer_done_checks:
  assumes "transfer_done R K Z input s t a keys flow result w'"
  shows "\<exists>d ct b w1 w2. rpc_fetchMaybeToken (in_rpc input) s w1 = (Inr (Some d), w2) \<and>
     confidentialState d = Some ct \<and> a \<le> MAX_TRANSFER_AMOUNT \<and> a \<le> b \<and>
     ae_decrypts Z (aesKey keys) (decryptableAvailableBalance ct) b"
proof -
  obtain sd dd auditor hooks w1 w2 w7 w8 where
    read: "rpc_fetchMaybeToken (in_rpc input) s w1 = (Inr (Some sd), w2)" and
    flow: "getConfidentialTransferProofFlow R K Z
      (transferPlanInput input s t a sd dd keys auditor hooks) w7 = (Inr flow, w8)"
    using assms unfolding transfer_done_def by blast
  have "\<exists>ct b. confidentialState sd = Some ct \<and> a \<le> MAX_TRANSFER_AMOUNT \<and> a \<le> b \<and>
      ae_decrypts Z (aesKey keys) (decryptableAvailableBalance ct) b"
    using transfer_flow_checks [OF flow] by (auto simp: transferPlanInput_def)
  with read show ?thesis by blast
qed

lemma withdraw_done_checks:
  assumes "withdraw_done R K Z input t a keys flow result w'"
  shows "\<exists>d ct b w1 w2. rpc_fetchMaybeToken (in_rpc input) t w1 = (Inr (Some d), w2) \<and>
     confidentialState d = Some ct \<and> a \<le> b \<and>
     ae_decrypts Z (aesKey keys) (decryptableAvailableBalance ct) b"
proof -
  obtain d w1 w2 w3 w4 where
    read: "rpc_fetchMaybeToken (in_rpc input) t w1 = (Inr (Some d), w2)" and
    flow: "getConfidentialWithdrawProofFlow R K Z (withdrawPlanInput input t a d keys) w3 = (Inr flow, w4)"
    using assms unfolding withdraw_done_def by blast
  have "\<exists>ct b. confidentialState d = Some ct \<and> a \<le> b \<and>
      ae_decrypts Z (aesKey keys) (decryptableAvailableBalance ct) b"
    using withdraw_flow_checks [OF flow] by (auto simp: withdrawPlanInput_def)
  with read show ?thesis by blast
qed

section \<open>Properties\<close>


text \<open>C7: The amount of a transfer that returned was positive, at most \<open>2 ^ 48 - 1\<close> and covered by
  the available balance that the keys decrypted in the source account the operation read.\<close>

theorem transfer_within_balance:
  assumes "transfer R K Z input w = (Inr r, w')"
  shows "\<exists>a b d ct keys w1 w2. toBigInt (tr_amount input) = Inr a \<and> 0 < a \<and> a < 2 ^ 48 \<and> a \<le> b \<and>
     rpc_fetchMaybeToken (in_rpc input) (to_sourceToken r) w1 = (Inr (Some d), w2) \<and>
     confidentialState d = Some ct \<and> (\<forall>k. in_keys input = Some k \<longrightarrow> keys = k) \<and>
     ae_decrypts Z (aesKey keys) (decryptableAvailableBalance ct) b"
proof -
  obtain a keys flow where a: "toBigInt (tr_amount input) = Inr a" "0 < a"
      "\<forall>k. in_keys input = Some k \<longrightarrow> keys = k" and
    ran: "transfer_done R K Z input (to_sourceToken r) (to_destinationToken r) a keys flow (to_flow r) w'"
    using transfer_parts [OF assms] by blast
  obtain d ct b w1 w2 where checks: "rpc_fetchMaybeToken (in_rpc input) (to_sourceToken r) w1 = (Inr (Some d), w2)"
      "confidentialState d = Some ct" "a \<le> MAX_TRANSFER_AMOUNT" "a \<le> b"
      "ae_decrypts Z (aesKey keys) (decryptableAvailableBalance ct) b"
    using transfer_done_checks [OF ran] by blast
  have "a < 2 ^ 48" using checks(3) by (simp add: max_transfer_amount)
  with a checks show ?thesis by blast
qed

text \<open>A transfer of nothing or less, or without a destination, is refused before anything is
  read or sent.\<close>

theorem transfer_bad_input:
  assumes "toBigInt (tr_amount input) = Inr a" and "tokenOf K input = Inr source"
    and "a \<le> 0 \<or> tr_destinationToken input = None \<and> tr_destinationOwner input = None"
  shows "\<exists>e. transfer R K Z input w = (Inl e, w) \<and> refused_with INVALID_INPUT ''transfer'' e"
  using assms by (cases "a \<le> 0") (simp_all add: transfer_def destinationOf_def)

text \<open>A transfer to an account that cannot take another confidential credit is refused with the
  code that says why after the two reads, whatever the number of retries: no key is asked for, no
  proof is built and nothing is sent.\<close>

theorem transfer_refused_by_recipient:
  assumes "toBigInt (tr_amount input) = Inr a" "0 < a"
    and "tokenOf K input = Inr source" and "destinationOf K input = Inr destination"
    and "rpc_fetchMaybeToken (in_rpc input) source w = (Inr (Some sd), w1)" "confidentialState sd = Some sct"
    and "rpc_fetchMaybeToken (in_rpc input) destination w1 = (Inr (Some dd), w2)" "confidentialState dd = Some dct"
    and "\<not> (approved dct \<and> allowConfidentialCredits dct \<and>
      pendingBalanceCreditCounter dct < maximumPendingBalanceCreditCounter dct)"
  shows "\<exists>e. transfer R K Z input w = (Inl e, w2) \<and> refused_with (refusal_code dct) ''transfer'' e"
proof -
  have reads: "promise_all (kit_race K)
       [readConfiguredAccount (in_rpc input) source ''transfer'' ''your'',
        readConfiguredAccount (in_rpc input) destination ''transfer'' ''the recipient's''] w
      = (Inr [(sd, sct), (dd, dct)], w2)"
    using assms(5-8) by (simp add: promise_all_def readConfiguredAccount_Inr [THEN iffD2])
  obtain e where e: "assertCanReceive dct destination ''transfer'' The_Recipients = Inl e"
    using assms(9) assertCanReceive_Inr by (metis sum.exhaust)
  note refused = assertCanReceive_Inl [OF e]
  have "transferAttempt R K Z input source destination a (w, ks) = (Inl e, (w2, ks))" for ks
    by (simp add: transferAttempt_def reads e)
  then have "withRetries (in_retries input) (transferAttempt R K Z input source destination a) (w, in_keys input)
      = (Inl e, (w2, in_keys input))"
    by (rule withRetries_not_repeated) (rule refused_withD(3) [OF refused])
  then show ?thesis
    using refused assms(1-4) by (simp add: transfer_def withCapturedKeys_def)
qed


subsection \<open>Witnesses\<close>

definition hookless :: "nat operation_input \<Rightarrow> nat operation_input" where
  "hookless input = input\<lparr>in_rpc := (in_rpc input)\<lparr>rpc_fetchMint := (\<lambda>_.
     io_return \<lparr>mt_decimals = 2, mt_extensions = Some [ConfidentialTransferMint None]\<rparr>)\<rparr>\<rparr>"

definition transfer_of :: "int \<Rightarrow> token \<Rightarrow> address option \<Rightarrow> nat transfer_input" where
  "transfer_of a account owner = operation_input.extend (hookless (op_input (Some account)))
     \<lparr>tr_destinationOwner = owner, tr_amount = BigInt_v a, tr_destinationToken = None,
      tr_auditorElgamalPubkey = None\<rparr>"

definition withdraw_of :: "int \<Rightarrow> nat withdraw_input" where
  "withdraw_of a = operation_input.extend (op_input (Some (token_with 0 1000)))
     \<lparr>wi_amount = BigInt_v a, wi_decimals = 2\<rparr>"

text \<open>A planner that packs the whole flow into one transaction.\<close>

definition bundle_kit :: "nat kit" where
  "bundle_kit = toy_kit\<lparr>kit_planner := (\<lambda>payer p. io_return [\<lparr>msg_feePayer = payer,
     msg_lifetime = None, msg_instructions = flat_plan p\<rparr>])\<rparr>"

lemma bundle_signs:
  "signTransactionMessagesTogether bundle_kit
     [\<lparr>msg_feePayer = signer_named p, msg_lifetime = Some some_lifetime, msg_instructions = ixs\<rparr>] some_lifetime w =
     (Inr [sample_signed p], w)"
  by code_simp

lemma bundle_executes:
  assumes "ctx_rpc ctx = op_rpc account \<or> ctx_rpc ctx = in_rpc (hookless (op_input account))"
    and "ctx_payer ctx = signer_named p" and "ctx_computeUnitPrice ctx = None"
  shows "executeProofFlow bundle_kit ctx flow step w =
     (Inr \<lparr>fr_signatures = [''sig''], fr_proofAccountsLeftOpen = []\<rparr>, Suc w)"
proof -
  have rpc: "rpc_getLatestBlockhash (ctx_rpc ctx) = io_return some_lifetime"
      "rpc_simulateTransaction (ctx_rpc ctx) = (\<lambda>_. io_return \<lparr>sim_err = None, sim_logs = None\<rparr>)"
      "rpc_sendAndConfirm (ctx_rpc ctx) = (\<lambda>_ n. (Inr (), Suc n))"
    using assms(1) by (auto simp: op_rpc_def toy_rpc_def hookless_def op_input_def)
  have plan: "kit_planner bundle_kit payer q v = (Inr [\<lparr>msg_feePayer = payer, msg_lifetime = None,
      msg_instructions = flat_plan q\<rparr>], v)" for payer q v
    by (simp add: bundle_kit_def)
  have send: "simulateAndSend bundle_kit ctx tx step v = (Inr ''sig'', Suc v)" for tx step v
    by (simp add: simulateAndSend_Inr rpc) (simp add: bundle_kit_def toy_kit_def idle_kit_def)
  have "prepareFlow bundle_kit ctx flow w = (Inr (findIndex (\<lambda>m. pf_action flow \<in> set (msg_instructions m))
      [\<lparr>msg_feePayer = signer_named p, msg_lifetime = None, msg_instructions = flat_plan (proofFlowToPlan flow)\<rparr>],
      [sample_signed p]), w)"
    by (simp add: prepareFlow_def Let_def plan latestLifetime_def rpc withPriorityFee_def assms(2,3) bundle_signs)
  then show ?thesis by (simp add: executeProofFlow_def Let_def send)
qed

lemma bundle_facts:
  "proof_client_ok bundle_kit"
  "kit_decodeAddress bundle_kit = kit_decodeAddress toy_kit"
  "tokenOf bundle_kit input = tokenOf toy_kit input"
  by (simp_all add: proof_client_ok_def bundle_kit_def toy_kit_def tokenOf_def
      split: option.split)

lemma bundle_keys_match: "assertKeysMatchAccount bundle_kit some_keys (token_with p b) t op = Inr ()"
  using some_keys_match [of b]
  by (simp add: assertKeys_Inr [OF confidentialState_token_with] bundle_facts(2))

lemma withdraw_fields:
  "in_rpc (withdraw_of a) = op_rpc (Some (token_with 0 1000))" "in_keys (withdraw_of a) = Some some_keys"
  "in_payer (withdraw_of a) = signer_named ''payer''" "in_computeUnitPrice (withdraw_of a) = None"
  "wi_amount (withdraw_of a) = BigInt_v a" "in_retries (withdraw_of a) = Some 1"
  "tokenOf toy_kit (withdraw_of a) = Inr ''alice/mint''"
  by (simp_all add: withdraw_of_def op_input_def operation_input.defs tokenOf_def toy_kit_def
      idle_kit_def signer_named_def)

lemma withdraw_runs:
  "\<exists>w'. withdraw byte_group bundle_kit toy_zk (withdraw_of 400) 0 =
     (Inr \<lparr>wr_token = ''alice/mint'', wr_flow = \<lparr>fr_signatures = [''sig''], fr_proofAccountsLeftOpen = []\<rparr>\<rparr>, w')"
proof -
  let ?in = "withdraw_of 400"
  let ?flow = "\<lparr>fr_signatures = [''sig''], fr_proofAccountsLeftOpen = []\<rparr>"
  let ?plan = "withdrawPlanInput ?in ''alice/mint'' 400 (token_with 0 1000) some_keys"
  have read: "readConfiguredAccount (in_rpc ?in) t op whose w = (Inr (token_with 0 1000, ct_with 1000), w)"
    for t op whose w
    by (simp add: readConfiguredAccount_Inr withdraw_fields op_rpc_def)
  have "io_yields (getConfidentialWithdrawProofFlow byte_group bundle_kit toy_zk ?plan) 0 (\<lambda>flow _. True)"
    using withdraw_flow_yields [OF byte_group_ok toy_zk_documented bundle_facts(1),
        where b = 1000 and a = 400 and scalar = "\<lambda>_. 5" and keys = UNIV and w = 0 and input = ?plan]
    by (simp add: withdrawPlanInput_def withdraw_fields toy_holds_balance io_yields_def) blast
  then obtain flow w1 where flow:
      "getConfidentialWithdrawProofFlow byte_group bundle_kit toy_zk ?plan 0 = (Inr flow, w1)"
    by (auto simp: io_yields_def)
  have ctx: "executeProofFlow bundle_kit (sendContext ?in op) flow op v = (Inr ?flow, Suc v)" for op v
    by (rule bundle_executes [where account = "Some (token_with 0 1000)"])
      (simp_all add: sendContext_def withdraw_fields)
  have "withdrawAttempt byte_group bundle_kit toy_zk ?in ''alice/mint'' 400 (0, Some some_keys) =
      (Inr ?flow, (Suc w1, Some some_keys))"
    by (simp add: withdrawAttempt_def read cachedKeys_set bundle_keys_match flow ctx)
  then show ?thesis
    by (simp add: withdraw_def withdraw_fields bundle_facts(3) withCapturedKeys_def withRetries_first)
qed


lemma transfer_fields:
  "in_rpc (transfer_of a t owner) = in_rpc (hookless (op_input (Some t)))"
  "in_keys (transfer_of a t owner) = Some some_keys"
  "in_payer (transfer_of a t owner) = signer_named ''payer''"
  "in_computeUnitPrice (transfer_of a t owner) = None" "in_mint (transfer_of a t owner) = ''mint''"
  "tr_amount (transfer_of a t owner) = BigInt_v a" "in_retries (transfer_of a t owner) = Some 1"
  "tr_destinationToken (transfer_of a t owner) = None" "tr_destinationOwner (transfer_of a t owner) = owner"
  "tr_auditorElgamalPubkey (transfer_of a t owner) = None"
  "tokenOf toy_kit (transfer_of a t owner) = Inr ''alice/mint''"
  "destinationOf toy_kit (transfer_of a t (Some o')) = Inr (o' @ ''/mint'')"
  "rpc_fetchMaybeToken (in_rpc (transfer_of a t owner)) x w = (Inr (Some t), w)"
  by (simp_all add: transfer_of_def hookless_def op_input_def operation_input.defs tokenOf_def toy_kit_def
      idle_kit_def signer_named_def op_rpc_def destinationOf_def)

theorem transfer_bad_input_witness:
  "\<exists>e. transfer byte_group toy_kit toy_zk (transfer_of 600 (token_with 0 1000) None) 0 = (Inl e, 0) \<and>
     refused_with INVALID_INPUT ''transfer'' e"
  by (rule transfer_bad_input [of _ 600 _ "''alice/mint''"]) (simp_all add: transfer_fields)

definition closed_account :: token where
  "closed_account = \<lparr>tk_amount = 0, tk_extensions = Some [ConfidentialTransferAccount
     ((ct_with 1000)\<lparr>allowConfidentialCredits := False\<rparr>)]\<rparr>"

theorem transfer_refused_by_recipient_witness:
  "\<exists>e. transfer byte_group toy_kit toy_zk (transfer_of 600 closed_account (Some ''bob'')) 0 = (Inl e, 0) \<and>
     refused_with RECIPIENT_REJECTS_CONFIDENTIAL ''transfer'' e"
proof -
  let ?ct = "(ct_with 1000)\<lparr>allowConfidentialCredits := False\<rparr>"
  have ct: "confidentialState closed_account = Some ?ct"
    by (simp add: confidentialState_def closed_account_def)
  have "refusal_code ?ct = RECIPIENT_REJECTS_CONFIDENTIAL" by (simp add: refusal_code_def ct_with_def)
  then show ?thesis
    using transfer_refused_by_recipient [OF _ _ transfer_fields(11) transfer_fields(12) transfer_fields(13) ct
        transfer_fields(13) ct, where a = 600 and R = byte_group and Z = toy_zk] by (simp add: transfer_fields)
qed

text \<open>Such an environment carries out any covered transfer between accounts that hold the same balance.\<close>

lemma bundle_transfer:
  assumes rpc: "in_rpc input = in_rpc (hookless (op_input (Some (token_with 0 b))))"
    and amount: "tr_amount input = BigInt_v a" "0 < a" "a \<le> b" "b < 2 ^ 48"
    and accounts: "tokenOf toy_kit input = Inr source" "destinationOf bundle_kit input = Inr destination"
    and keys: "\<And>w. cachedKeys (ownerKeys bundle_kit toy_zk (in_owner input) None ''transfer'') (w, in_keys input) =
        (Inr some_keys, (w, Some some_keys))"
    and payer: "in_payer input = signer_named p" "in_computeUnitPrice input = None"
    and auditor: "tr_auditorElgamalPubkey input = None \<or> tr_auditorElgamalPubkey input = Some ''k''"
  shows "\<exists>w'. transfer byte_group bundle_kit toy_zk input w =
     (Inr \<lparr>to_sourceToken = source, to_destinationToken = destination,
        to_flow = \<lparr>fr_signatures = [''sig''], fr_proofAccountsLeftOpen = []\<rparr>\<rparr>, w')"
proof -
  let ?t = "token_with 0 b"
  let ?flow = "\<lparr>fr_signatures = [''sig''], fr_proofAccountsLeftOpen = []\<rparr>"
  let ?plan = "transferPlanInput input source destination a ?t ?t some_keys (tr_auditorElgamalPubkey input) []"
  have read: "readConfiguredAccount (in_rpc input) x op whose w = (Inr (?t, ct_with b), w)" for x op whose w
    by (simp add: readConfiguredAccount_Inr rpc hookless_def op_input_def op_rpc_def)
  have mint: "rpc_fetchMint (in_rpc input) x w =
      (Inr \<lparr>mt_decimals = 2, mt_extensions = Some [ConfidentialTransferMint None]\<rparr>, w)" for x w
    by (simp add: rpc hookless_def)
  have hooks: "resolveTransferHookAccounts bundle_kit (in_rpc input) h w = (Inr [], w)" for h w
    by (simp add: resolveTransferHookAccounts_def getTransferHookProgram_def mint Let_def)
  have aud: "(case tr_auditorElgamalPubkey input of Some x \<Rightarrow> io_return (Some x)
      | None \<Rightarrow> io_local (mintAuditorKey (in_rpc input) (in_mint input))) v = (Inr (tr_auditorElgamalPubkey input), v)"
    for v :: "nat \<times> keypairs option"
    using auditor by (cases v) (auto simp: mintAuditorKey_def mint io_local_def)
  have dest: "getDestinationElGamalPubkey bundle_kit toy_zk ?plan = Inr [107]"
    by (simp add: getDestinationElGamalPubkey_def transferPlanInput_def token_with_def ct_with_def
        getRequiredConfidentialTransferAccountExtension_def getElGamalPubkeyFromAddress_def
        bundle_kit_def toy_kit_def toy_zk_def idle_kit_def idle_zk_def)
  have "\<exists>ap. auditor_key bundle_kit toy_zk ?plan = Inr ap"
    using auditor by (auto simp: auditor_key_def transferPlanInput_def getDefaultAuditorElGamalPubkey_def
        getElGamalPubkeyFromAddress_def bundle_kit_def toy_kit_def toy_zk_def idle_kit_def idle_zk_def)
  then obtain ap where ap: "auditor_key bundle_kit toy_zk ?plan = Inr ap" ..
  have "io_yields (getConfidentialTransferProofFlow byte_group bundle_kit toy_zk ?plan) w (\<lambda>flow _. True)"
    using transfer_flow_yields [OF byte_group_ok toy_zk_documented bundle_facts(1) _ _ _ _ _ _ dest ap,
        where b = b and a = a and scalar = "\<lambda>_. 5" and keys = UNIV and w = w] amount
    by (simp add: transferPlanInput_def toy_holds_balance io_yields_def max_transfer_amount) blast
  then obtain flow w1 where flow:
      "getConfidentialTransferProofFlow byte_group bundle_kit toy_zk ?plan w = (Inr flow, w1)"
    by (auto simp: io_yields_def)
  have ctx: "executeProofFlow bundle_kit (sendContext input op) flow op v = (Inr ?flow, Suc v)" for op v
    by (rule bundle_executes [where account = "Some ?t"]) (simp_all add: sendContext_def rpc payer)
  have receives: "assertCanReceive (ct_with b) x op r = Inr ()" for x op r
    by (simp add: assertCanReceive_Inr ct_with_def)
  have "transferAttempt byte_group bundle_kit toy_zk input source destination a (w, in_keys input) =
      (Inr ?flow, (Suc w1, Some some_keys))"
    by (simp add: transferAttempt_def promise_all_def read receives hooks keys bundle_keys_match
        io_bind_def [of "case tr_auditorElgamalPubkey input of Some x \<Rightarrow> m x | None \<Rightarrow> n" for m n] aud flow ctx)
  then show ?thesis
    using amount by (simp add: transfer_def accounts bundle_facts(3) withCapturedKeys_def withRetries_first)
qed

lemma transfer_runs:
  "\<exists>w'. transfer byte_group bundle_kit toy_zk (transfer_of 600 (token_with 0 1000) (Some ''bob'')) 0 =
     (Inr \<lparr>to_sourceToken = ''alice/mint'', to_destinationToken = ''bob/mint'',
        to_flow = \<lparr>fr_signatures = [''sig''], fr_proofAccountsLeftOpen = []\<rparr>\<rparr>, w')"
  by (rule bundle_transfer [where b = 1000 and a = 600 and p = "''payer''"])
    (simp_all add: transfer_fields cachedKeys_set,
     simp add: destinationOf_def transfer_fields bundle_kit_def toy_kit_def idle_kit_def)


theorem transfer_within_balance_witness:
  "\<exists>b. 600 \<le> b \<and> ae_decrypts (toy_zk :: nat zk) (aesKey some_keys) (bigUint64 1000) b"
proof -
  let ?in = "transfer_of 600 (token_with 0 1000) (Some ''bob'')"
  from transfer_runs obtain r w' where
    run: "transfer byte_group bundle_kit toy_zk ?in 0 = (Inr r, w')" by blast
  obtain a b d ct keys w1 w2 where "toBigInt (tr_amount ?in) = Inr a" "a \<le> b"
      "rpc_fetchMaybeToken (in_rpc ?in) (to_sourceToken r) w1 = (Inr (Some d), w2)"
      "confidentialState d = Some ct" "\<forall>k. in_keys ?in = Some k \<longrightarrow> keys = k"
      "ae_decrypts (toy_zk :: nat zk) (aesKey keys) (decryptableAvailableBalance ct) b"
    using transfer_within_balance [OF run] by blast
  then have "600 \<le> b" "ae_decrypts (toy_zk :: nat zk) (aesKey some_keys) (bigUint64 1000) b"
    by (auto simp: transfer_fields(2,6,13) ct_with_def)
  then show ?thesis by blast
qed

end
