(* ===== verification/Balances.thy ===== *)
theory Balances
  imports Transfers
begin

text \<open>
  Operations that follow each other: what \<open>decryptBalance\<close> of \<open>src/src/decryptBalance.ts\<close> reads
  after a transfer (\<open>src/src/transfer.ts\<close>) or a withdraw (\<open>src/src/withdraw.ts\<close>) that returned. The
  node and the program in between are not part of the code: the account read afterwards is one in
  which the new balance of the confirmed instruction is stored.
\<close>

section \<open>What an action stores\<close>

text \<open>The zk-sdk decrypts to a \<open>u64\<close>.\<close>

definition ae_u64 :: "'w zk \<Rightarrow> bool" where
  "ae_u64 Z \<longleftrightarrow> (\<forall>key c v. zk_aeDecrypt Z key c = Inr v \<longrightarrow> 0 \<le> v \<and> v < 2 ^ 64)"

lemma remaining_stored:
  assumes "ae_ok Z" "ae_u64 Z" "ae_decrypts Z key old b" "0 \<le> a" "a \<le> b"
    and "zk_aeEncrypt Z key (b - a) v = (Inr new, v')"
  shows "ae_decrypts Z key new (b - a)"
proof -
  have "b < 2 ^ 64" using assms(2,3) unfolding ae_u64_def ae_decrypts_def by blast
  then show ?thesis using assms(4,5) by (intro ae_encrypted [OF assms(1) _ _ assms(6)]) simp_all
qed

lemma transfer_flow_stores:
  assumes "getConfidentialTransferProofFlow R K Z input w = (Inr flow, w')"
  shows "\<exists>ct a b args prog v v'. confidentialState (tp_sourceTokenAccount input) = Some ct \<and>
     toBigInt (tp_amount input) = Inr a \<and> a \<le> b \<and>
     ae_decrypts Z (tp_aesKey input) (decryptableAvailableBalance ct) b \<and>
     ix_call (pf_action flow) = ConfidentialTransfer args prog \<and> ta_sourceToken args = tp_sourceToken input \<and>
     zk_aeEncrypt Z (tp_aesKey input) (b - a) v = (Inr (ta_newSourceDecryptableAvailableBalance args), v')"
  using assms unfolding getConfidentialTransferProofFlow_def
  by (clarsimp simp: io_elim required_extension_Inr split_transfer_amount
      computeNewAvailableBalance_Inr decryptAvailableBalance_Inr Let_def split: if_splits) blast

lemma withdraw_flow_stores:
  assumes "getConfidentialWithdrawProofFlow R K Z input w = (Inr flow, w')"
  shows "\<exists>ct a b args prog v v'. confidentialState (wp_tokenAccount input) = Some ct \<and>
     toBigInt (wp_amount input) = Inr a \<and> a \<le> b \<and>
     ae_decrypts Z (wp_aesKey input) (decryptableAvailableBalance ct) b \<and>
     ix_call (pf_action flow) = ConfidentialWithdraw args prog \<and> wa_token args = wp_token input \<and>
     zk_aeEncrypt Z (wp_aesKey input) (b - a) v = (Inr (wa_newDecryptableAvailableBalance args), v')"
  using assms unfolding getConfidentialWithdrawProofFlow_def
  by (clarsimp simp: io_elim required_extension_Inr
      computeNewAvailableBalance_Inr decryptAvailableBalance_Inr Let_def split: if_splits) blast

section \<open>The balance read afterwards\<close>

text \<open>A later reading of account \<open>t\<close> with the same keys, in which the AES ciphertext \<open>stored\<close> is found.\<close>

definition finds_stored :: "'w kit \<Rightarrow> 'w operation_input \<Rightarrow> address \<Rightarrow> keypairs \<Rightarrow> address \<Rightarrow> bytes \<Rightarrow> 'w \<Rightarrow> 'w \<Rightarrow> bool" where
  "finds_stored K later t keys owner_key stored v v' \<longleftrightarrow>
     tokenOf K later = Inr t \<and> in_keys later = Some keys \<and>
     (\<exists>d ct. rpc_fetchMaybeToken (in_rpc later) t v = (Inr (Some d), v') \<and> confidentialState d = Some ct \<and>
        elgamalPubkey ct = owner_key \<and> decryptableAvailableBalance ct = stored)"

lemma stored_balance_read:
  assumes "finds_stored K later t keys owner_key stored v v'"
    and "kit_decodeAddress K (kp_pubkey (elgamalKeypair keys)) = Inr owner_key"
    and "ae_decrypts Z (aesKey keys) stored x"
  shows "decryptBalance K Z later v = (Inr x, v')"
proof -
  obtain d ct where d: "tokenOf K later = Inr t" "in_keys later = Some keys"
      "rpc_fetchMaybeToken (in_rpc later) t v = (Inr (Some d), v')" "confidentialState d = Some ct"
      "elgamalPubkey ct = owner_key" "decryptableAvailableBalance ct = stored"
    using assms(1) unfolding finds_stored_def by blast
  have "readConfiguredAccount (in_rpc later) t op whose v = (Inr (d, ct), v')" for op whose
    using d by (simp add: readConfiguredAccount_Inr)
  moreover have "assertKeysMatchAccount K keys d t op = Inr ()" for op
    using d assms(2) by (simp add: assertKeys_Inr)
  moreover obtain c where "zk_aeFromBytes Z stored = Some c" "zk_aeDecrypt Z (aesKey keys) c = Inr x"
    using assms(3) unfolding ae_decrypts_def by blast
  ultimately show ?thesis
    by (simp add: decryptBalance_def d ownerKeys_def ensureZk_def)
qed

section \<open>Properties\<close>

text \<open>
  What a spending operation that returned has read and confirmed: source account \<open>t\<close> held \<open>b\<close>
  under the keys, and the instruction \<open>call\<close> of the flow replaces its AES ciphertext by \<open>stored\<close>.
\<close>

definition spent :: "'w kit \<Rightarrow> 'w zk \<Rightarrow> 'w rpc \<Rightarrow> address \<Rightarrow> keypairs \<Rightarrow> address \<Rightarrow> int \<Rightarrow> bool" where
  "spent K Z R t keys owner_key b \<longleftrightarrow>
     (\<exists>d ct w1 w2. rpc_fetchMaybeToken R t w1 = (Inr (Some d), w2) \<and> confidentialState d = Some ct \<and>
        owner_key = elgamalPubkey ct \<and>
        kit_decodeAddress K (kp_pubkey (elgamalKeypair keys)) = Inr (elgamalPubkey ct) \<and>
        ae_decrypts Z (aesKey keys) (decryptableAvailableBalance ct) b)"

lemma transfer_done_stores:
  assumes "ae_ok Z" "ae_u64 Z" "0 < a" and "transfer_done R K Z input s t a keys flow result w'"
  shows "\<exists>owner_key b args prog. spent K Z (in_rpc input) s keys owner_key b \<and> a \<le> b \<and>
     ix_call (pf_action flow) = ConfidentialTransfer args prog \<and> ta_sourceToken args = s \<and>
     ae_decrypts Z (aesKey keys) (ta_newSourceDecryptableAvailableBalance args) (b - a)"
proof -
  obtain sd sct dd auditor hooks w1 w2 w7 w8 where
    read: "rpc_fetchMaybeToken (in_rpc input) s w1 = (Inr (Some sd), w2)" "confidentialState sd = Some sct"
      "kit_decodeAddress K (kp_pubkey (elgamalKeypair keys)) = Inr (elgamalPubkey sct)" and
    flow: "getConfidentialTransferProofFlow R K Z
      (transferPlanInput input s t a sd dd keys auditor hooks) w7 = (Inr flow, w8)"
    using assms(4) unfolding transfer_done_def by blast
  obtain b args prog v v' where stores: "a \<le> b"
      "ae_decrypts Z (aesKey keys) (decryptableAvailableBalance sct) b"
      "ix_call (pf_action flow) = ConfidentialTransfer args prog" "ta_sourceToken args = s"
      "zk_aeEncrypt Z (aesKey keys) (b - a) v = (Inr (ta_newSourceDecryptableAvailableBalance args), v')"
    using transfer_flow_stores [OF flow] read(2) by (auto simp: transferPlanInput_def)
  have "ae_decrypts Z (aesKey keys) (ta_newSourceDecryptableAvailableBalance args) (b - a)"
    by (rule remaining_stored [OF assms(1,2) stores(2) _ stores(1,5)]) (use assms(3) in simp)
  then show ?thesis using read stores unfolding spent_def by blast
qed

lemma withdraw_done_stores:
  assumes "ae_ok Z" "ae_u64 Z" "0 < a" and "withdraw_done R K Z input t a keys flow result w'"
  shows "\<exists>owner_key b args prog. spent K Z (in_rpc input) t keys owner_key b \<and> a \<le> b \<and>
     ix_call (pf_action flow) = ConfidentialWithdraw args prog \<and> wa_token args = t \<and>
     ae_decrypts Z (aesKey keys) (wa_newDecryptableAvailableBalance args) (b - a)"
proof -
  obtain d ct w1 w2 w3 w4 where
    read: "rpc_fetchMaybeToken (in_rpc input) t w1 = (Inr (Some d), w2)" "confidentialState d = Some ct"
      "kit_decodeAddress K (kp_pubkey (elgamalKeypair keys)) = Inr (elgamalPubkey ct)" and
    flow: "getConfidentialWithdrawProofFlow R K Z (withdrawPlanInput input t a d keys) w3 = (Inr flow, w4)"
    using assms(4) unfolding withdraw_done_def by blast
  obtain b args prog v v' where stores: "a \<le> b"
      "ae_decrypts Z (aesKey keys) (decryptableAvailableBalance ct) b"
      "ix_call (pf_action flow) = ConfidentialWithdraw args prog" "wa_token args = t"
      "zk_aeEncrypt Z (aesKey keys) (b - a) v = (Inr (wa_newDecryptableAvailableBalance args), v')"
    using withdraw_flow_stores [OF flow] read(2) by (auto simp: withdrawPlanInput_def)
  have "ae_decrypts Z (aesKey keys) (wa_newDecryptableAvailableBalance args) (b - a)"
    by (rule remaining_stored [OF assms(1,2) stores(2) _ stores(1,5)]) (use assms(3) in simp)
  then show ?thesis using read stores unfolding spent_def by blast
qed

text \<open>C3: After a transfer of \<open>a\<close> that returned, \<open>decryptBalance\<close> with the same keys returns the
  balance the source account held before less \<open>a\<close>, on every account in which the AES ciphertext of
  the transfer instruction is stored and whose key is still the owner's.\<close>

theorem balance_after_transfer:
  assumes "ae_ok Z" and "ae_u64 Z" and "transfer R K Z input w = (Inr r, w')"
  shows "\<exists>a b keys flow args prog owner_key. toBigInt (tr_amount input) = Inr a \<and> 0 < a \<and> a \<le> b \<and>
     (\<forall>k. in_keys input = Some k \<longrightarrow> keys = k) \<and> spent K Z (in_rpc input) (to_sourceToken r) keys owner_key b \<and>
     transfer_done R K Z input (to_sourceToken r) (to_destinationToken r) a keys flow (to_flow r) w' \<and>
     ix_call (pf_action flow) = ConfidentialTransfer args prog \<and> ta_sourceToken args = to_sourceToken r \<and>
     (\<forall>later v v'. finds_stored K later (to_sourceToken r) keys owner_key
          (ta_newSourceDecryptableAvailableBalance args) v v' \<longrightarrow>
        decryptBalance K Z later v = (Inr (b - a), v'))"
proof -
  obtain a keys flow where a: "toBigInt (tr_amount input) = Inr a" "0 < a"
      "\<forall>k. in_keys input = Some k \<longrightarrow> keys = k" and
    ran: "transfer_done R K Z input (to_sourceToken r) (to_destinationToken r) a keys flow (to_flow r) w'"
    using transfer_parts [OF assms(3)] by blast
  obtain owner_key b args prog where stores:
      "spent K Z (in_rpc input) (to_sourceToken r) keys owner_key b" "a \<le> b"
      "ix_call (pf_action flow) = ConfidentialTransfer args prog" "ta_sourceToken args = to_sourceToken r"
      "ae_decrypts Z (aesKey keys) (ta_newSourceDecryptableAvailableBalance args) (b - a)"
    using transfer_done_stores [OF assms(1,2) a(2) ran] by blast
  have "kit_decodeAddress K (kp_pubkey (elgamalKeypair keys)) = Inr owner_key"
    using stores(1) unfolding spent_def by blast
  then have "decryptBalance K Z later v = (Inr (b - a), v')"
    if "finds_stored K later (to_sourceToken r) keys owner_key (ta_newSourceDecryptableAvailableBalance args) v v'"
    for later v v' by (rule stored_balance_read [OF that _ stores(5)])
  with a ran stores show ?thesis by blast
qed

text \<open>The same for a withdraw.\<close>

theorem balance_after_withdraw:
  assumes "ae_ok Z" and "ae_u64 Z" and "withdraw R K Z input w = (Inr r, w')"
  shows "\<exists>a b keys flow args prog owner_key. toBigInt (wi_amount input) = Inr a \<and> 0 < a \<and> a \<le> b \<and>
     (\<forall>k. in_keys input = Some k \<longrightarrow> keys = k) \<and> spent K Z (in_rpc input) (wr_token r) keys owner_key b \<and>
     withdraw_done R K Z input (wr_token r) a keys flow (wr_flow r) w' \<and>
     ix_call (pf_action flow) = ConfidentialWithdraw args prog \<and> wa_token args = wr_token r \<and>
     (\<forall>later v v'. finds_stored K later (wr_token r) keys owner_key
          (wa_newDecryptableAvailableBalance args) v v' \<longrightarrow>
        decryptBalance K Z later v = (Inr (b - a), v'))"
proof -
  obtain a keys flow where a: "toBigInt (wi_amount input) = Inr a" "0 < a"
      "\<forall>k. in_keys input = Some k \<longrightarrow> keys = k" and
    ran: "withdraw_done R K Z input (wr_token r) a keys flow (wr_flow r) w'"
    using withdraw_parts [OF assms(3)] by blast
  obtain owner_key b args prog where stores:
      "spent K Z (in_rpc input) (wr_token r) keys owner_key b" "a \<le> b"
      "ix_call (pf_action flow) = ConfidentialWithdraw args prog" "wa_token args = wr_token r"
      "ae_decrypts Z (aesKey keys) (wa_newDecryptableAvailableBalance args) (b - a)"
    using withdraw_done_stores [OF assms(1,2) a(2) ran] by blast
  have "kit_decodeAddress K (kp_pubkey (elgamalKeypair keys)) = Inr owner_key"
    using stores(1) unfolding spent_def by blast
  then have "decryptBalance K Z later v = (Inr (b - a), v')"
    if "finds_stored K later (wr_token r) keys owner_key (wa_newDecryptableAvailableBalance args) v v'"
    for later v v' by (rule stored_balance_read [OF that _ stores(5)])
  with a ran stores show ?thesis by blast
qed


subsection \<open>Witnesses\<close>

lemma toy_ae_u64: "ae_u64 (toy_zk :: 'w zk)"
  by (simp add: ae_u64_def toy_zk_def)

text \<open>The account as it is read afterwards: any account whose AES ciphertext is the stored one.\<close>

definition account_storing :: "bytes \<Rightarrow> token" where
  "account_storing stored = \<lparr>tk_amount = 0, tk_extensions = Some [ConfidentialTransferAccount
     ((ct_with 1000)\<lparr>decryptableAvailableBalance := stored\<rparr>)]\<rparr>"

lemma finds_account_storing:
  "finds_stored bundle_kit (op_input (Some (account_storing stored))) ''alice/mint'' some_keys ''k'' stored v v"
  by (simp add: finds_stored_def bundle_facts(3) op_facts account_storing_def confidentialState_def ct_with_def)

lemma spent_some_keys:
  assumes "spent bundle_kit (toy_zk :: nat zk) R t some_keys owner_key b"
    and "\<And>x w d w'. rpc_fetchMaybeToken R x w = (Inr (Some d), w') \<Longrightarrow> d = token_with 0 1000"
  shows "owner_key = ''k'' \<and> b = 1000"
proof -
  obtain d ct w1 w2 where "rpc_fetchMaybeToken R t w1 = (Inr (Some d), w2)" "confidentialState d = Some ct"
      "owner_key = elgamalPubkey ct" "ae_decrypts (toy_zk :: nat zk) (aesKey some_keys) (decryptableAvailableBalance ct) b"
    using assms(1) unfolding spent_def by blast
  moreover from this(1) have "d = token_with 0 1000" by (rule assms(2))
  ultimately show ?thesis
    by (auto simp: ct_with_def ae_decrypts_def toy_zk_def idle_zk_def le_nat_bigUint64)
qed

text \<open>What the two properties say of the examples, with the keys and the account filled in.\<close>

lemma account_read_afterwards:
  assumes "\<forall>k. Some some_keys = Some k \<longrightarrow> keys = k" and "spent bundle_kit (toy_zk :: nat zk) R ''alice/mint'' keys owner_key b"
    and "\<And>x w d w'. rpc_fetchMaybeToken R x w = (Inr (Some d), w') \<Longrightarrow> d = token_with 0 1000"
    and "\<forall>later v v'. finds_stored bundle_kit later ''alice/mint'' keys owner_key stored v v' \<longrightarrow>
       decryptBalance bundle_kit toy_zk later v = (Inr (b - a), v')"
  shows "decryptBalance bundle_kit toy_zk (op_input (Some (account_storing stored))) 0 = (Inr (1000 - a), 0)"
proof -
  have keys: "keys = some_keys" using assms(1) by simp
  have "owner_key = ''k'' \<and> b = 1000"
    by (rule spent_some_keys [OF assms(2) [unfolded keys] assms(3)])
  then show ?thesis using assms(4) finds_account_storing [of stored 0] unfolding keys by metis
qed

theorem balance_after_transfer_witness:
  "\<exists>r w' later. transfer byte_group bundle_kit toy_zk (transfer_of 600 (token_with 0 1000) (Some ''bob'')) 0
       = (Inr r, w') \<and> decryptBalance bundle_kit toy_zk later 0 = (Inr 400, 0)"
proof -
  let ?in = "transfer_of 600 (token_with 0 1000) (Some ''bob'')"
  from transfer_runs obtain r w' where
    run: "transfer byte_group bundle_kit toy_zk ?in 0 = (Inr r, w')" and source: "to_sourceToken r = ''alice/mint''"
    by (metis transfer_result.select_convs(1))
  have node: "rpc_fetchMaybeToken (in_rpc ?in) x w = (Inr (Some d), v) \<Longrightarrow> d = token_with 0 1000" for x w d v
    by (simp add: transfer_fields(13))
  have "\<exists>later. decryptBalance bundle_kit toy_zk later 0 = (Inr (1000 - 600), 0)"
    using balance_after_transfer [OF toy_ae_ok toy_ae_u64 run, unfolded source transfer_fields(2,6)]
    by (elim exE conjE) (intro exI, rule account_read_afterwards [OF _ _ node], assumption+, simp)
  with run show ?thesis by auto
qed

theorem balance_after_withdraw_witness:
  "\<exists>r w' later. withdraw byte_group bundle_kit toy_zk (withdraw_of 400) 0 = (Inr r, w') \<and>
     decryptBalance bundle_kit toy_zk later 0 = (Inr 600, 0)"
proof -
  let ?in = "withdraw_of 400"
  from withdraw_runs obtain r w' where
    run: "withdraw byte_group bundle_kit toy_zk ?in 0 = (Inr r, w')" and source: "wr_token r = ''alice/mint''"
    by (metis withdraw_result.select_convs(1))
  have node: "rpc_fetchMaybeToken (in_rpc ?in) x w = (Inr (Some d), v) \<Longrightarrow> d = token_with 0 1000" for x w d v
    by (simp add: withdraw_fields op_rpc_def)
  have "\<exists>later. decryptBalance bundle_kit toy_zk later 0 = (Inr (1000 - 400), 0)"
    using balance_after_withdraw [OF toy_ae_ok toy_ae_u64 run, unfolded source withdraw_fields(2,5)]
    by (elim exE conjE) (intro exI, rule account_read_afterwards [OF _ _ node], assumption+, simp)
  with run show ?thesis by auto
qed

end
