(* ===== verification/Zk_Web.thy ===== *)
theory Zk_Web
  imports Errors
begin

text \<open>
  The browser flavour \<open>src/src/internal/zk.web.ts\<close> of the zk-sdk loader, as a state machine: the
  module's variables \<open>loading\<close> and \<open>loaded\<close>, and how many \<open>initWasm\<close> calls have not settled.
  Callers and the settling of a download interleave in any order.
\<close>

record loader =
  ld_loading :: bool
  ld_loaded :: bool
  ld_pending :: nat

definition fresh_loader :: loader where
  "fresh_loader = \<lparr>ld_loading = False, ld_loaded = False, ld_pending = 0\<rparr>"

text \<open>A call: \<open>loading ??= initWasm(...)\<close> starts a download only when none was started.\<close>

definition initCall :: "loader \<Rightarrow> loader" where
  "initCall s =
     (if ld_loading s then s else s\<lparr>ld_loading := True, ld_pending := Suc (ld_pending s)\<rparr>)"

definition initDone :: "loader \<Rightarrow> loader" where
  "initDone s = s\<lparr>ld_loaded := True, ld_pending := ld_pending s - 1\<rparr>"

definition initFailed :: "loader \<Rightarrow> loader" where
  "initFailed s = s\<lparr>ld_loading := False, ld_pending := ld_pending s - 1\<rparr>"

text \<open>What every caller that awaited the failed download is given.\<close>

definition initError :: "exn \<Rightarrow> exn" where
  "initError e = bare_error CRYPTO_UNAVAILABLE
     (''@softseco/confidential-transfers could not load the zk-sdk WebAssembly (index_bg.wasm from '' @
      ''@solana/zk-sdk/dist/web). With Vite's dev server, add '' @
      ''`optimizeDeps: { exclude: [\"@solana/zk-sdk\"] }` to vite.config, and if the request for the '' @
      ''.wasm file is refused (403), add its node_modules folder to `server.fs.allow`. Or serve the '' @
      ''file yourself and pass its URL: `initConfidentialTransfers({ wasmUrl })`. Cause: '' @ js_string e)"

definition assertReady :: "loader \<Rightarrow> string \<Rightarrow> exn + unit" where
  "assertReady s what =
     (if \<not> ld_loaded s
      then Inl (bare_error CRYPTO_UNAVAILABLE
        (what @ '' needs the zk-sdk WebAssembly, which is not loaded yet. '' @
         ''Call `await initConfidentialTransfers()` once before using it in a browser.''))
      else Inr ())"

inductive loader_step :: "loader \<Rightarrow> loader \<Rightarrow> bool" where
  called: "loader_step s (initCall s)"
| settled: "0 < ld_pending s \<Longrightarrow> loader_step s (initDone s)"
| broke: "0 < ld_pending s \<Longrightarrow> loader_step s (initFailed s)"

inductive_cases loader_stepE: "loader_step s t"

definition loader_ok :: "loader \<Rightarrow> bool" where
  "loader_ok s \<longleftrightarrow> ld_pending s \<le> 1 \<and> (ld_pending s = 1 \<longleftrightarrow> ld_loading s \<and> \<not> ld_loaded s) \<and>
     (ld_loaded s \<longrightarrow> ld_loading s)"

interpretation loader_invariant: step_invariant loader_step loader_ok
  by unfold_locales
    (auto elim!: loader_stepE simp: loader_ok_def initCall_def initDone_def initFailed_def)

text \<open>Once loaded, always loaded: no later step starts a download.\<close>

definition loaded_for_good :: "loader \<Rightarrow> bool" where
  "loaded_for_good s \<longleftrightarrow> ld_loaded s \<and> ld_loading s \<and> ld_pending s = 0"

interpretation loaded_invariant: step_invariant loader_step loaded_for_good
  by unfold_locales
    (auto elim!: loader_stepE simp: loaded_for_good_def initCall_def)

section \<open>Properties\<close>

text \<open>C27: However calls and downloads interleave, at most one download of the WebAssembly is in
  flight; once it is loaded none is, and a synchronous use of the cryptography is never refused
  again.\<close>

theorem one_download_at_a_time:
  assumes "loader_step\<^sup>*\<^sup>* fresh_loader s"
  shows "ld_pending s \<le> 1 \<and>
     (ld_loaded s \<longrightarrow> ld_pending s = 0 \<and>
        (\<forall>t. loader_step\<^sup>*\<^sup>* s t \<longrightarrow> assertReady t what = Inr () \<and> ld_pending t = 0))"
proof -
  have ok: "loader_ok s"
    by (rule loader_invariant.steps_inv [OF assms]) (simp add: loader_ok_def fresh_loader_def)
  have "assertReady t what = Inr () \<and> ld_pending t = 0" if "ld_loaded s" "loader_step\<^sup>*\<^sup>* s t" for t
  proof -
    have "loaded_for_good s" using ok that(1) by (auto simp: loader_ok_def loaded_for_good_def)
    from loaded_invariant.steps_inv [OF that(2) this] show ?thesis
      by (simp add: loaded_for_good_def assertReady_def)
  qed
  then show ?thesis using ok by (auto simp: loader_ok_def)
qed

theorem one_download_at_a_time_witness:
  "ld_pending (initDone (initCall (initCall fresh_loader))) \<le> 1 \<and>
   assertReady (initCall (initDone (initCall (initCall fresh_loader)))) ''x'' = Inr ()"
proof -
  let ?s = "initDone (initCall (initCall fresh_loader))"
  have "loader_step\<^sup>*\<^sup>* fresh_loader (initCall fresh_loader)" by (auto intro: called)
  also have "loader_step (initCall fresh_loader) (initCall (initCall fresh_loader))" by (rule called)
  also have "loader_step (initCall (initCall fresh_loader)) ?s"
    by (rule settled) (simp add: initCall_def fresh_loader_def)
  finally have reach: "loader_step\<^sup>*\<^sup>* fresh_loader ?s" .
  moreover have "ld_loaded ?s" by (simp add: initDone_def)
  moreover have "loader_step\<^sup>*\<^sup>* ?s (initCall ?s)" by (auto intro: called)
  ultimately show ?thesis using one_download_at_a_time [OF reach, of "''x''"] by blast
qed

text \<open>A download that failed is not remembered: the next call starts a new one.\<close>

theorem failed_download_retried:
  assumes "loader_step\<^sup>*\<^sup>* fresh_loader s" and "0 < ld_pending s"
  shows "ld_pending (initFailed s) = 0 \<and> ld_pending (initCall (initFailed s)) = 1 \<and>
     (\<exists>e. assertReady (initFailed s) what = Inl e \<and> has_code CRYPTO_UNAVAILABLE e)"
proof -
  have "loader_ok s"
    by (rule loader_invariant.steps_inv [OF assms(1)]) (simp add: loader_ok_def fresh_loader_def)
  then show ?thesis
    using assms(2) by (auto simp: loader_ok_def initFailed_def initCall_def assertReady_def)
qed

theorem failed_download_retried_witness:
  "ld_pending (initFailed (initCall fresh_loader)) = 0 \<and>
   ld_pending (initCall (initFailed (initCall fresh_loader))) = 1 \<and>
   (\<exists>e. assertReady (initFailed (initCall fresh_loader)) ''x'' = Inl e \<and> has_code CRYPTO_UNAVAILABLE e)"
proof (rule failed_download_retried)
  show "loader_step\<^sup>*\<^sup>* fresh_loader (initCall fresh_loader)"
    by (rule r_into_rtranclp) (rule called)
qed (simp add: initCall_def fresh_loader_def)

end
