(* ===== verification/Auditor.thy ===== *)
theory Auditor
  imports Operations
begin

text \<open>
  \<open>src/src/auditor.ts\<close>: what the holder of a mint's auditor key reads from one confirmed transfer.
  The constants and decoders of the token-2022 client are the parameter \<open>program_client\<close>; the
  decoder of a transfer gives the auditor's two ciphertexts.
\<close>

section \<open>The program client\<close>

record program_client =
  pc_extension :: byte
  pc_deposit :: byte
  pc_withdraw :: byte
  pc_transfer :: byte
  pc_transferWithFee :: byte
  pc_decodeDeposit :: "bytes \<Rightarrow> exn + int"
  pc_decodeWithdraw :: "bytes \<Rightarrow> exn + int"
  pc_decodeTransfer :: "bytes \<Rightarrow> exn + (bytes \<times> bytes)"

section \<open>The module\<close>

definition AUDITOR_LO_BIT_LENGTH :: int where "AUDITOR_LO_BIT_LENGTH = 16"
definition CONFIDENTIAL_TRANSFER_DISCRIMINATOR :: byte where "CONFIDENTIAL_TRANSFER_DISCRIMINATOR = 27"
definition CONFIDENTIAL_TRANSFER_INNER_DISCRIMINATOR :: byte where
  "CONFIDENTIAL_TRANSFER_INNER_DISCRIMINATOR = 7"

definition deriveAuditorElgamalKeypair :: "'w kit \<Rightarrow> 'w zk \<Rightarrow> signer \<Rightarrow> ('w, elgamal_keypair) task" where
  "deriveAuditorElgamalKeypair K Z signer =
     io_bind (deriveConfidentialKeys K Z signer) (\<lambda>keys. io_return (elgamalKeypair keys))"

definition getAuditorElgamalPubkey :: "'w kit \<Rightarrow> elgamal_keypair \<Rightarrow> exn + address" where
  "getAuditorElgamalPubkey K auditorKeypair =
     result_bind (assertZkReady ''getAuditorElgamalPubkey'') (\<lambda>_.
     kit_decodeAddress K (kp_pubkey auditorKeypair))"

record 'w audit_input =
  au_rpc :: "'w rpc"
  au_signature :: signature
  au_keypair :: elgamal_keypair
  au_programAddress :: "address option"

text \<open>The sum of the two parts, the high one shifted.\<close>

definition decryptHalves :: "'w zk \<Rightarrow> bytes \<Rightarrow> bytes \<Rightarrow> bytes \<Rightarrow> exn + int" where
  "decryptHalves Z secret lo hi =
     result_bind (zk_elgamalDecrypt Z secret lo) (\<lambda>l.
     result_bind (zk_elgamalDecrypt Z secret hi) (\<lambda>h.
     Inr (l + bigint_shl h AUDITOR_LO_BIT_LENGTH)))"

definition auditedAmount :: "'w zk \<Rightarrow> program_client \<Rightarrow> bytes \<Rightarrow> bytes \<Rightarrow> exn + int" where
  "auditedAmount Z P secret data =
     result_bind (pc_decodeTransfer P data) (\<lambda>(ctLo, ctHi).
     case (zk_elgamalFromBytes Z ctLo, zk_elgamalFromBytes Z ctHi) of
       (Some lo, Some hi) \<Rightarrow> decryptHalves Z secret lo hi
     | _ \<Rightarrow> Inl (sdk_error DECRYPTION_FAILED ''decryptTransferAmountAsAuditor''
         ''decryptTransferAmountAsAuditor: failed to parse the auditor ciphertext''))"

definition isTransferData :: "bytes \<Rightarrow> bool" where
  "isTransferData data \<longleftrightarrow>
     item data 0 = Some CONFIDENTIAL_TRANSFER_DISCRIMINATOR \<and>
     item data 1 = Some CONFIDENTIAL_TRANSFER_INNER_DISCRIMINATOR"

fun auditInstructions ::
  "'w kit \<Rightarrow> 'w zk \<Rightarrow> program_client \<Rightarrow> address \<Rightarrow> address list \<Rightarrow> bytes \<Rightarrow> raw_instruction list \<Rightarrow>
     exn + int" where
  "auditInstructions K Z P programAddress accountKeys secret [] =
     Inl (sdk_error INVALID_INPUT ''decryptTransferAmountAsAuditor''
       ''decryptTransferAmountAsAuditor: no confidential-transfer instruction found in this transaction'')"
| "auditInstructions K Z P programAddress accountKeys secret (ix # rest) =
     (if item accountKeys (ri_programIdIndex ix) \<noteq> Some programAddress
      then auditInstructions K Z P programAddress accountKeys secret rest
      else result_bind (kit_base58 K (ri_data ix)) (\<lambda>data.
        if \<not> isTransferData data
        then auditInstructions K Z P programAddress accountKeys secret rest
        else auditedAmount Z P secret data))"

definition messageKeys :: "rpc_transaction \<Rightarrow> address list" where
  "messageKeys tx =
     (case rt_accountKeys tx of
        Some keys \<Rightarrow> keys
      | None \<Rightarrow> (case rt_staticAccountKeys tx of Some keys \<Rightarrow> keys | None \<Rightarrow> []))"

definition decryptTransferAmountAsAuditor ::
  "'w kit \<Rightarrow> 'w zk \<Rightarrow> program_client \<Rightarrow> 'w audit_input \<Rightarrow> ('w, int) task" where
  "decryptTransferAmountAsAuditor K Z P input =
     io_bind ensureZk (\<lambda>_.
     let programAddress = (case au_programAddress input of
         Some p \<Rightarrow> p | None \<Rightarrow> TOKEN_2022_PROGRAM_ADDRESS) in
     io_bind (rpc_getTransaction (au_rpc input) (au_signature input)) (\<lambda>result.
     case result of
       None \<Rightarrow> io_throw (sdk_error INVALID_INPUT ''decryptTransferAmountAsAuditor''
         (''decryptTransferAmountAsAuditor: transaction '' @ au_signature input @ '' not found''))
     | Some tx \<Rightarrow> io_of (auditInstructions K Z P programAddress (messageKeys tx)
         (kp_secret (au_keypair input)) (rt_instructions tx))))"

section \<open>Facts\<close>

text \<open>
  The instruction the auditor's reading is about: the first one of the program whose data is that
  of a confidential transfer.
\<close>

definition not_a_transfer :: "'w kit \<Rightarrow> address \<Rightarrow> address list \<Rightarrow> raw_instruction \<Rightarrow> bool" where
  "not_a_transfer K program keys ix \<longleftrightarrow>
     item keys (ri_programIdIndex ix) \<noteq> Some program \<or>
     (\<exists>data. kit_base58 K (ri_data ix) = Inr data \<and> \<not> isTransferData data)"

lemma auditInstructions_first:
  assumes "\<forall>ix \<in> set before. not_a_transfer K program keys ix"
    and "item keys (ri_programIdIndex ix) = Some program"
    and "kit_base58 K (ri_data ix) = Inr data" and "isTransferData data"
  shows "auditInstructions K Z P program keys secret (before @ ix # after) = auditedAmount Z P secret data"
  using assms(1)
proof (induction before)
  case Nil
  then show ?case using assms(2-4) by simp
next
  case (Cons i before)
  then have "not_a_transfer K program keys i" by simp
  with Cons show ?case by (auto simp: not_a_transfer_def)
qed

lemma auditInstructions_none:
  assumes "\<forall>ix \<in> set ixs. not_a_transfer K program keys ix"
  shows "\<exists>e. auditInstructions K Z P program keys secret ixs = Inl e \<and>
     refused_with INVALID_INPUT ''decryptTransferAmountAsAuditor'' e"
  using assms by (induction ixs) (auto simp: not_a_transfer_def)

text \<open>
  What the zk-sdk documents of a secret key: it decrypts the ciphertexts that open, under it, to an
  amount below a bound (\<open>2 ^ 32\<close>), to that amount.
\<close>

definition decrypts_below ::
  "'p::ab_group_add ristretto \<Rightarrow> (bytes \<Rightarrow> int) \<Rightarrow> elgamal_keypair set \<Rightarrow> 'w zk \<Rightarrow> int \<Rightarrow> bool" where
  "decrypts_below R scalar keys Z n \<longleftrightarrow>
     (\<forall>k \<in> keys. \<forall>ct v. opens R (scalar (kp_secret k)) ct v \<and> 0 \<le> v \<and> v < n \<longrightarrow>
        elgamal_decrypts Z (kp_secret k) ct v)"

lemma auditedAmount_halves:
  assumes "pc_decodeTransfer P data = Inr (ctLo, ctHi)"
    and "elgamal_decrypts Z secret ctLo lo" and "elgamal_decrypts Z secret ctHi hi"
  shows "auditedAmount Z P secret data = Inr (lo + hi * 2 ^ 16)"
  using assms
  by (auto simp: auditedAmount_def elgamal_decrypts_def decryptHalves_def AUDITOR_LO_BIT_LENGTH_def
      bigint_shl_eq)

text \<open>A flow's transfer instruction, as the decoder reads its data.\<close>

lemma flow_audited:
  assumes "transfer_action_of R scalar keys Z input (kp_pubkey k) b a flow" and "k \<in> keys"
    and "ix_call (pf_action flow) = ConfidentialTransfer args prog"
    and "decrypts_below R scalar keys Z n" and "0 \<le> a" and "a div 2 ^ 16 < n" and "a mod 2 ^ 16 < n"
    and "pc_decodeTransfer P data = Inr (ta_auditorCiphertextLo args, ta_auditorCiphertextHi args)"
  shows "auditedAmount Z P (kp_secret k) data = Inr a"
proof -
  have "opens R (scalar (kp_secret k)) (ta_auditorCiphertextLo args) (a mod 2 ^ 16)"
      "opens R (scalar (kp_secret k)) (ta_auditorCiphertextHi args) (a div 2 ^ 16)"
    using assms(1-3) by (auto simp: transfer_action_of_def)
  then have "elgamal_decrypts Z (kp_secret k) (ta_auditorCiphertextLo args) (a mod 2 ^ 16)"
      "elgamal_decrypts Z (kp_secret k) (ta_auditorCiphertextHi args) (a div 2 ^ 16)"
    using assms(2,4-7) by (auto simp: decrypts_below_def)
  from auditedAmount_halves [OF assms(8) this] show ?thesis by (simp add: mod_div_mult_eq)
qed

section \<open>Properties\<close>

text \<open>The auditor's reading of a transaction is that of its first confidential-transfer
  instruction: other programs' instructions, and other instructions of the program, are passed
  over, and what follows does not matter.\<close>

theorem auditor_reads_first_transfer:
  assumes "rpc_getTransaction (au_rpc input) (au_signature input) w = (Inr (Some tx), w')"
    and "au_programAddress input = Some program"
    and "rt_instructions tx = before @ ix # after"
    and "\<forall>i \<in> set before. not_a_transfer K program (messageKeys tx) i"
    and "item (messageKeys tx) (ri_programIdIndex ix) = Some program"
    and "kit_base58 K (ri_data ix) = Inr data" and "isTransferData data"
  shows "decryptTransferAmountAsAuditor K Z P input w =
     (auditedAmount Z P (kp_secret (au_keypair input)) data, w')"
  using assms(1-3) auditInstructions_first [OF assms(4-7)]
  by (simp add: decryptTransferAmountAsAuditor_def ensureZk_def Let_def)

subsection \<open>Witnesses\<close>

definition toy_program :: program_client where
  "toy_program = \<lparr>pc_extension = 27, pc_deposit = 5, pc_withdraw = 6, pc_transfer = 7,
     pc_transferWithFee = 13,
     pc_decodeDeposit = (\<lambda>data. Inr (int (le_nat (drop 2 data)))),
     pc_decodeWithdraw = (\<lambda>data. Inr (int (le_nat (drop 2 data)))),
     pc_decodeTransfer = (\<lambda>data. Inr (take 64 (drop 2 data), drop 66 data))\<rparr>"

text \<open>A base58 of its own: the characters are the bytes.\<close>

definition text_kit :: "nat kit" where
  "text_kit = toy_kit\<lparr>kit_base58 := (\<lambda>s. Inr (map (\<lambda>c. of_nat (of_char c)) s))\<rparr>"

definition as_text :: "bytes \<Rightarrow> string" where
  "as_text bs = map (\<lambda>b. char_of (unat b)) bs"

lemma text_kit_base58: "kit_base58 text_kit (as_text bs) = Inr bs"
proof -
  have "of_nat (of_char (char_of (unat b) :: char)) = b" for b :: byte
  proof -
    have "unat b < 2 ^ LENGTH(8)" by (rule unsigned_less)
    then show ?thesis by (simp add: of_char_of)
  qed
  then show ?thesis by (simp add: text_kit_def as_text_def comp_def)
qed

definition audited_tx :: "bytes \<Rightarrow> rpc_transaction" where
  "audited_tx data = \<lparr>rt_slot = 7, rt_blockTime = Some 1790000000,
     rt_accountKeys = Some [''prog'', ''other'', ''from'', ''mint'', ''to''], rt_staticAccountKeys = None,
     rt_instructions = [\<lparr>ri_programIdIndex = 1, ri_accounts = [], ri_data = []\<rparr>,
       \<lparr>ri_programIdIndex = 0, ri_accounts = [2, 3, 4], ri_data = as_text data\<rparr>],
     rt_meta = Some \<lparr>tm_err = False, tm_logMessages = None, tm_innerInstructions = None,
       tm_loadedAddresses = None, tm_preTokenBalances = Some [\<lparr>tb_accountIndex = 2, tb_owner = Some ''alice''\<rparr>]\<rparr>\<rparr>"

definition audit_of :: "bytes \<Rightarrow> nat audit_input" where
  "audit_of data = \<lparr>au_rpc = offline_rpc\<lparr>rpc_getTransaction := (\<lambda>_. io_return (Some (audited_tx data)))\<rparr>,
     au_signature = ''s'', au_keypair = some_keypair, au_programAddress = Some ''prog''\<rparr>"

definition transfer_data :: "int \<Rightarrow> int \<Rightarrow> bytes" where
  "transfer_data lo hi = [27, 7] @ (point lo @ point 0) @ point hi @ point 0"

theorem auditor_reads_first_transfer_witness:
  "decryptTransferAmountAsAuditor text_kit toy_zk toy_program (audit_of (transfer_data 200 1)) 0 =
     (auditedAmount (toy_zk :: nat zk) toy_program [9] (transfer_data 200 1), 0)"
proof -
  let ?ix = "\<lparr>ri_programIdIndex = 0, ri_accounts = [2, 3, 4], ri_data = as_text (transfer_data 200 1)\<rparr>"
  have run: "rpc_getTransaction (au_rpc (audit_of (transfer_data 200 1))) (au_signature (audit_of (transfer_data 200 1))) 0
      = (Inr (Some (audited_tx (transfer_data 200 1))), 0)"
      "rt_instructions (audited_tx (transfer_data 200 1)) =
        [\<lparr>ri_programIdIndex = 1, ri_accounts = [], ri_data = []\<rparr>] @ ?ix # []"
    by (simp_all add: audit_of_def audited_tx_def)
  have "auditedAmount (toy_zk :: nat zk) toy_program (kp_secret (au_keypair (audit_of (transfer_data 200 1))))
      (transfer_data 200 1) = auditedAmount (toy_zk :: nat zk) toy_program [9] (transfer_data 200 1)"
    by (simp add: audit_of_def some_keypair_def)
  moreover have "isTransferData (transfer_data 200 1)"
    by (simp add: isTransferData_def transfer_data_def item_def CONFIDENTIAL_TRANSFER_DISCRIMINATOR_def
        CONFIDENTIAL_TRANSFER_INNER_DISCRIMINATOR_def)
  ultimately show ?thesis
    using auditor_reads_first_transfer [OF run(1) _ run(2), of "''prog''" text_kit "transfer_data 200 1" toy_zk toy_program]
    by (simp add: audit_of_def audited_tx_def not_a_transfer_def messageKeys_def text_kit_base58 item_def)
qed

end
