(* ===== verification/Auditor_Report.thy ===== *)
theory Auditor_Report
  imports Auditor
begin

text \<open>
  \<open>src/src/auditorReport.ts\<close>, but for its CSV (\<open>Csv\<close>): the auditor's view of a mint. The history
  is read page by page in a loop without a bound, so \<open>pagesFrom\<close> is a partial function, whose value
  \<open>None\<close> is not returning. A \<open>Date\<close> is its time value in milliseconds, \<open>None\<close> for an invalid one.
  The key of an account a transaction does not name is \<open>undefined\<close>, here \<open>None\<close>.
\<close>

section \<open>Data\<close>

type_synonym date = "int option"

datatype activity_kind = Kind_Deposit | Kind_Transfer | Kind_Withdraw | Kind_Transfer_With_Fee

record movement =
  mv_kind :: activity_kind
  mv_fromToken :: "address option"
  mv_fromOwner :: "address option"
  mv_toToken :: "address option"
  mv_toOwner :: "address option"
  mv_amount :: "int option"
  mv_decrypted :: bool
  mv_note :: "string option"

record activity =
  ac_signature :: signature
  ac_slot :: int
  ac_blockTime :: "date option"
  ac_movement :: movement

record 'w report_input =
  re_rpc :: "'w rpc"
  re_mint :: address
  re_keypair :: elgamal_keypair
  re_since :: "date option"
  re_until :: "date option"
  re_maxTransactions :: "js_number option"
  re_concurrency :: "js_number option"
  re_skipAuditorKeyCheck :: bool
  re_programAddress :: "address option"

section \<open>Reading an instruction\<close>

definition accountAt ::
  "address list \<Rightarrow> (nat \<Rightarrow> address option) \<Rightarrow> raw_instruction \<Rightarrow> nat \<Rightarrow> address option \<times> address option" where
  "accountAt keys owners ix i =
     (case item (ri_accounts ix) i of
        None \<Rightarrow> (None, None)
      | Some n \<Rightarrow> (item keys n, owners n))"

definition plainMovement :: "activity_kind \<Rightarrow> address option \<times> address option \<Rightarrow> int \<Rightarrow> movement" where
  "plainMovement kind a amount =
     \<lparr>mv_kind = kind, mv_fromToken = fst a, mv_fromOwner = snd a, mv_toToken = fst a, mv_toOwner = snd a,
      mv_amount = Some amount, mv_decrypted = False, mv_note = None\<rparr>"

definition transferMovement ::
  "activity_kind \<Rightarrow> address option \<times> address option \<Rightarrow> address option \<times> address option \<Rightarrow>
     int option \<Rightarrow> string option \<Rightarrow> movement" where
  "transferMovement kind from to amount note =
     \<lparr>mv_kind = kind, mv_fromToken = fst from, mv_fromOwner = snd from, mv_toToken = fst to,
      mv_toOwner = snd to, mv_amount = amount, mv_decrypted = (amount \<noteq> None), mv_note = note\<rparr>"

text \<open>What the \<open>try\<close> around the decryption computes.\<close>

definition reportedAmount :: "'w zk \<Rightarrow> bytes \<Rightarrow> bytes \<times> bytes \<Rightarrow> exn + int" where
  "reportedAmount Z secret cts =
     (case (zk_elgamalFromBytes Z (fst cts), zk_elgamalFromBytes Z (snd cts)) of
        (Some lo, Some hi) \<Rightarrow> decryptHalves Z secret lo hi
      | _ \<Rightarrow> Inl (Js_Error ''Error'' ''malformed ciphertext''))"

definition toActivity ::
  "'w zk \<Rightarrow> program_client \<Rightarrow> bytes \<Rightarrow> raw_instruction \<Rightarrow> address list \<Rightarrow> (nat \<Rightarrow> address option) \<Rightarrow>
     bytes \<Rightarrow> exn + movement option" where
  "toActivity Z P data ix keys owners secret =
     (let at = accountAt keys owners ix; code = item data 1 in
      if code = Some (pc_deposit P)
      then result_bind (pc_decodeDeposit P data) (\<lambda>amount.
        Inr (Some (plainMovement Kind_Deposit (at 0) amount)))
      else if code = Some (pc_withdraw P)
      then result_bind (pc_decodeWithdraw P data) (\<lambda>amount.
        Inr (Some (plainMovement Kind_Withdraw (at 0) amount)))
      else if code = Some (pc_transfer P)
      then result_bind (pc_decodeTransfer P data) (\<lambda>decoded.
        Inr (Some (case reportedAmount Z secret decoded of
            Inr amount \<Rightarrow> transferMovement Kind_Transfer (at 0) (at 2) (Some amount) None
          | Inl _ \<Rightarrow> transferMovement Kind_Transfer (at 0) (at 2) None
              (Some ''not encrypted to this auditor key''))))
      else if code = Some (pc_transferWithFee P)
      then Inr (Some (transferMovement Kind_Transfer_With_Fee (at 0) (at 2) None
        (Some ''transfer with fee: amount not decrypted by this version'')))
      else Inr None)"

section \<open>Reading a transaction\<close>

definition ownersOf :: "token_balance list \<Rightarrow> nat \<Rightarrow> address option" where
  "ownersOf balances =
     fold (\<lambda>b owners. case truthy (tb_owner b) of
         None \<Rightarrow> owners | Some a \<Rightarrow> owners(tb_accountIndex b \<mapsto> a)) balances Map.empty"

definition innerOf :: "(nat \<times> raw_instruction list) list \<Rightarrow> nat \<Rightarrow> raw_instruction list option" where
  "innerOf groups = fold (\<lambda>(i, ixs) inner. inner(i \<mapsto> ixs)) groups Map.empty"

definition allInstructions ::
  "raw_instruction list \<Rightarrow> (nat \<Rightarrow> raw_instruction list option) \<Rightarrow> raw_instruction list" where
  "allInstructions instructions inner =
     concat (map (\<lambda>(i, ix). ix # (case inner i of None \<Rightarrow> [] | Some ixs \<Rightarrow> ixs))
       (enumerate 0 instructions))"

fun movementsOf ::
  "'w kit \<Rightarrow> 'w zk \<Rightarrow> program_client \<Rightarrow> address \<Rightarrow> address \<Rightarrow> bytes \<Rightarrow> address list \<Rightarrow>
     (nat \<Rightarrow> address option) \<Rightarrow> raw_instruction list \<Rightarrow> exn + movement list" where
  "movementsOf K Z P program mintAddress secret keys owners [] = Inr []"
| "movementsOf K Z P program mintAddress secret keys owners (ix # rest) =
     (let more = movementsOf K Z P program mintAddress secret keys owners rest in
      if item keys (ri_programIdIndex ix) \<noteq> Some program then more
      else result_bind (kit_base58 K (ri_data ix)) (\<lambda>data.
        if item data 0 \<noteq> Some (pc_extension P) \<or> length (ri_accounts ix) < 2 then more
        else if fst (accountAt keys owners ix 1) \<noteq> Some mintAddress then more
        else result_bind (toActivity Z P data ix keys owners secret) (\<lambda>entry.
          case entry of None \<Rightarrow> more
          | Some m \<Rightarrow> result_bind more (\<lambda>ms. Inr (m # ms)))))"

definition or_nil :: "'a list option \<Rightarrow> 'a list" where
  "or_nil xs = (case xs of None \<Rightarrow> [] | Some ys \<Rightarrow> ys)"

definition keysOf :: "rpc_transaction \<Rightarrow> tx_meta \<Rightarrow> exn + address list" where
  "keysOf tx txMeta =
     (case rt_accountKeys tx of
        None \<Rightarrow> Inl (Js_Error ''TypeError'' ''tx.transaction.message.accountKeys is not iterable'')
      | Some accountKeys \<Rightarrow>
          Inr (case tm_loadedAddresses txMeta of
              None \<Rightarrow> accountKeys
            | Some (writable, readonly) \<Rightarrow> accountKeys @ writable @ readonly))"

text \<open>\<open>new Date(ms)\<close>: an invalid date beyond 100,000,000 days from the epoch.\<close>

definition makeDate :: "int \<Rightarrow> date" where
  "makeDate ms = (if \<bar>ms\<bar> \<le> 8640000000000000 then Some ms else None)"

definition programOfReport :: "'w report_input \<Rightarrow> address" where
  "programOfReport input = (case re_programAddress input of Some p \<Rightarrow> p | None \<Rightarrow> TOKEN_2022_PROGRAM_ADDRESS)"

definition entriesOf ::
  "'w kit \<Rightarrow> 'w zk \<Rightarrow> program_client \<Rightarrow> 'w report_input \<Rightarrow> signature \<times> rpc_transaction option \<Rightarrow>
     exn + activity list" where
  "entriesOf K Z P input fetched =
     (case snd fetched of None \<Rightarrow> Inr [] | Some tx \<Rightarrow>
     (case rt_meta tx of None \<Rightarrow> Inr [] | Some txMeta \<Rightarrow>
      if tm_err txMeta then Inr []
      else
        result_bind (keysOf tx txMeta) (\<lambda>keys.
        let owners = ownersOf (or_nil (tm_preTokenBalances txMeta));
            all = allInstructions (rt_instructions tx) (innerOf (or_nil (tm_innerInstructions txMeta))) in
        result_bind (movementsOf K Z P (programOfReport input) (re_mint input)
            (kp_secret (re_keypair input)) keys owners all) (\<lambda>ms.
        Inr (map (\<lambda>m. \<lparr>ac_signature = fst fetched, ac_slot = rt_slot tx,
          ac_blockTime = map_option (\<lambda>seconds. makeDate (seconds * 1000)) (rt_blockTime tx),
          ac_movement = m\<rparr>) ms)))))"

section \<open>Reading the history\<close>

definition PAGE_LIMIT :: nat where "PAGE_LIMIT = 1000"

text \<open>\<open>BigInt(Math.floor(date.getTime() / 1000))\<close>; the time value of an invalid date is NaN.\<close>

definition secondsOf :: "date \<Rightarrow> exn + int" where
  "secondsOf d = (case d of Some ms \<Rightarrow> Inr (ms div 1000) | None \<Rightarrow> toBigInt (Number_v NaN))"

definition boundOf :: "date option \<Rightarrow> exn + int option" where
  "boundOf d = (case d of None \<Rightarrow> Inr None | Some t \<Rightarrow> result_bind (secondsOf t) (\<lambda>s. Inr (Some s)))"

definition tooOld :: "int option \<Rightarrow> signature_info \<Rightarrow> bool" where
  "tooOld since s \<longleftrightarrow> (case (since, si_blockTime s) of (Some b, Some t) \<Rightarrow> t < b | _ \<Rightarrow> False)"

definition tooNew :: "int option \<Rightarrow> signature_info \<Rightarrow> bool" where
  "tooNew until s \<longleftrightarrow> (case (until, si_blockTime s) of (Some b, Some t) \<Rightarrow> b \<le> t | _ \<Rightarrow> False)"

definition full :: "js_number option \<Rightarrow> nat \<Rightarrow> bool" where
  "full limit n \<longleftrightarrow> (case limit of None \<Rightarrow> False | Some m \<Rightarrow> reached n m)"

text \<open>One page; the flag says that the function returns from inside the loop.\<close>

fun scanPage ::
  "js_number option \<Rightarrow> int option \<Rightarrow> int option \<Rightarrow> signature list \<Rightarrow> signature_info list \<Rightarrow>
     bool \<times> signature list" where
  "scanPage limit since until out [] = (False, out)"
| "scanPage limit since until out (s # page) =
     (if full limit (length out) then (True, out)
      else if tooOld since s then (True, out)
      else if tooNew until s then scanPage limit since until out page
      else if si_err s then scanPage limit since until out page
      else scanPage limit since until (out @ [si_signature s]) page)"

partial_function (option) pagesFrom ::
  "'w rpc \<Rightarrow> address \<Rightarrow> (signature list \<Rightarrow> signature_info list \<Rightarrow> bool \<times> signature list) \<Rightarrow>
     signature option \<Rightarrow> signature list \<Rightarrow> 'w \<Rightarrow> ((exn + signature list) \<times> 'w) option" where
  "pagesFrom R mintAddress scan before out w =
     (case rpc_getSignaturesForAddress R mintAddress before PAGE_LIMIT w of
        (Inl e, w') \<Rightarrow> Some (Inl e, w')
      | (Inr page, w') \<Rightarrow>
          if page = [] then Some (Inr out, w')
          else (case scan out page of (stop, out') \<Rightarrow>
              if stop then Some (Inr out', w')
              else if length page < PAGE_LIMIT then Some (Inr out', w')
              else pagesFrom R mintAddress scan (Some (si_signature (last page))) out' w'))"

definition signaturesOf ::
  "'w report_input \<Rightarrow> 'w \<Rightarrow> ((exn + signature list) \<times> 'w) option" where
  "signaturesOf input w =
     (case result_bind (boundOf (re_since input)) (\<lambda>since.
          result_bind (boundOf (re_until input)) (\<lambda>until. Inr (since, until))) of
        Inl e \<Rightarrow> Some (Inl e, w)
      | Inr (since, until) \<Rightarrow>
          pagesFrom (re_rpc input) (re_mint input) (scanPage (re_maxTransactions input) since until)
            None [] w)"

section \<open>The report\<close>

text \<open>\<open>Math.max(1, x)\<close>.\<close>

fun atLeastOne :: "js_number \<Rightarrow> js_number" where
  "atLeastOne NaN = NaN"
| "atLeastOne (Infinite positive) = (if positive then Infinite True else js_int 1)"
| "atLeastOne (Dyadic m k) = (if 2 ^ k \<le> m then Dyadic m k else js_int 1)"

text \<open>
  The slices of the loop \<open>for (let i = 0; i < xs.length; i += c)\<close>: in its \<open>n\<close>-th round \<open>i\<close> is
  \<open>n * m / 2 ^ k\<close>, and \<open>slice\<close> truncates its arguments.
\<close>

function dyadicSlices :: "nat \<Rightarrow> nat \<Rightarrow> nat \<Rightarrow> 'a list \<Rightarrow> 'a list list" where
  "dyadicSlices m k n xs =
     (if n * m < length xs * 2 ^ k \<and> 0 < m
      then slice (n * m div 2 ^ k) (Suc n * m div 2 ^ k) xs # dyadicSlices m k (Suc n) xs
      else [])"
  by pat_completeness auto
termination
  by (relation "measure (\<lambda>(m, k, n, xs). length xs * 2 ^ k - n * m)") auto

declare dyadicSlices.simps [simp del]

text \<open>\<open>slice(0, NaN)\<close> is empty, and \<open>NaN < xs.length\<close> ends the loop after it.\<close>

fun slicesBy :: "js_number \<Rightarrow> 'a list \<Rightarrow> 'a list list" where
  "slicesBy NaN xs = (if xs = [] then [] else [[]])"
| "slicesBy (Infinite positive) xs = (if xs = [] then [] else [xs])"
| "slicesBy (Dyadic m k) xs = dyadicSlices (nat m) k 0 xs"

fun reportBatches ::
  "'w kit \<Rightarrow> 'w zk \<Rightarrow> program_client \<Rightarrow> 'w report_input \<Rightarrow> signature list list \<Rightarrow> activity list list \<Rightarrow>
     ('w, activity list list) task" where
  "reportBatches K Z P input [] perTransaction = io_return perTransaction"
| "reportBatches K Z P input (batch # rest) perTransaction =
     io_bind (promise_all (kit_race K) (map (rpc_getTransaction (re_rpc input)) batch)) (\<lambda>transactions.
     io_bind (io_of (result_map (entriesOf K Z P input) (zip batch transactions))) (\<lambda>entries.
     reportBatches K Z P input rest (perTransaction @ entries)))"

definition readMint :: "'w rpc \<Rightarrow> address \<Rightarrow> string \<Rightarrow> ('w, mint) task" where
  "readMint R mintAddress operation =
     io_catch (rpc_fetchMint R mintAddress)
       (\<lambda>e. io_throw (sdk_error_with_cause INVALID_INPUT operation
         (operation @ '': '' @ mintAddress @ '' is not a Token-2022 mint (or does not exist).'') e))"

fun ct_mint_extension :: "extension \<Rightarrow> address option option" where
  "ct_mint_extension (ConfidentialTransferMint a) = Some a"
| "ct_mint_extension _ = None"

definition auditorOfMint :: "mint \<Rightarrow> address option" where
  "auditorOfMint data =
     (case find_map ct_mint_extension (or_nil (mt_extensions data)) of None \<Rightarrow> None | Some a \<Rightarrow> a)"

definition auditorKeyCheck :: "'w kit \<Rightarrow> 'w report_input \<Rightarrow> ('w, unit) task" where
  "auditorKeyCheck K input =
     (if re_skipAuditorKeyCheck input then io_return ()
      else
        io_bind (readMint (re_rpc input) (re_mint input) ''listConfidentialActivity'') (\<lambda>data.
        io_bind (io_of (getAuditorElgamalPubkey K (re_keypair input))) (\<lambda>ours.
        if auditorOfMint data \<noteq> Some ours
        then io_throw (sdk_error KEYS_MISMATCH ''listConfidentialActivity''
          (''listConfidentialActivity: mint '' @ re_mint input @ '' '' @
           (case truthy (auditorOfMint data) of
              Some auditor \<Rightarrow> ''has auditor key '' @ auditor @ '', not '' @ ours @ ''.''
            | None \<Rightarrow> ''has no auditor key, so nobody can read its transfer amounts.'') @
           '' Pass skipAuditorKeyCheck if the auditor key was changed and you want the transfers this key can read.''))
        else io_return ())))"

definition concurrencyOf :: "'w report_input \<Rightarrow> js_number" where
  "concurrencyOf input =
     atLeastOne (case re_concurrency input of Some c \<Rightarrow> c | None \<Rightarrow> js_int 4)"

definition listConfidentialActivity ::
  "'w kit \<Rightarrow> 'w zk \<Rightarrow> program_client \<Rightarrow> 'w report_input \<Rightarrow> 'w \<Rightarrow> ((exn + activity list) \<times> 'w) option" where
  "listConfidentialActivity K Z P input w =
     (case io_bind ensureZk (\<lambda>_. auditorKeyCheck K input) w of
        (Inl e, w1) \<Rightarrow> Some (Inl e, w1)
      | (Inr _, w1) \<Rightarrow>
          (case signaturesOf input w1 of
             None \<Rightarrow> None
           | Some (Inl e, w2) \<Rightarrow> Some (Inl e, w2)
           | Some (Inr signatures, w2) \<Rightarrow>
               Some (io_bind (reportBatches K Z P input (slicesBy (concurrencyOf input) signatures) [])
                 (\<lambda>perTransaction. io_return (concat (rev perTransaction))) w2)))"

section \<open>Paging is invisible\<close>

text \<open>
  The node's documented behaviour: its signatures of an address, newest first, from the one after
  \<open>before\<close> on, at most \<open>limit\<close> of them.
\<close>

definition after_sig :: "signature option \<Rightarrow> signature_info list \<Rightarrow> signature_info list" where
  "after_sig before history =
     (case before of None \<Rightarrow> history
      | Some s \<Rightarrow> tl (dropWhile (\<lambda>i. si_signature i \<noteq> s) history))"

definition serves_history :: "'w rpc \<Rightarrow> address \<Rightarrow> signature_info list \<Rightarrow> bool" where
  "serves_history R a history \<longleftrightarrow>
     (\<forall>before limit w. rpc_getSignaturesForAddress R a before limit w =
        (Inr (take limit (after_sig before history)), w))"

lemma after_last:
  assumes "distinct (map si_signature (xs @ ys))" and "xs \<noteq> []"
  shows "after_sig (Some (si_signature (last xs))) (xs @ ys) = ys"
proof -
  obtain zs s where xs: "xs = zs @ [s]" using assms(2) by (meson rev_exhaust)
  then have "\<forall>z \<in> set zs. si_signature z \<noteq> si_signature s"
    using assms(1) by (force simp: image_iff)
  then have "dropWhile (\<lambda>i. si_signature i \<noteq> si_signature s) (zs @ s # ys) = s # ys"
    by (simp add: dropWhile_append2)
  then show ?thesis by (simp add: after_sig_def xs)
qed

text \<open>What the paging loop relies on of the function it scans a page with.\<close>

locale page_scanner =
  fixes scan :: "signature list \<Rightarrow> signature_info list \<Rightarrow> bool \<times> signature list"
  assumes scan_Nil: "scan out [] = (False, out)"
    and scan_append: "scan out (xs @ ys) =
      (case scan out xs of (stop, out') \<Rightarrow> if stop then (True, out') else scan out' ys)"
begin

text \<open>Scanning the pages is scanning the whole history at once; in particular the loop returns.\<close>

lemma pages_as_one:
  assumes "serves_history R a history" and "distinct (map si_signature history)"
    and "history = read @ unread" and "after_sig before history = unread"
  shows "pagesFrom R a scan before out w = Some (Inr (snd (scan out unread)), w)"
  using assms(3,4)
proof (induction "length unread" arbitrary: read unread before out rule: less_induct)
  case less
  let ?page = "take PAGE_LIMIT unread" and ?rest = "drop PAGE_LIMIT unread"
  have served: "rpc_getSignaturesForAddress R a before PAGE_LIMIT w = (Inr ?page, w)"
    using assms(1) less.prems(2) by (simp add: serves_history_def)
  obtain stop out' where page: "scan out ?page = (stop, out')" by force
  have whole: "scan out unread = (if stop then (True, out') else scan out' ?rest)"
    using scan_append [of out ?page ?rest] page by simp
  show ?case
  proof (cases "unread = [] \<or> stop \<or> length ?page < PAGE_LIMIT")
    case True
    then show ?thesis
      using served page whole by (subst pagesFrom.simps) (auto simp: scan_Nil PAGE_LIMIT_def)
  next
    case False
    then have full: "?page \<noteq> []" "\<not> stop" "\<not> length ?page < PAGE_LIMIT" "length ?rest < length unread"
      by (auto simp: PAGE_LIMIT_def)
    have split: "history = (read @ ?page) @ ?rest" using less.prems(1) by simp
    have "after_sig (Some (si_signature (last ?page))) history = ?rest"
      using after_last [of "read @ ?page" ?rest] split full(1) assms(2) by (simp add: last_append)
    from less.hyps [OF full(4) split this] have
      "pagesFrom R a scan (Some (si_signature (last ?page))) out' w = Some (Inr (snd (scan out' ?rest)), w)" .
    then show ?thesis
      using served page whole full by (subst pagesFrom.simps) simp
  qed
qed

end

lemma scanPage_append:
  "scanPage limit since until out (xs @ ys) =
     (case scanPage limit since until out xs of
        (stop, out') \<Rightarrow> if stop then (True, out') else scanPage limit since until out' ys)"
  by (induction limit since until out xs rule: scanPage.induct) simp_all

interpretation scanner: page_scanner "scanPage limit since until" for limit since until
  by unfold_locales (simp_all add: scanPage_append)

text \<open>Which signatures of a history are wanted, and how many.\<close>

definition wanted :: "int option \<Rightarrow> int option \<Rightarrow> signature_info list \<Rightarrow> signature list" where
  "wanted since until history =
     map si_signature (filter (\<lambda>s. \<not> tooNew until s \<and> \<not> si_err s)
       (takeWhile (\<lambda>s. \<not> tooOld since s) history))"

lemma scan_unlimited: "snd (scanPage None since until out history) = out @ wanted since until history"
  by (induction "None :: js_number option" since until out history rule: scanPage.induct)
    (simp_all add: full_def wanted_def)

lemma full_int: "full (Some (js_int (int n))) k \<longleftrightarrow> n \<le> k"
  by (simp add: full_def js_int_def)

lemma scan_limited:
  "snd (scanPage (Some (js_int (int n))) since until out history) =
     out @ take (n - length out) (wanted since until history)"
proof (induction history arbitrary: out)
  case Nil
  then show ?case by (simp add: wanted_def)
next
  case (Cons s history)
  then show ?case
    by (cases "n \<le> length out") (simp_all add: full_int wanted_def Suc_diff_Suc take_Cons')
qed

section \<open>The batches do not matter\<close>

lemma slice_drop: "a \<le> b \<Longrightarrow> slice a b xs @ drop b xs = drop a xs"
  by (metis append_take_drop_id drop_drop le_add_diff_inverse2 slice_def)

lemma concat_dyadicSlices: "0 < m \<Longrightarrow> concat (dyadicSlices m k n xs) = drop (n * m div 2 ^ k) xs"
proof (induction m k n xs rule: dyadicSlices.induct)
  case (1 m k n xs)
  show ?case
  proof (cases "n * m < length xs * 2 ^ k")
    case True
    have "n * m div 2 ^ k \<le> Suc n * m div 2 ^ k" by (intro div_le_mono) simp
    with True 1 show ?thesis
      by (simp add: dyadicSlices.simps [of m k n] slice_drop del: mult_Suc)
  next
    case False
    then have "length xs \<le> n * m div 2 ^ k" by (simp add: less_eq_div_iff_mult_less_eq not_less)
    with False show ?thesis by (simp add: dyadicSlices.simps [of m k n])
  qed
qed

lemma slicesBy_all:
  assumes "c \<noteq> NaN"
  shows "concat (slicesBy (atLeastOne c) xs) = xs"
proof (cases c)
  case (Dyadic m k)
  have pos: "0 < nat m" if "2 ^ k \<le> m" for m :: int and k
  proof -
    have "(0::int) < 2 ^ k" by simp
    with that show ?thesis by linarith
  qed
  show ?thesis
    using concat_dyadicSlices [of "nat m" k 0 xs] concat_dyadicSlices [of 1 0 0 xs] pos [of k m]
    by (simp add: Dyadic js_int_def)
next
  case (Infinite p)
  then show ?thesis
    using concat_dyadicSlices [of 1 0 0 xs] by (cases p) (simp_all add: js_int_def)
qed (use assms in simp)

text \<open>One transaction after the other, the reference for the report.\<close>

definition readAll ::
  "'w kit \<Rightarrow> 'w zk \<Rightarrow> program_client \<Rightarrow> 'w report_input \<Rightarrow> signature list \<Rightarrow> ('w, activity list list) task" where
  "readAll K Z P input signatures =
     io_map (\<lambda>s. io_bind (rpc_getTransaction (re_rpc input) s) (\<lambda>tx.
       io_of (entriesOf K Z P input (s, tx)))) signatures"

lemma io_map_append_Inr:
  "io_map f (xs @ ys) w = (Inr zs, w') \<longleftrightarrow>
     (\<exists>as bs w1. io_map f xs w = (Inr as, w1) \<and> io_map f ys w1 = (Inr bs, w') \<and> zs = as @ bs)"
  by (induction xs arbitrary: zs w) (auto simp: io_elim)

lemma io_settle_all:
  "io_map id ts w = (Inr ys, w') \<Longrightarrow> io_settle ts w = (map Inr ys, w')"
  by (induction ts arbitrary: ys w) (auto simp: io_elim)

lemma failures_Inr [simp]: "failures (map Inr ys) = []" "successes (map Inr ys) = ys"
  by (induction ys) simp_all

lemma promise_all_Inr: "promise_all race ts w = (Inr ys, w') \<longleftrightarrow> io_map id ts w = (Inr ys, w')"
  using promise_all_Inr_seq [of race ts w ys w'] io_settle_all [of ts w ys w']
  by (auto simp: promise_all_def)

lemma promise_all_Nil_Inr: "promise_all race [] w = (Inr ys, w') \<longleftrightarrow> ys = [] \<and> w' = w"
  by (auto simp: promise_all_def)

lemma promise_all_Cons_Inr:
  "promise_all race (t # ts) w = (Inr ys, w') \<longleftrightarrow>
     (\<exists>y w1 ys'. t w = (Inr y, w1) \<and> promise_all race ts w1 = (Inr ys', w') \<and> ys = y # ys')"
  by (auto simp: promise_all_Inr io_elim)

lemma readAll_Cons:
  "readAll K Z P input (s # sigs) w = (Inr es, w') \<longleftrightarrow>
     (\<exists>tx w1 e es'. rpc_getTransaction (re_rpc input) s w = (Inr tx, w1) \<and>
        entriesOf K Z P input (s, tx) = Inr e \<and> readAll K Z P input sigs w1 = (Inr es', w') \<and>
        es = e # es')"
  by (auto simp: readAll_def io_elim)

lemma readAll_batch:
  "(\<exists>txs. promise_all race (map (rpc_getTransaction (re_rpc input)) batch) w = (Inr txs, w') \<and>
      result_map (entriesOf K Z P input) (zip batch txs) = Inr es) \<longleftrightarrow>
   readAll K Z P input batch w = (Inr es, w')"
proof (induction batch arbitrary: es w)
  case Nil
  then show ?case by (auto simp: readAll_def promise_all_Nil_Inr)
next
  case (Cons s batch)
  have "readAll K Z P input (s # batch) w = (Inr es, w') \<longleftrightarrow>
      (\<exists>tx w1 e es' txs. rpc_getTransaction (re_rpc input) s w = (Inr tx, w1) \<and>
        entriesOf K Z P input (s, tx) = Inr e \<and>
        promise_all race (map (rpc_getTransaction (re_rpc input)) batch) w1 = (Inr txs, w') \<and>
        result_map (entriesOf K Z P input) (zip batch txs) = Inr es' \<and> es = e # es')"
    unfolding readAll_Cons Cons.IH [symmetric] by blast
  then show ?case by (auto simp: promise_all_Cons_Inr result_bind_eq_Inr)
qed

lemma readAll_append:
  "readAll K Z P input (xs @ ys) w = (Inr es, w') \<longleftrightarrow>
     (\<exists>as bs w1. readAll K Z P input xs w = (Inr as, w1) \<and> readAll K Z P input ys w1 = (Inr bs, w') \<and>
        es = as @ bs)"
  unfolding readAll_def by (rule io_map_append_Inr)

lemma reportBatches_Inr:
  "reportBatches K Z P input bs acc w = (Inr r, w') \<longleftrightarrow>
     (\<exists>es. readAll K Z P input (concat bs) w = (Inr es, w') \<and> r = acc @ es)"
proof (induction bs arbitrary: acc w)
  case Nil
  then show ?case by (auto simp: readAll_def)
next
  case (Cons b bs)
  have "reportBatches K Z P input (b # bs) acc w = (Inr r, w') \<longleftrightarrow>
      (\<exists>as w1. readAll K Z P input b w = (Inr as, w1) \<and>
         reportBatches K Z P input bs (acc @ as) w1 = (Inr r, w'))"
    by (simp add: io_bind_eq_Inr readAll_batch [where race = "kit_race K", symmetric]) blast
  then show ?case by (auto simp: Cons.IH readAll_append)
qed

text \<open>What a report that was written is made of.\<close>

lemma list_Some:
  "listConfidentialActivity K Z P input w = Some (Inr acts, w') \<longleftrightarrow>
     (\<exists>w1 w2 sigs per. auditorKeyCheck K input w = (Inr (), w1) \<and>
        signaturesOf input w1 = Some (Inr sigs, w2) \<and>
        reportBatches K Z P input (slicesBy (concurrencyOf input) sigs) [] w2 = (Inr per, w') \<and>
        acts = concat (rev per))"
  by (auto simp: listConfidentialActivity_def ensureZk_def io_bind_eq_Inr
      split: prod.splits sum.splits option.splits)

lemma concurrency_slices:
  assumes "re_concurrency input \<noteq> Some NaN"
  shows "concat (slicesBy (concurrencyOf input) sigs) = sigs"
  unfolding concurrencyOf_def
  by (rule slicesBy_all) (use assms in \<open>auto simp: js_int_def split: option.splits\<close>)

lemma list_report:
  assumes "re_concurrency input \<noteq> Some NaN"
  shows "listConfidentialActivity K Z P input w = Some (Inr acts, w') \<longleftrightarrow>
     (\<exists>w1 w2 sigs per. auditorKeyCheck K input w = (Inr (), w1) \<and>
        signaturesOf input w1 = Some (Inr sigs, w2) \<and>
        readAll K Z P input sigs w2 = (Inr per, w') \<and> acts = concat (rev per))"
  by (simp add: list_Some reportBatches_Inr concurrency_slices [OF assms])

text \<open>An amount is missing exactly where a note says why; only transfers are decrypted.\<close>

definition accounted :: "movement \<Rightarrow> bool" where
  "accounted m \<longleftrightarrow> (mv_amount m = None) = (mv_note m \<noteq> None) \<and>
     (mv_decrypted m \<longleftrightarrow> mv_kind m = Kind_Transfer \<and> mv_amount m \<noteq> None)"

lemma accounted_simps [simp]:
  "kind \<noteq> Kind_Transfer \<Longrightarrow> accounted (plainMovement kind a amount)"
  "accounted (transferMovement Kind_Transfer from to (Some amount) None)"
  "accounted (transferMovement kind from to None (Some note))"
  by (simp_all add: accounted_def plainMovement_def transferMovement_def)

lemma accounted_case:
  "accounted (case r of Inr amount \<Rightarrow> transferMovement Kind_Transfer from to (Some amount) None
     | Inl _ \<Rightarrow> transferMovement kind from to None (Some note))"
  by (cases r) simp_all

lemma toActivity_accounted: "toActivity Z P data ix keys owners secret = Inr (Some m) \<Longrightarrow> accounted m"
  by (auto simp: toActivity_def Let_def io_elim accounted_case split: if_split_asm)

lemma movementsOf_accounted:
  "movementsOf K Z P program mintAddress secret keys owners ixs = Inr ms \<Longrightarrow> m \<in> set ms \<Longrightarrow> accounted m"
proof (induction ixs arbitrary: ms)
  case Nil
  then show ?case by simp
next
  case (Cons ix ixs)
  let ?more = "movementsOf K Z P program mintAddress secret keys owners ixs"
  have "?more = Inr ms \<or> (\<exists>data e rest. toActivity Z P data ix keys owners secret = Inr (Some e) \<and>
      ?more = Inr rest \<and> ms = e # rest)"
    using Cons.prems(1) by (auto simp: Let_def io_elim split: if_split_asm option.split_asm)
  then show ?case using Cons.IH Cons.prems(2) toActivity_accounted by fastforce
qed

lemma entriesOf_accounted:
  "entriesOf K Z P input f = Inr es \<Longrightarrow> e \<in> set es \<Longrightarrow> accounted (ac_movement e)"
  by (auto simp: entriesOf_def Let_def io_elim split: if_splits option.splits)
    (drule (1) movementsOf_accounted)

lemma readAll_entries:
  "readAll K Z P input sigs w = (Inr per, w') \<Longrightarrow> es \<in> set per \<Longrightarrow>
     \<exists>s tx. s \<in> set sigs \<and> entriesOf K Z P input (s, tx) = Inr es"
proof (induction sigs arbitrary: per w)
  case Nil
  then show ?case by (simp add: readAll_def)
next
  case (Cons s sigs)
  then obtain tx w1 e per' where "entriesOf K Z P input (s, tx) = Inr e"
      "readAll K Z P input sigs w1 = (Inr per', w')" "per = e # per'"
    unfolding readAll_Cons by blast
  with Cons show ?case by (metis list.set_intros set_ConsD)
qed

text \<open>The report and the single reading decrypt alike.\<close>

lemma audited_reported:
  "auditedAmount Z P secret data = Inr a \<Longrightarrow> pc_decodeTransfer P data = Inr cts \<Longrightarrow>
     reportedAmount Z secret cts = Inr a"
  by (auto simp: auditedAmount_def reportedAmount_def split: option.splits prod.splits)

lemma readAll_concurrency:
  "readAll K Z P (input\<lparr>re_concurrency := c\<rparr>) sigs = readAll K Z P input sigs"
proof -
  have "entriesOf K Z P (input\<lparr>re_concurrency := c\<rparr>) f = entriesOf K Z P input f" for f
    by (auto simp: entriesOf_def programOfReport_def Let_def split: option.splits)
  then show ?thesis by (simp add: readAll_def)
qed

lemma checks_concurrency:
  "auditorKeyCheck K (input\<lparr>re_concurrency := c\<rparr>) = auditorKeyCheck K input"
  "signaturesOf (input\<lparr>re_concurrency := c\<rparr>) = signaturesOf input"
  by (simp_all add: auditorKeyCheck_def signaturesOf_def fun_eq_iff cong: if_cong sum.case_cong)

lemma history_read:
  assumes "serves_history (re_rpc input) (re_mint input) history"
    and "distinct (map si_signature history)"
    and "boundOf (re_since input) = Inr since" and "boundOf (re_until input) = Inr until"
    and "re_maxTransactions input = map_option (\<lambda>n. js_int (int n)) limit"
  shows "signaturesOf input w = Some (Inr (case limit of
       None \<Rightarrow> wanted since until history | Some n \<Rightarrow> take n (wanted since until history)), w)"
proof -
  have "signaturesOf input w =
      Some (Inr (snd (scanPage (re_maxTransactions input) since until [] history)), w)"
    using scanner.pages_as_one [OF assms(1,2), of "[]" history None] assms(3,4)
    by (simp add: signaturesOf_def after_sig_def)
  then show ?thesis
    by (cases limit) (simp_all add: assms(5) scan_unlimited scan_limited)
qed

section \<open>Properties\<close>




text \<open>With a concurrency of NaN, which the command line passes on for a value that is not a
  number, the report is empty without an error, whatever the mint's history is.\<close>

theorem nan_concurrency_empty_report:
  assumes "re_concurrency input = Some NaN"
    and "auditorKeyCheck K input w = (Inr (), w1)" and "signaturesOf input w1 = Some (Inr sigs, w2)"
  shows "listConfidentialActivity K Z P input w = Some (Inr [], w2)"
  using assms
  by (cases "sigs = []")
    (simp_all add: listConfidentialActivity_def ensureZk_def concurrencyOf_def promise_all_def)

text \<open>Unless the check is skipped, a key that is not the mint's current auditor key is refused
  with KEYS_MISMATCH after one read of the mint, before any of its history is read.\<close>

theorem other_auditor_refused:
  assumes "\<not> re_skipAuditorKeyCheck input"
    and "rpc_fetchMint (re_rpc input) (re_mint input) w = (Inr data, w1)"
    and "getAuditorElgamalPubkey K (re_keypair input) = Inr ours"
    and "auditorOfMint data \<noteq> Some ours"
  shows "\<exists>e. listConfidentialActivity K Z P input w = Some (Inl e, w1) \<and>
     refused_with KEYS_MISMATCH ''listConfidentialActivity'' e"
proof -
  have "readMint (re_rpc input) (re_mint input) ''listConfidentialActivity'' w = (Inr data, w1)"
    using assms(2) by (simp add: readMint_def)
  then have "\<exists>e. auditorKeyCheck K input w = (Inl e, w1) \<and>
      refused_with KEYS_MISMATCH ''listConfidentialActivity'' e"
    using assms(1,3,4) by (simp add: auditorKeyCheck_def)
  then show ?thesis by (auto simp: listConfidentialActivity_def ensureZk_def)
qed

subsection \<open>Witnesses\<close>

definition history_rpc ::
  "signature_info list \<Rightarrow> (signature \<Rightarrow> rpc_transaction option) \<Rightarrow> address option \<Rightarrow> nat rpc" where
  "history_rpc history tx auditor = offline_rpc\<lparr>
     rpc_getSignaturesForAddress := (\<lambda>_ before limit. io_return (take limit (after_sig before history))),
     rpc_getTransaction := (\<lambda>s. io_return (tx s)),
     rpc_fetchMint := (\<lambda>_. io_return \<lparr>mt_decimals = 2,
       mt_extensions = Some [ConfidentialTransferMint auditor]\<rparr>)\<rparr>"

definition info :: "signature \<Rightarrow> int \<Rightarrow> signature_info" where
  "info s t = \<lparr>si_signature = s, si_blockTime = Some t, si_err = False\<rparr>"

definition two_transfers :: "signature_info list" where
  "two_transfers = [info ''s2'' 20, info ''s1'' 10]"

definition report_of :: "address option \<Rightarrow> js_number option \<Rightarrow> nat report_input" where
  "report_of auditor c = \<lparr>
     re_rpc = history_rpc two_transfers (\<lambda>s. Some (audited_tx (transfer_data (if s = ''s1'' then 1 else 2) 0))) auditor,
     re_mint = ''mint'', re_keypair = some_keypair, re_since = Some (Some 5500), re_until = None,
     re_maxTransactions = None, re_concurrency = c, re_skipAuditorKeyCheck = False,
     re_programAddress = Some ''prog''\<rparr>"

lemma serves_two: "serves_history (re_rpc (report_of a c)) m two_transfers"
  by (simp add: serves_history_def report_of_def history_rpc_def)

lemma distinct_two: "distinct (map si_signature two_transfers)"
  by (simp add: two_transfers_def info_def)


lemma toy_pubkey: "kit_decodeAddress text_kit [107] = Inr ''k''"
  by code_simp

lemma toy_key_check: "auditorKeyCheck text_kit (report_of (Some ''k'') c) w = (Inr (), w)"
  by code_simp

lemma transfer_data_items:
  "item (transfer_data lo hi) 0 = Some 27" "item (transfer_data lo hi) (Suc 0) = Some 7"
  "pc_decodeTransfer toy_program (transfer_data lo hi) = Inr (point lo @ point 0, point hi @ point 0)"
  by (simp_all add: transfer_data_def item_def toy_program_def)

definition listed :: "signature \<Rightarrow> int \<Rightarrow> int \<Rightarrow> activity" where
  "listed s lo hi = \<lparr>ac_signature = s, ac_slot = 7, ac_blockTime = Some (Some 1790000000000),
     ac_movement = transferMovement Kind_Transfer (Some ''from'', Some ''alice'') (Some ''to'', None)
       (Some (lo + hi * 2 ^ 16)) None\<rparr>"

lemma toy_reported:
  assumes "0 \<le> lo" "lo < 256" "0 \<le> hi" "hi < 256"
  shows "reportedAmount (toy_zk :: nat zk) secret (point lo @ point 0, point hi @ point 0) = Inr (lo + hi * 2 ^ 16)"
  using assms
  by (simp add: reportedAmount_def decryptHalves_def toy_zk_def idle_zk_def point_def byte_group_def
      AUDITOR_LO_BIT_LENGTH_def bigint_shl_eq uint_word_of_int_eq take_bit_int_eq_self)

lemma toy_entries:
  assumes "0 \<le> lo" "lo < 256" "0 \<le> hi" "hi < 256"
  shows "entriesOf text_kit (toy_zk :: nat zk) toy_program (report_of a c)
     (s, Some (audited_tx (transfer_data lo hi))) = Inr [listed s lo hi]"
  using transfer_data_items [of lo hi] toy_reported [OF assms]
  by (simp add: entriesOf_def audited_tx_def keysOf_def or_nil_def innerOf_def allInstructions_def
      enumerate_eq_zip ownersOf_def programOfReport_def report_of_def item_def accountAt_def
      text_kit_base58 toActivity_def toy_program_def listed_def makeDate_def)

lemma toy_signatures: "signaturesOf (report_of a c) w = Some (Inr [''s2'', ''s1''], w)"
  using history_read [OF serves_two distinct_two, of a c "Some 5" None None w]
  by (simp add: report_of_def boundOf_def secondsOf_def wanted_def two_transfers_def info_def tooOld_def
      tooNew_def)

lemma toy_report:
  assumes "c \<noteq> NaN"
  shows "listConfidentialActivity text_kit toy_zk toy_program (report_of (Some ''k'') (Some c)) 0 =
     Some (Inr [listed ''s1'' 1 0, listed ''s2'' 2 0], 0)"
proof -
  have "rpc_getTransaction (re_rpc (report_of (Some ''k'') (Some c))) s w =
      (Inr (Some (audited_tx (transfer_data (if s = ''s1'' then 1 else 2) 0))), w)" for s w
    by (simp add: report_of_def history_rpc_def)
  then have "readAll text_kit (toy_zk :: nat zk) toy_program (report_of (Some ''k'') (Some c)) [''s2'', ''s1''] 0 =
      (Inr [[listed ''s2'' 2 0], [listed ''s1'' 1 0]], 0)"
    by (simp add: readAll_def toy_entries)
  moreover have "re_concurrency (report_of (Some ''k'') (Some c)) \<noteq> Some NaN"
    using assms by (simp add: report_of_def)
  ultimately show ?thesis by (simp add: list_report toy_key_check toy_signatures)
qed



theorem nan_concurrency_empty_report_witness:
  "listConfidentialActivity text_kit toy_zk toy_program (report_of (Some ''k'') (Some NaN)) 0 = Some (Inr [], 0)"
proof (rule nan_concurrency_empty_report)
  show "re_concurrency (report_of (Some ''k'') (Some NaN)) = Some NaN" by (simp add: report_of_def)
qed (rule toy_key_check toy_signatures)+

theorem other_auditor_refused_witness:
  "\<exists>e. listConfidentialActivity text_kit toy_zk toy_program (report_of (Some ''other'') None) 0 = Some (Inl e, 0) \<and>
     refused_with KEYS_MISMATCH ''listConfidentialActivity'' e"
proof (rule other_auditor_refused [where data = "\<lparr>mt_decimals = 2,
      mt_extensions = Some [ConfidentialTransferMint (Some ''other'')]\<rparr>"])
  show "getAuditorElgamalPubkey text_kit (re_keypair (report_of (Some ''other'') None)) = Inr ''k''"
    using toy_pubkey
    by (simp add: getAuditorElgamalPubkey_def assertZkReady_def report_of_def some_keypair_def)
qed (simp_all add: report_of_def history_rpc_def auditorOfMint_def or_nil_def)

text \<open>An activity before \<open>until\<close> that is left out, because the bound is cut to whole seconds.\<close>

lemma until_is_cut:
  "boundOf (Some (Some 1500)) = Inr (Some 1)" "wanted None (Some 1) [info ''s'' 1] = []" "1 * 1000 < (1500 :: int)"
  by (simp_all add: boundOf_def secondsOf_def wanted_def tooOld_def tooNew_def info_def)

end
