(* ===== verification/Csv.thy ===== *)
theory Csv
  imports Auditor_Report
begin

text \<open>
  The report as CSV: \<open>confidentialActivityToCsv\<close> of \<open>src/src/auditorReport.ts\<close>, with the ISO 8601
  rendering of a \<open>Date\<close>. A reader of RFC 4180 files, a state machine over the characters, is the
  specification it is compared with.
\<close>

section \<open>Times\<close>

text \<open>The civil date of a day count from 1970-01-01, in the proleptic Gregorian calendar.\<close>

definition civil :: "int \<Rightarrow> int \<times> int \<times> int" where
  "civil days =
     (let z = days + 719468; era = z div 146097; doe = z mod 146097;
          yoe = (doe - doe div 1460 + doe div 36524 - doe div 146096) div 365;
          doy = doe - (365 * yoe + yoe div 4 - yoe div 100);
          mp = (5 * doy + 2) div 153;
          month = (if mp < 10 then mp + 3 else mp - 9)
      in (yoe + era * 400 + (if month \<le> 2 then 1 else 0), month, doy - (153 * mp + 2) div 5 + 1))"

definition padded :: "nat \<Rightarrow> int \<Rightarrow> string" where
  "padded n i = padStart n (CHR ''0'') (show_int i)"

definition yearText :: "int \<Rightarrow> string" where
  "yearText y =
     (if 0 \<le> y \<and> y \<le> 9999 then padded 4 y
      else (if y < 0 then ''-'' else ''+'') @ padded 6 \<bar>y\<bar>)"

definition toISOString :: "date \<Rightarrow> exn + string" where
  "toISOString d =
     (case d of
        None \<Rightarrow> Inl (Js_Error ''RangeError'' ''Invalid time value'')
      | Some ms \<Rightarrow>
          (let (year, month, day) = civil (ms div 86400000); t = ms mod 86400000 in
           Inr (yearText year @ ''-'' @ padded 2 month @ ''-'' @ padded 2 day @ ''T'' @
             padded 2 (t div 3600000) @ '':'' @ padded 2 (t div 60000 mod 60) @ '':'' @
             padded 2 (t div 1000 mod 60) @ ''.'' @ padded 3 (t mod 1000) @ ''Z'')))"

lemma iso_epoch: "toISOString (Some 0) = Inr ''1970-01-01T00:00:00.000Z''"
  by code_simp

lemma iso_before_epoch: "toISOString (Some (- 1)) = Inr ''1969-12-31T23:59:59.999Z''"
  by code_simp

lemma iso_leap_day: "toISOString (Some 951782400000) = Inr ''2000-02-29T00:00:00.000Z''"
  by code_simp

section \<open>The module's functions\<close>

abbreviation crlf :: string where "crlf \<equiv> [CHR 0x0D, CHR 0x0A]"
abbreviation comma :: char where "comma \<equiv> CHR 0x2C"
abbreviation quote :: char where "quote \<equiv> CHR 0x22"

definition special :: "char \<Rightarrow> bool" where
  "special c \<longleftrightarrow> c = quote \<or> c = comma \<or> c = CHR 0x0D \<or> c = CHR 0x0A"

fun doubleQuotes :: "string \<Rightarrow> string" where
  "doubleQuotes [] = []"
| "doubleQuotes (c # cs) = (if c = quote then [quote, quote] else [c]) @ doubleQuotes cs"

definition csvField :: "string \<Rightarrow> string" where
  "csvField field =
     (if list_ex special field then [quote] @ doubleQuotes field @ [quote] else field)"

definition formatUnits :: "int \<Rightarrow> nat \<Rightarrow> string" where
  "formatUnits amount decimals =
     (if decimals = 0 then show_int amount
      else
        let s = padStart (decimals + 1) (CHR ''0'') (show_int amount); n = length s - decimals in
        take n s @ ''.'' @ drop n s)"

fun kindText :: "activity_kind \<Rightarrow> string" where
  "kindText Kind_Deposit = ''deposit''"
| "kindText Kind_Transfer = ''transfer''"
| "kindText Kind_Withdraw = ''withdraw''"
| "kindText Kind_Transfer_With_Fee = ''transfer-with-fee''"

definition or_empty :: "string option \<Rightarrow> string" where
  "or_empty s = (case s of None \<Rightarrow> [] | Some t \<Rightarrow> t)"

definition csvHeader :: "nat option \<Rightarrow> string list" where
  "csvHeader decimals =
     [''time_utc'', ''slot'', ''signature'', ''kind'', ''from_owner'', ''from_account'', ''to_owner'',
      ''to_account'', ''amount_base_units''] @
     (case decimals of None \<Rightarrow> [] | Some _ \<Rightarrow> [''amount'']) @ [''decrypted'', ''note'']"

definition csvRow :: "nat option \<Rightarrow> activity \<Rightarrow> exn + string list" where
  "csvRow decimals a =
     (let m = ac_movement a in
      result_bind (case ac_blockTime a of None \<Rightarrow> Inr [] | Some t \<Rightarrow> toISOString t) (\<lambda>time.
      Inr ([time, show_int (ac_slot a), ac_signature a, kindText (mv_kind m), or_empty (mv_fromOwner m),
        or_empty (mv_fromToken m), or_empty (mv_toOwner m), or_empty (mv_toToken m),
        (case mv_amount m of None \<Rightarrow> [] | Some v \<Rightarrow> show_int v)] @
       (case decimals of None \<Rightarrow> []
        | Some d \<Rightarrow> [case mv_amount m of None \<Rightarrow> [] | Some v \<Rightarrow> formatUnits v d]) @
       [if mv_decrypted m then ''yes'' else ''no'', or_empty (mv_note m)])))"

definition csvLine :: "string list \<Rightarrow> string" where
  "csvLine row = join [comma] (map csvField row)"

definition confidentialActivityToCsv :: "activity list \<Rightarrow> nat option \<Rightarrow> exn + string" where
  "confidentialActivityToCsv activities decimals =
     result_bind (result_map (\<lambda>a. result_bind (csvRow decimals a) (\<lambda>row. Inr (csvLine row))) activities)
       (\<lambda>rows. Inr (join crlf (join [comma] (csvHeader decimals) # rows) @ crlf))"

section \<open>A reader of RFC 4180\<close>

datatype csv_mode = At_Start | Plain | Quoted | Closing

fun readCsv :: "string list \<Rightarrow> string \<Rightarrow> csv_mode \<Rightarrow> string \<Rightarrow> string list list option" where
  "readCsv row cur mode [] = (if mode = At_Start \<and> row = [] then Some [] else None)"
| "readCsv row cur Quoted (c # cs) =
     (if c = quote then readCsv row cur Closing cs else readCsv row (cur @ [c]) Quoted cs)"
| "readCsv row cur mode (c # cs) =
     (if c = comma then readCsv (row @ [cur]) [] At_Start cs
      else if c = CHR 0x0D
      then (case cs of
              d # ds \<Rightarrow> if d = CHR 0x0A then map_option ((#) (row @ [cur])) (readCsv [] [] At_Start ds)
                else None
            | [] \<Rightarrow> None)
      else if c = CHR 0x0A then None
      else if c = quote
      then (case mode of
              At_Start \<Rightarrow> readCsv row [] Quoted cs
            | Closing \<Rightarrow> readCsv row (cur @ [quote]) Quoted cs
            | _ \<Rightarrow> None)
      else if mode = Closing then None
      else readCsv row (cur @ [c]) Plain cs)"

definition parseCsv :: "string \<Rightarrow> string list list option" where
  "parseCsv s = readCsv [] [] At_Start s"

definition csvFile :: "string list list \<Rightarrow> string" where
  "csvFile rows = concat (map (\<lambda>row. csvLine row @ crlf) rows)"

text \<open>A field ends the same way in every mode it can end in.\<close>

lemma field_ends:
  assumes "mode = At_Start \<or> mode = Plain \<or> mode = Closing"
  shows "readCsv row cur mode (comma # cs) = readCsv (row @ [cur]) [] At_Start cs"
    and "readCsv row cur mode (crlf @ cs) = map_option ((#) (row @ [cur])) (readCsv [] [] At_Start cs)"
  using assms by auto

lemma read_plain:
  "\<not> list_ex special s \<Longrightarrow> readCsv row cur Plain (s @ rest) = readCsv row (cur @ s) Plain rest"
  by (induction s arbitrary: cur) (simp_all add: special_def)

lemma read_quoted: "readCsv row cur Quoted (doubleQuotes s @ rest) = readCsv row (cur @ s) Quoted rest"
  by (induction s arbitrary: cur) simp_all

lemma read_field:
  "\<exists>mode. (mode = At_Start \<or> mode = Plain \<or> mode = Closing) \<and>
     readCsv row [] At_Start (csvField s @ rest) = readCsv row s mode rest"
proof (cases "list_ex special s")
  case True
  then have "readCsv row [] At_Start (csvField s @ rest) = readCsv row s Closing rest"
    by (simp add: csvField_def read_quoted)
  then show ?thesis by blast
next
  case False
  then show ?thesis
  proof (cases s)
    case Nil
    then show ?thesis by (auto simp: csvField_def)
  next
    case (Cons c cs)
    with False have "readCsv row [] At_Start (csvField s @ rest) = readCsv row s Plain rest"
      using read_plain [of cs row "[c]" rest] by (simp add: csvField_def special_def)
    then show ?thesis by blast
  qed
qed

lemma read_field_comma: "readCsv row [] At_Start (csvField s @ comma # rest) = readCsv (row @ [s]) [] At_Start rest"
  using read_field [of row s "comma # rest"] field_ends(1) by metis

lemma read_field_end:
  "readCsv row [] At_Start (csvField s @ crlf @ rest) =
     map_option ((#) (row @ [s])) (readCsv [] [] At_Start rest)"
  using read_field [of row s "crlf @ rest"] field_ends(2) by metis

lemma read_line:
  "cells \<noteq> [] \<Longrightarrow> readCsv row [] At_Start (csvLine cells @ crlf @ rest) =
     map_option ((#) (row @ cells)) (readCsv [] [] At_Start rest)"
proof (induction "[comma]" "map csvField cells" arbitrary: cells row rule: join.induct)
  case (2 x)
  then obtain s where "cells = [s]" by auto
  then show ?case by (simp only: csvLine_def list.map join.simps read_field_end)
next
  case (3 x y ys)
  then obtain s t ts where f: "cells = s # t # ts" by (metis map_eq_Cons_conv)
  have "readCsv row [] At_Start (csvLine cells @ crlf @ rest) =
      readCsv (row @ [s]) [] At_Start (csvLine (t # ts) @ crlf @ rest)"
    using read_field_comma [of row s "csvLine (t # ts) @ crlf @ rest"] by (simp add: f csvLine_def)
  also have "\<dots> = map_option ((#) (row @ cells)) (readCsv [] [] At_Start rest)"
    using 3(1) [of "t # ts" "row @ [s]"] 3(2) f by simp
  finally show ?case .
qed simp

lemma parse_file: "[] \<notin> set rows \<Longrightarrow> parseCsv (csvFile rows) = Some rows"
proof (induction rows)
  case Nil
  then show ?case by (simp add: parseCsv_def csvFile_def)
next
  case (Cons row rows)
  have "csvFile (row # rows) = csvLine row @ crlf @ csvFile rows" by (simp add: csvFile_def)
  moreover have "row \<noteq> []" "[] \<notin> set rows" using Cons.prems by auto
  ultimately show ?case
    using read_line [of row "[]" "csvFile rows"] Cons.IH unfolding parseCsv_def by (simp del: append.simps)
qed

interpretation csv_codec: codec "\<lambda>rows. [] \<notin> set rows" csvFile parseCsv
  by unfold_locales (rule parse_file)

section \<open>The file is that of its rows\<close>

lemma join_lines: "join crlf (line # rest) @ crlf = concat (map (\<lambda>l. l @ crlf) (line # rest))"
  by (induction rest arbitrary: line) simp_all

lemma header_line: "join [comma] (csvHeader decimals) = csvLine (csvHeader decimals)"
  by (cases decimals) (simp_all add: csvHeader_def csvLine_def csvField_def special_def)

lemma result_map_lines:
  "result_map (\<lambda>a. result_bind (f a) (\<lambda>row. Inr (g row))) xs = Inr ls \<longleftrightarrow>
     (\<exists>rows. result_map f xs = Inr rows \<and> ls = map g rows)"
proof (induction xs arbitrary: ls)
  case Nil
  then show ?case by auto
next
  case (Cons x xs)
  show ?case by (auto simp: result_bind_eq_Inr Cons.IH)
qed

lemma csv_file:
  "confidentialActivityToCsv acts decimals = Inr contents \<longleftrightarrow>
     (\<exists>rows. result_map (csvRow decimals) acts = Inr rows \<and> contents = csvFile (csvHeader decimals # rows))"
proof -
  have "join crlf (join [comma] (csvHeader decimals) # map csvLine rows) @ crlf =
      csvFile (csvHeader decimals # rows)" for rows
    unfolding join_lines header_line csvFile_def by (simp add: comp_def)
  then show ?thesis
    by (auto simp: confidentialActivityToCsv_def result_bind_eq_Inr result_map_lines)
qed

lemma csvRow_length:
  "csvRow decimals a = Inr row \<Longrightarrow> length row = length (csvHeader decimals)"
  by (auto simp: csvRow_def csvHeader_def Let_def result_bind_eq_Inr split: option.splits)

lemma result_map_all: "result_map f xs = Inr ys \<Longrightarrow> y \<in> set ys \<Longrightarrow> \<exists>x \<in> set xs. f x = Inr y"
  by (induction xs arbitrary: ys) (auto simp: result_bind_eq_Inr)

section \<open>Amounts in tokens\<close>

definition readDigits :: "string \<Rightarrow> nat" where
  "readDigits s = foldl (\<lambda>n c. 10 * n + (of_char c - 48)) 0 s"

lemma foldl_digits: "foldl (\<lambda>n c. 10 * n + (of_char c - 48)) k s = k * 10 ^ length s + readDigits s"
proof (induction s rule: rev_induct)
  case (snoc c s)
  then show ?case by (simp add: readDigits_def)
qed (simp add: readDigits_def)

lemma readDigits_append: "readDigits (s @ t) = readDigits s * 10 ^ length t + readDigits t"
proof -
  have "readDigits (s @ t) = foldl (\<lambda>n c. 10 * n + (of_char c - 48)) (readDigits s) t"
    by (simp add: readDigits_def)
  then show ?thesis by (simp only: foldl_digits)
qed

lemma readDigits_digit: "d < 10 \<Longrightarrow> readDigits [digit d] = d"
proof -
  have "list_all (\<lambda>d. readDigits [digit d] = d) [0..<10]" by code_simp
  then show "d < 10 \<Longrightarrow> readDigits [digit d] = d" by (simp add: list_all_iff)
qed

lemma readDigits_show: "readDigits (show_nat n) = n"
proof (induction n rule: show_nat.induct)
  case (1 n)
  then show ?case
    by (subst show_nat.simps) (simp add: readDigits_append readDigits_digit)
qed

lemma readDigits_zeros: "readDigits (replicate n (CHR ''0'')) = 0"
proof (induction n)
  case (Suc n)
  then show ?case using readDigits_append [of "[CHR ''0'']" "replicate n (CHR ''0'')"] by (simp add: readDigits_def)
qed (simp add: readDigits_def)

lemma formatUnits_parts:
  assumes "0 \<le> amount" and "0 < decimals"
  shows "\<exists>whole fraction. formatUnits amount decimals = whole @ ''.'' @ fraction \<and> whole \<noteq> [] \<and>
     length fraction = decimals \<and> int (readDigits whole * 10 ^ decimals + readDigits fraction) = amount"
proof -
  let ?s = "padStart (decimals + 1) (CHR ''0'') (show_int amount)"
  let ?n = "length ?s - decimals"
  have "decimals < length ?s" by simp
  then have "0 < ?n" "?n \<le> length ?s" "length ?s - ?n = decimals" by linarith+
  then have parts: "take ?n ?s \<noteq> []" "length (drop ?n ?s) = decimals"
    by (fastforce simp only: take_eq_Nil length_drop list.size)+
  have format: "formatUnits amount decimals = take ?n ?s @ ''.'' @ drop ?n ?s"
    using assms(2) unfolding formatUnits_def Let_def by simp
  have "readDigits ?s = nat amount"
    using assms(1) by (simp add: padStart_def readDigits_append readDigits_zeros show_int_def readDigits_show)
  moreover have "readDigits ?s = readDigits (take ?n ?s) * 10 ^ length (drop ?n ?s) + readDigits (drop ?n ?s)"
    using readDigits_append [of "take ?n ?s" "drop ?n ?s"] by simp
  ultimately have "readDigits (take ?n ?s) * 10 ^ decimals + readDigits (drop ?n ?s) = nat amount"
    unfolding parts(2) by simp
  then show ?thesis
    using format parts assms(1) by (intro exI [of _ "take ?n ?s"] exI [of _ "drop ?n ?s"]) simp
qed

lemma csv_parsed:
  assumes "confidentialActivityToCsv acts decimals = Inr contents"
  shows "\<exists>rows. parseCsv contents = Some (csvHeader decimals # rows) \<and>
     result_map (csvRow decimals) acts = Inr rows \<and>
     list_all (\<lambda>row. length row = length (csvHeader decimals)) rows"
proof -
  obtain rows where rows: "result_map (csvRow decimals) acts = Inr rows"
      "contents = csvFile (csvHeader decimals # rows)"
    using assms unfolding csv_file by blast
  have lengths: "length row = length (csvHeader decimals)" if "row \<in> set rows" for row
    using result_map_all [OF rows(1) that] csvRow_length by blast
  moreover have "csvHeader decimals \<noteq> []" by (simp add: csvHeader_def)
  ultimately have "[] \<notin> set (csvHeader decimals # rows)" by fastforce
  from csv_codec.dec_enc [OF this] rows lengths show ?thesis by (auto simp: list_all_iff)
qed

section \<open>Properties\<close>

text \<open>C17: Whatever the notes and addresses contain, a reader of RFC 4180 gets back from the file its
  header and one record for each activity, in order, every record with a field for each column.\<close>

theorem csv_reads_back:
  assumes "confidentialActivityToCsv acts decimals = Inr contents"
  shows "\<exists>rows. parseCsv contents = Some (csvHeader decimals # rows) \<and>
     result_map (csvRow decimals) acts = Inr rows \<and>
     list_all (\<lambda>row. length row = length (csvHeader decimals)) rows"
  by (rule csv_parsed [OF assms])

text \<open>An amount in tokens has exactly the mint's number of decimals after a whole part that is
  not empty, and the two parts read as numbers give the amount in base units.\<close>

theorem units_exact:
  assumes "0 \<le> amount" and "0 < decimals"
  shows "\<exists>whole fraction. formatUnits amount decimals = whole @ ''.'' @ fraction \<and> whole \<noteq> [] \<and>
     length fraction = decimals \<and> int (readDigits whole * 10 ^ decimals + readDigits fraction) = amount"
  by (rule formatUnits_parts [OF assms])

theorem units_exact_witness:
  "\<exists>whole fraction. formatUnits 5 2 = whole @ ''.'' @ fraction \<and> whole \<noteq> [] \<and>
     length fraction = 2 \<and> int (readDigits whole * 10 ^ 2 + readDigits fraction) = 5"
  by (rule units_exact) simp_all

definition quoting :: activity where
  "quoting = (listed ''s1'' 1 0)\<lparr>ac_movement := (ac_movement (listed ''s1'' 1 0))\<lparr>mv_note := Some [quote, comma]\<rparr>\<rparr>"

theorem csv_reads_back_witness:
  "\<exists>contents rows. confidentialActivityToCsv [quoting] (Some 2) = Inr contents \<and>
     parseCsv contents = Some (csvHeader (Some 2) # rows)"
proof -
  have "toISOString (Some 1790000000000) = Inr ''2026-09-21T14:13:20.000Z''" by code_simp
  then have "\<exists>row. csvRow (Some 2) quoting = Inr row" by (simp add: csvRow_def quoting_def listed_def)
  then obtain contents where run: "confidentialActivityToCsv [quoting] (Some 2) = Inr contents"
    by (auto simp: confidentialActivityToCsv_def)
  from csv_reads_back [OF run] run show ?thesis by blast
qed

end
