(* ===== verification/Sentinel.thy ===== *)
theory Sentinel
  imports Services
begin

text \<open>
  \<open>src/playground/src/sentinel.js\<close>: the three instructions of the Sentinel program the playground
  sends, encoded by hand. Kit's 64-bit encoder is the parameter \<open>U\<close>. For the data of a policy there
  is a reader, so that what is written is shown to be what was asked for.
\<close>

section \<open>The module\<close>

definition SENTINEL_PROGRAM_ADDRESS :: address where
  "SENTINEL_PROGRAM_ADDRESS = ''5fH1jj6XeZC96jPCxKiSb2onAXcs7f4rMeqMmSsP6puD''"

definition SYSTEM_PROGRAM_ADDRESS :: address where
  "SYSTEM_PROGRAM_ADDRESS = ''11111111111111111111111111111111''"

datatype sentinel_instruction = InitializeExtraAccountMetaList | InitializePolicy | AddToBlocklist

fun DISCRIMINATOR :: "sentinel_instruction \<Rightarrow> bytes" where
  "DISCRIMINATOR InitializeExtraAccountMetaList = [92, 197, 174, 197, 41, 124, 19, 3]"
| "DISCRIMINATOR InitializePolicy = [9, 186, 86, 225, 129, 162, 231, 56]"
| "DISCRIMINATOR AddToBlocklist = [201, 138, 75, 216, 252, 201, 26, 106]"

text \<open>The encoding of an ASCII text.\<close>

definition utf8 :: "string \<Rightarrow> bytes" where
  "utf8 s = map (\<lambda>c. of_nat (of_char c)) s"

definition pda :: "'w kit \<Rightarrow> bytes list \<Rightarrow> exn + address" where
  "pda K seeds = kit_getProgramDerivedAddress K SENTINEL_PROGRAM_ADDRESS seeds"

definition policyPda :: "'w kit \<Rightarrow> address \<Rightarrow> exn + address" where
  "policyPda K mint =
     result_bind (kit_encodeAddress K mint) (\<lambda>m. pda K [utf8 ''policy'', m])"

definition metaListPda :: "'w kit \<Rightarrow> address \<Rightarrow> exn + address" where
  "metaListPda K mint =
     result_bind (kit_encodeAddress K mint) (\<lambda>m. pda K [utf8 ''extra-account-metas'', m])"

definition blockEntryPda :: "'w kit \<Rightarrow> address \<Rightarrow> address \<Rightarrow> exn + address" where
  "blockEntryPda K mint wallet =
     result_bind (kit_encodeAddress K mint) (\<lambda>m.
     result_bind (kit_encodeAddress K wallet) (\<lambda>w.
     pda K [utf8 ''block'', m, w]))"

definition signerMeta :: "signer \<Rightarrow> account_meta" where
  "signerMeta s = \<lparr>am_address = sg_address s, am_role = WRITABLE_SIGNER\<rparr>"

definition writable :: "address \<Rightarrow> account_meta" where
  "writable a = \<lparr>am_address = a, am_role = WRITABLE\<rparr>"

definition readonly :: "address \<Rightarrow> account_meta" where
  "readonly a = \<lparr>am_address = a, am_role = READONLY\<rparr>"

definition sentinel_data :: "sentinel_instruction \<Rightarrow> bytes list \<Rightarrow> bytes" where
  "sentinel_data name parts = DISCRIMINATOR name @ concat parts"

definition bool_byte :: "bool \<Rightarrow> bytes" where
  "bool_byte b = [if b then 1 else 0]"

definition u64 :: "(int \<Rightarrow> exn + bytes) \<Rightarrow> numeric \<Rightarrow> exn + bytes" where
  "u64 U n = result_bind (toBigInt n) U"

definition raw :: "account_meta list \<Rightarrow> bytes \<Rightarrow> instruction" where
  "raw accounts data =
     \<lparr>ix_call = RawInstruction SENTINEL_PROGRAM_ADDRESS data, ix_accounts = Some accounts\<rparr>"

definition getInitializeExtraAccountMetaListInstruction ::
  "'w kit \<Rightarrow> signer \<Rightarrow> address \<Rightarrow> exn + instruction" where
  "getInitializeExtraAccountMetaListInstruction K payer mint =
     result_bind (metaListPda K mint) (\<lambda>metaList.
     Inr (raw [signerMeta payer, writable metaList, readonly mint, readonly SYSTEM_PROGRAM_ADDRESS]
       (sentinel_data InitializeExtraAccountMetaList [])))"

record policy =
  po_allowlist :: bool
  po_blocklist :: bool
  po_maxTransferAmount :: numeric
  po_allowConfidential :: bool

definition getInitializePolicyInstruction ::
  "'w kit \<Rightarrow> (int \<Rightarrow> exn + bytes) \<Rightarrow> signer \<Rightarrow> address \<Rightarrow> policy \<Rightarrow> exn + instruction" where
  "getInitializePolicyInstruction K U authority mint p =
     result_bind (policyPda K mint) (\<lambda>policy.
     result_bind (u64 U (po_maxTransferAmount p)) (\<lambda>maximum.
     Inr (raw [signerMeta authority, readonly mint, writable policy, readonly SYSTEM_PROGRAM_ADDRESS]
       (sentinel_data InitializePolicy
         [bool_byte (po_allowlist p), bool_byte (po_blocklist p), maximum,
          bool_byte (po_allowConfidential p)]))))"

definition getAddToBlocklistInstruction ::
  "'w kit \<Rightarrow> signer \<Rightarrow> address \<Rightarrow> address \<Rightarrow> exn + instruction" where
  "getAddToBlocklistInstruction K authority mint wallet =
     result_bind (policyPda K mint) (\<lambda>policy.
     result_bind (blockEntryPda K mint wallet) (\<lambda>entry.
     Inr (raw [signerMeta authority, readonly mint, readonly policy, readonly wallet, writable entry,
         readonly SYSTEM_PROGRAM_ADDRESS]
       (sentinel_data AddToBlocklist []))))"

section \<open>Reading the data\<close>

text \<open>
  The program's side: eight bytes choose the instruction, and a policy is two flags, a little-endian
  64-bit limit and a flag.
\<close>

definition which_instruction :: "bytes \<Rightarrow> sentinel_instruction option" where
  "which_instruction data =
     (if take 8 data = DISCRIMINATOR InitializeExtraAccountMetaList then Some InitializeExtraAccountMetaList
      else if take 8 data = DISCRIMINATOR InitializePolicy then Some InitializePolicy
      else if take 8 data = DISCRIMINATOR AddToBlocklist then Some AddToBlocklist
      else None)"

definition read_policy :: "bytes \<Rightarrow> policy option" where
  "read_policy data =
     (if length data = 19 \<and> which_instruction data = Some InitializePolicy
      then Some \<lparr>po_allowlist = data ! 8 \<noteq> 0, po_blocklist = data ! 9 \<noteq> 0,
        po_maxTransferAmount = BigInt_v (int (le_nat (slice 10 18 data))),
        po_allowConfidential = data ! 18 \<noteq> 0\<rparr>
      else None)"

text \<open>Kit's documented encoder: eight bytes, least significant first, an error out of range.\<close>

definition encodes_u64 :: "(int \<Rightarrow> exn + bytes) \<Rightarrow> bool" where
  "encodes_u64 U \<longleftrightarrow> (\<forall>n. 0 \<le> n \<and> n < 2 ^ 64 \<longrightarrow> U n = Inr (le_bytes 8 (nat n)))"

definition policy_data :: "policy \<Rightarrow> int \<Rightarrow> bytes" where
  "policy_data p n = sentinel_data InitializePolicy
     [bool_byte (po_allowlist p), bool_byte (po_blocklist p), le_bytes 8 (nat n),
      bool_byte (po_allowConfidential p)]"

lemma which_instruction_data: "which_instruction (sentinel_data i parts) = Some i"
  by (cases i) (simp_all add: which_instruction_def sentinel_data_def)

lemma read_policy_data:
  assumes "0 \<le> n" and "n < 2 ^ 64"
  shows "read_policy (policy_data p n) = Some (p\<lparr>po_maxTransferAmount := BigInt_v n\<rparr>)"
proof -
  have "nat n < 256 ^ 8" using assms by (simp add: nat_less_iff)
  then have limit: "le_nat (le_bytes 8 (nat n)) = nat n" by (simp add: le_nat_le_bytes)
  have "length (policy_data p n) = 19" by (simp add: policy_data_def sentinel_data_def bool_byte_def)
  moreover have "slice 10 18 (policy_data p n) = le_bytes 8 (nat n)"
    by (simp add: policy_data_def sentinel_data_def bool_byte_def slice_def)
  moreover have "policy_data p n ! 8 = (if po_allowlist p then 1 else 0)"
      "policy_data p n ! 9 = (if po_blocklist p then 1 else 0)"
      "policy_data p n ! 18 = (if po_allowConfidential p then 1 else 0)"
    by (simp_all add: policy_data_def sentinel_data_def bool_byte_def nth_append)
  moreover have "which_instruction (policy_data p n) = Some InitializePolicy"
    unfolding policy_data_def by (rule which_instruction_data)
  ultimately show ?thesis using limit assms(1) by (simp add: read_policy_def)
qed

text \<open>The data of a policy is a codec with the reader.\<close>

interpretation policy_codec: codec
  "\<lambda>(p, n). 0 \<le> n \<and> n < 2 ^ 64 \<and> po_maxTransferAmount p = BigInt_v n"
  "\<lambda>(p, n). policy_data p n"
  "\<lambda>data. Option.bind (read_policy data) (\<lambda>p.
     case po_maxTransferAmount p of BigInt_v n \<Rightarrow> Some (p, n) | Number_v _ \<Rightarrow> None)"
  by unfold_locales (auto simp: read_policy_data)

text \<open>C40: The policy Sentinel reads is the one asked for. When the limit is a 64-bit amount and the
  addresses can be derived, the instruction is built; its data is an initialize-policy instruction
  that reads back as exactly the given flags and limit, its accounts are the authority as the only
  signer, the mint, the policy account as the only other writable one, and the system program.\<close>

theorem policy_reads_back:
  assumes "encodes_u64 U" and "toBigInt (po_maxTransferAmount p) = Inr n" and "0 \<le> n" and "n < 2 ^ 64"
    and "policyPda K mint = Inr policy"
  shows "\<exists>ix data. getInitializePolicyInstruction K U authority mint p = Inr ix \<and>
     ix_call ix = RawInstruction SENTINEL_PROGRAM_ADDRESS data \<and>
     which_instruction data = Some InitializePolicy \<and>
     read_policy data = Some (p\<lparr>po_maxTransferAmount := BigInt_v n\<rparr>) \<and>
     ix_accounts ix = Some [\<lparr>am_address = sg_address authority, am_role = WRITABLE_SIGNER\<rparr>,
       \<lparr>am_address = mint, am_role = READONLY\<rparr>, \<lparr>am_address = policy, am_role = WRITABLE\<rparr>,
       \<lparr>am_address = SYSTEM_PROGRAM_ADDRESS, am_role = READONLY\<rparr>]"
proof -
  have "u64 U (po_maxTransferAmount p) = Inr (le_bytes 8 (nat n))"
    using assms(1-4) by (simp add: u64_def encodes_u64_def)
  then have "getInitializePolicyInstruction K U authority mint p =
      Inr (raw [signerMeta authority, readonly mint, writable policy, readonly SYSTEM_PROGRAM_ADDRESS]
        (policy_data p n))"
    using assms(5) by (simp add: getInitializePolicyInstruction_def policy_data_def)
  moreover have "which_instruction (policy_data p n) = Some InitializePolicy"
    unfolding policy_data_def by (rule which_instruction_data)
  ultimately show ?thesis
    using read_policy_data [OF assms(3,4), of p]
    by (simp add: raw_def signerMeta_def readonly_def writable_def)
qed

definition sample_policy :: policy where
  "sample_policy = \<lparr>po_allowlist = False, po_blocklist = True, po_maxTransferAmount = BigInt_v 5000,
     po_allowConfidential = True\<rparr>"

definition page_signer :: "address \<Rightarrow> signer" where
  "page_signer a = \<lparr>sg_address = a, sg_modifying = False, sg_partial = True,
     sg_messagePartial = True, sg_messageModifying = False\<rparr>"

theorem policy_reads_back_witness:
  "\<exists>ix data.
     getInitializePolicyInstruction (idle_kit :: nat kit) (\<lambda>n. Inr (bigUint64 n)) (page_signer ''you'') ''mint''
       sample_policy = Inr ix \<and>
     ix_call ix = RawInstruction SENTINEL_PROGRAM_ADDRESS data \<and> read_policy data = Some sample_policy"
proof -
  have "encodes_u64 (\<lambda>n. Inr (bigUint64 n))"
    by (simp add: encodes_u64_def bigUint64_def)
  moreover have "policyPda (idle_kit :: nat kit) ''mint'' = Inr (SENTINEL_PROGRAM_ADDRESS @ ''/pda'')"
    by (simp add: policyPda_def pda_def idle_kit_def)
  ultimately show ?thesis
    using policy_reads_back [of "\<lambda>n. Inr (bigUint64 n)" sample_policy 5000 "idle_kit :: nat kit" "''mint''"
        "SENTINEL_PROGRAM_ADDRESS @ ''/pda''" "page_signer ''you''"]
    by (auto simp: sample_policy_def)
qed

end
