(* ===== verification/Doubles.thy ===== *)
theory Doubles
  imports JavaScript
begin

text \<open>
  The arithmetic of JavaScript numbers that the programs around the SDK use on what a person typed:
  \<open>Number(text)\<close>, \<open>BigInt(text)\<close>, the product of two numbers and \<open>Math.round\<close>. A result that is
  not a double is rounded to the nearest one, ties to even: 53 significant bits, exponents down to
  \<open>-1074\<close>, and infinity from \<open>2 ^ 1024\<close> on. The sign of zero is not kept.
\<close>

section \<open>Rounding a quotient to a double\<close>

fun bitlen :: "nat \<Rightarrow> nat" where
  "bitlen n = (if n = 0 then 0 else Suc (bitlen (n div 2)))"

declare bitlen.simps [simp del]

text \<open>The whole part of the binary logarithm of \<open>n / d\<close>.\<close>

definition floor_log :: "nat \<Rightarrow> nat \<Rightarrow> int" where
  "floor_log n d = (if d \<le> n then int (bitlen (n div d)) - 1 else - int (bitlen ((d - 1) div n)))"

definition round_quotient :: "nat \<Rightarrow> nat \<Rightarrow> nat" where
  "round_quotient n d =
     (let q = n div d; r = n mod d in
      if 2 * r < d then q else if d < 2 * r then q + 1 else if even q then q else q + 1)"

definition double_of :: "nat \<Rightarrow> nat \<Rightarrow> js_number" where
  "double_of n d =
     (if n = 0 then Dyadic 0 0
      else
        let e = max (- 1074) (floor_log n d - 52) in
        if 0 \<le> e
        then let m = round_quotient n (d * 2 ^ nat e) * 2 ^ nat e in
          if m < 2 ^ 1024 then Dyadic (int m) 0 else Infinite True
        else Dyadic (int (round_quotient (n * 2 ^ nat (- e)) d)) (nat (- e)))"

fun js_negate :: "js_number \<Rightarrow> js_number" where
  "js_negate (Dyadic m k) = Dyadic (- m) k"
| "js_negate (Infinite p) = Infinite (\<not> p)"
| "js_negate NaN = NaN"

definition signed_double :: "int \<Rightarrow> nat \<Rightarrow> js_number" where
  "signed_double n d =
     (if n < 0 then js_negate (double_of (nat (- n)) d) else double_of (nat n) d)"

fun js_times :: "js_number \<Rightarrow> js_number \<Rightarrow> js_number" where
  "js_times (Dyadic a i) (Dyadic b j) = signed_double (a * b) (2 ^ (i + j))"
| "js_times (Dyadic a i) (Infinite p) = (if a = 0 then NaN else Infinite (p \<longleftrightarrow> 0 < a))"
| "js_times (Infinite p) (Dyadic a i) = (if a = 0 then NaN else Infinite (p \<longleftrightarrow> 0 < a))"
| "js_times (Infinite p) (Infinite q) = Infinite (p \<longleftrightarrow> q)"
| "js_times NaN _ = NaN"
| "js_times _ NaN = NaN"

fun js_plus :: "js_number \<Rightarrow> js_number \<Rightarrow> js_number" where
  "js_plus (Dyadic a i) (Dyadic b j) = signed_double (a * 2 ^ j + b * 2 ^ i) (2 ^ (i + j))"
| "js_plus (Dyadic a i) (Infinite p) = Infinite p"
| "js_plus (Infinite p) (Dyadic a i) = Infinite p"
| "js_plus (Infinite p) (Infinite q) = (if p = q then Infinite p else NaN)"
| "js_plus NaN _ = NaN"
| "js_plus _ NaN = NaN"

text \<open>\<open>Math.round(x)\<close>: the nearest integer, ties upwards.\<close>

fun js_round :: "js_number \<Rightarrow> js_number" where
  "js_round (Dyadic m k) = Dyadic ((2 * m + 2 ^ k) div 2 ^ (k + 1)) 0"
| "js_round x = x"

fun isFinite :: "js_number \<Rightarrow> bool" where
  "isFinite (Dyadic m k) \<longleftrightarrow> True"
| "isFinite _ \<longleftrightarrow> False"

text \<open>\<open>x <= 0\<close>.\<close>

fun not_positive :: "js_number \<Rightarrow> bool" where
  "not_positive (Dyadic m k) \<longleftrightarrow> m \<le> 0"
| "not_positive (Infinite p) \<longleftrightarrow> \<not> p"
| "not_positive NaN \<longleftrightarrow> False"

section \<open>Reading numbers\<close>

definition white :: "char \<Rightarrow> bool" where
  "white c \<longleftrightarrow> (of_char c :: nat) \<in> {9, 10, 11, 12, 13, 32, 160}"

definition trim :: "string \<Rightarrow> string" where
  "trim s = rev (dropWhile white (rev (dropWhile white s)))"

definition digit_value :: "char \<Rightarrow> nat option" where
  "digit_value c =
     (let n = of_char c :: nat in
      if 48 \<le> n \<and> n \<le> 57 then Some (n - 48)
      else if 97 \<le> n \<and> n \<le> 102 then Some (n - 87)
      else if 65 \<le> n \<and> n \<le> 70 then Some (n - 55)
      else None)"

definition digit_in :: "nat \<Rightarrow> char \<Rightarrow> bool" where
  "digit_in b c \<longleftrightarrow> (case digit_value c of Some v \<Rightarrow> v < b | None \<Rightarrow> False)"

definition read_base :: "nat \<Rightarrow> string \<Rightarrow> nat" where
  "read_base b s =
     foldl (\<lambda>a c. a * b + (case digit_value c of Some v \<Rightarrow> v | None \<Rightarrow> 0)) 0 s"

definition digits_only :: "nat \<Rightarrow> string \<Rightarrow> nat option" where
  "digits_only b s = (if s \<noteq> [] \<and> list_all (digit_in b) s then Some (read_base b s) else None)"

text \<open>\<open>0x1f\<close>, \<open>0o17\<close>, \<open>0b11\<close>.\<close>

fun prefixed :: "string \<Rightarrow> nat option" where
  "prefixed (z # x # ds) =
     (if z \<noteq> CHR ''0'' then None
      else if x \<in> {CHR ''x'', CHR ''X''} then digits_only 16 ds
      else if x \<in> {CHR ''o'', CHR ''O''} then digits_only 8 ds
      else if x \<in> {CHR ''b'', CHR ''B''} then digits_only 2 ds
      else None)"
| "prefixed _ = None"

fun split_sign :: "string \<Rightarrow> bool \<times> string" where
  "split_sign (c # s) =
     (if c = CHR ''-'' then (True, s) else if c = CHR ''+'' then (False, s) else (False, c # s))"
| "split_sign [] = (False, [])"

text \<open>The part of a decimal literal from its exponent on.\<close>

fun exponent_part :: "string \<Rightarrow> int option" where
  "exponent_part [] = Some 0"
| "exponent_part (c # s) =
     (if c \<in> {CHR ''e'', CHR ''E''}
      then (case split_sign s of (negative, ds) \<Rightarrow>
        (case digits_only 10 ds of
           None \<Rightarrow> None | Some n \<Rightarrow> Some (if negative then - int n else int n)))
      else None)"

definition after_point :: "string \<Rightarrow> string \<times> string" where
  "after_point s =
     (case s of
        [] \<Rightarrow> ([], [])
      | c # t \<Rightarrow> if c = CHR ''.'' then (takeWhile (digit_in 10) t, dropWhile (digit_in 10) t)
                else ([], s))"

definition unsigned_decimal :: "string \<Rightarrow> js_number option" where
  "unsigned_decimal s =
     (if s = ''Infinity'' then Some (Infinite True)
      else
        let whole = takeWhile (digit_in 10) s;
            (fraction, rest) = after_point (dropWhile (digit_in 10) s) in
        if whole = [] \<and> fraction = [] then None
        else (case exponent_part rest of
            None \<Rightarrow> None
          | Some e \<Rightarrow>
              let n = read_base 10 (whole @ fraction); e' = e - int (length fraction) in
              Some (if 0 \<le> e' then double_of (n * 10 ^ nat e') 1 else double_of n (10 ^ nat (- e')))))"

text \<open>\<open>Number(text)\<close>.\<close>

definition number_of_text :: "string \<Rightarrow> js_number" where
  "number_of_text text' =
     (let s = trim text' in
      if s = [] then Dyadic 0 0
      else case prefixed s of
          Some n \<Rightarrow> double_of n 1
        | None \<Rightarrow> (case split_sign s of (negative, u) \<Rightarrow>
            (case unsigned_decimal u of
               None \<Rightarrow> NaN
             | Some x \<Rightarrow> if negative then js_negate x else x)))"

text \<open>\<open>BigInt(text)\<close>.\<close>

definition bigint_of_text :: "string \<Rightarrow> exn + int" where
  "bigint_of_text text' =
     (let s = trim text' in
      if s = [] then Inr 0
      else case prefixed s of
          Some n \<Rightarrow> Inr (int n)
        | None \<Rightarrow> (case split_sign s of (negative, u) \<Rightarrow>
            (case digits_only 10 u of
               None \<Rightarrow> Inl (Js_Error ''SyntaxError'' (''Cannot convert '' @ text' @ '' to a BigInt''))
             | Some n \<Rightarrow> Inr (if negative then - int n else int n))))"

section \<open>Facts\<close>

lemma bitlen_bounds: "0 < n \<Longrightarrow> 2 ^ (bitlen n - 1) \<le> n \<and> n < 2 ^ bitlen n \<and> 0 < bitlen n"
proof (induction n rule: bitlen.induct)
  case (1 n)
  show ?case
  proof (cases "n div 2 = 0")
    case True
    with 1 have "n = 1" by auto
    then show ?thesis by (simp add: bitlen.simps)
  next
    case False
    let ?l = "bitlen (n div 2)"
    have IH: "2 ^ (?l - 1) \<le> n div 2" "n div 2 < 2 ^ ?l" "0 < ?l" using 1 False by auto
    then obtain l where l: "?l = Suc l" by (cases ?l) auto
    have n: "bitlen n = Suc ?l" using 1 by (simp add: bitlen.simps [of n])
    have "2 * 2 ^ l \<le> n" "n < 2 * 2 ^ ?l" using IH l by auto
    with n l show ?thesis by simp
  qed
qed

lemma floor_log_below:
  assumes "0 < n" and "n < d"
  obtains k where "floor_log n d = - int k" "0 < k" "d \<le> n * 2 ^ k" "n * 2 ^ (k - 1) < d"
proof -
  let ?q = "(d - 1) div n"
  have q: "0 < ?q" using assms by (simp add: div_greater_zero_iff)
  note b = bitlen_bounds [OF q]
  have "?q < 2 ^ bitlen ?q" using b by simp
  then have "d - 1 < 2 ^ bitlen ?q * n" using assms by (simp add: div_less_iff_less_mult)
  then have "d \<le> n * 2 ^ bitlen ?q" by (simp add: mult.commute)
  moreover have "2 ^ (bitlen ?q - 1) * n \<le> ?q * n" by (rule mult_le_mono1) (use b in blast)
  then have "2 ^ (bitlen ?q - 1) * n \<le> d - 1"
    by (rule le_trans [OF _ div_times_less_eq_dividend])
  then have "n * 2 ^ (bitlen ?q - 1) < d" using assms by (simp add: mult.commute)
  ultimately show ?thesis using that b assms by (simp add: floor_log_def)
qed

lemma floor_log_above:
  assumes "0 < d" and "d \<le> n"
  obtains l where "floor_log n d = int l" "d * 2 ^ l \<le> n" "n < d * 2 ^ (l + 1)"
proof -
  let ?q = "n div d"
  have q: "0 < ?q" using assms by (simp add: div_greater_zero_iff)
  note b = bitlen_bounds [OF q]
  then obtain l where l: "bitlen ?q = Suc l" by (cases "bitlen ?q") auto
  have "2 ^ l \<le> ?q" using b l by simp
  then have "2 ^ l * d \<le> ?q * d" by (rule mult_le_mono1)
  then have "2 ^ l * d \<le> n" by (rule le_trans [OF _ div_times_less_eq_dividend])
  then have lo: "d * 2 ^ l \<le> n" by (simp add: mult.commute)
  have "?q < 2 ^ Suc l" using b l by simp
  then have "n < 2 ^ Suc l * d" using assms by (simp add: div_less_iff_less_mult)
  with lo show ?thesis using that l assms by (simp add: floor_log_def mult.commute)
qed

text \<open>Rounding moves a quotient by at most a half.\<close>

lemma round_quotient_near:
  assumes "0 < d"
  shows "2 * \<bar>int (round_quotient n d) * int d - int n\<bar> \<le> int d"
proof -
  have n: "int n = int (n div d) * int d + int (n mod d)"
    by (metis div_mult_mod_eq of_nat_add of_nat_mult)
  have r: "int (n mod d) < int d" using assms by simp
  show ?thesis
  proof (cases "2 * (n mod d) < d")
    case True
    then show ?thesis by (simp add: round_quotient_def Let_def n)
  next
    case False
    have up: "2 * \<bar>(int (n div d) + 1) * int d - int n\<bar> \<le> int d"
      using False r by (simp add: n algebra_simps)
    have down: "2 * \<bar>int (n div d) * int d - int n\<bar> \<le> int d" if "\<not> d < 2 * (n mod d)"
      using that by (simp add: n)
    show ?thesis using False up down by (simp add: round_quotient_def Let_def add.commute)
  qed
qed

lemma round_quotient_exact: "0 < d \<Longrightarrow> round_quotient (a * d) d = a"
  by (simp add: round_quotient_def Let_def)

text \<open>A fraction below \<open>2 ^ b\<close> has a double with at least \<open>53 - b\<close> binary places.\<close>

lemma double_of_fraction:
  assumes "0 < n" and "0 < d" and "n < d * 2 ^ b" and "b \<le> 52"
  obtains q k where "double_of n d = Dyadic (int q) k" "2 * \<bar>int q * int d - int n * 2 ^ k\<bar> \<le> int d"
    "53 - b \<le> k"
proof -
  have log: "floor_log n d \<le> int b - 1"
  proof (cases "n < d")
    case True
    then show ?thesis using assms(1) by (auto elim: floor_log_below)
  next
    case False
    then obtain l where l: "floor_log n d = int l" "d * 2 ^ l \<le> n"
      using assms(2) by (meson floor_log_above linorder_not_less)
    have "d * 2 ^ l < d * 2 ^ b" using l(2) assms(3) by (rule le_less_trans)
    then have "l < b" using assms(2) by simp
    with l show ?thesis by simp
  qed
  let ?e = "max (- 1074) (floor_log n d - 52)"
  let ?k = "nat (- ?e)"
  have "?e < 0" "53 - b \<le> ?k" using log assms(4) by auto
  moreover from this have "double_of n d = Dyadic (int (round_quotient (n * 2 ^ ?k) d)) ?k"
    using assms(1) by (simp add: double_of_def Let_def)
  moreover have "2 * \<bar>int (round_quotient (n * 2 ^ ?k) d) * int d - int n * 2 ^ ?k\<bar> \<le> int d"
    using round_quotient_near [OF assms(2), of "n * 2 ^ ?k"] by simp
  ultimately show ?thesis using that by blast
qed

lemma twice_abs_add: "2 * \<bar>a\<bar> \<le> u \<Longrightarrow> 2 * \<bar>b\<bar> \<le> v \<Longrightarrow> 2 * \<bar>a + b\<bar> \<le> u + v" for a b :: int
  by arith

lemma product_beats_sum:
  fixes A B :: int
  assumes "16384 \<le> A" and "256 \<le> B"
  shows "A + 100 * B < B * A"
proof -
  have "256 * A \<le> B * A" by (rule mult_right_mono) (use assms in simp_all)
  moreover have "B * 16384 \<le> B * A" by (rule mult_left_mono) (use assms in simp_all)
  ultimately show ?thesis using assms by linarith
qed

lemma scaled_below:
  fixes A N c q :: int
  assumes "2 * \<bar>100 * q - c * A\<bar> \<le> 100" and "16384 \<le> A" and "c + 1 \<le> N"
  shows "100 * q < N * A"
proof -
  have "(c + 1) * A \<le> N * A" by (rule mult_right_mono [OF assms(3)]) (use assms(2) in simp)
  then have "c * A + A \<le> N * A" by (simp only: distrib_right mult_1)
  moreover have "\<bar>100 * q - c * A\<bar> \<le> 50" using assms(1) by simp
  then have "100 * q - c * A \<le> 50" by (rule abs_le_D1)
  ultimately show ?thesis using assms(2) by linarith
qed

text \<open>
  Hundredths survive the trip through doubles: the double nearest to \<open>c / 100\<close>, times 100 and
  rounded, is \<open>c\<close>, although neither the double nor the product is exact.
\<close>

lemma hundredths_round_trip:
  assumes "0 < c" and "c < 2 ^ 45"
  shows "js_round (js_times (double_of c 100) (js_int 100)) = Dyadic (int c) 0"
proof -
  have "c < 100 * 2 ^ 39" using assms by simp
  then obtain q k where x: "double_of c 100 = Dyadic (int q) k"
      "2 * \<bar>int q * int 100 - int c * 2 ^ k\<bar> \<le> int 100" "53 - 39 \<le> k"
    using assms by (elim double_of_fraction [rotated 2]) simp_all
  let ?A = "2 ^ k :: int"
  have near_x: "2 * \<bar>100 * int q - int c * ?A\<bar> \<le> 100" using x(2) by (simp add: mult.commute)
  have "(2 :: int) ^ 14 \<le> ?A" by (rule power_increasing) (use x(3) in simp_all)
  then have A: "16384 \<le> ?A" by simp
  have c: "int c + 1 \<le> 2 ^ 45" using assms(2) by simp
  have q_hi: "100 * int q < 2 ^ 45 * ?A" by (rule scaled_below [OF near_x A c])
  have "1 * ?A \<le> int c * ?A" by (rule mult_right_mono) (use assms in simp_all)
  then have "16384 \<le> int c * ?A" using A by linarith
  then have q_lo: "0 < q" using near_x by (cases "q = 0") simp_all
  have "100 * q < 2 ^ k * 2 ^ 45"
  proof -
    have "int (100 * q) < int (2 ^ k * 2 ^ 45)" using q_hi by (simp add: mult.commute)
    then show ?thesis by (simp only: of_nat_less_iff)
  qed
  moreover have "0 < 100 * q" using q_lo by simp
  ultimately obtain r j where y: "double_of (100 * q) (2 ^ k) = Dyadic (int r) j"
      "2 * \<bar>int r * int (2 ^ k) - int (100 * q) * 2 ^ j\<bar> \<le> int (2 ^ k)" "53 - 45 \<le> j"
    by (elim double_of_fraction [rotated 2]) simp_all
  let ?B = "2 ^ j :: int"
  have "(2 :: int) ^ 8 \<le> ?B" by (rule power_increasing) (use y(3) in simp_all)
  then have B: "256 \<le> ?B" by simp
  define D where "D = int r - int c * ?B"
  have D: "D * ?A = (int r * ?A - 100 * int q * ?B) + (100 * int q - int c * ?A) * ?B"
    by (simp add: D_def algebra_simps)
  have "2 * \<bar>(100 * int q - int c * ?A) * ?B\<bar> \<le> 100 * ?B"
    using mult_right_mono [OF near_x, of ?B] B by (simp add: abs_mult mult.commute)
  moreover have "2 * \<bar>int r * ?A - 100 * int q * ?B\<bar> \<le> ?A" using y(2) by simp
  ultimately have near: "2 * \<bar>D * ?A\<bar> \<le> ?A + 100 * ?B" unfolding D by (intro twice_abs_add)
  have "?A + 100 * ?B < ?B * ?A" by (rule product_beats_sum [OF A B])
  with near have "2 * \<bar>D * ?A\<bar> < ?B * ?A" by (rule le_less_trans)
  then have "(2 * \<bar>D\<bar>) * ?A < ?B * ?A" by (simp add: abs_mult)
  then have small: "2 * \<bar>D\<bar> < ?B" by (rule mult_right_less_imp_less) simp
  have "(2 * int r + ?B) div 2 ^ (j + 1) = int c"
  proof (rule int_div_pos_eq [where r = "2 * D + ?B"])
    show "2 * int r + ?B = 2 ^ (j + 1) * int c + (2 * D + ?B)" by (simp add: D_def algebra_simps)
  qed (use small in simp_all)
  moreover have "js_times (double_of c 100) (js_int 100) = Dyadic (int r) j"
    using y(1) x(1) by (simp add: js_int_def signed_double_def nat_mult_distrib mult.commute)
  ultimately show ?thesis by simp
qed

subsection \<open>Decimal texts\<close>

lemma digit_not_white: "digit_in b c \<Longrightarrow> \<not> white c"
  by (auto simp: digit_in_def digit_value_def white_def Let_def split: if_splits)

lemma digit_not_sign: "digit_in b c \<Longrightarrow> c \<noteq> CHR ''-'' \<and> c \<noteq> CHR ''+'' \<and> c \<noteq> CHR ''.''"
  by (auto simp: digit_in_def digit_value_def)

lemma digit_not_prefix:
  "digit_in 10 c \<Longrightarrow> c \<notin> {CHR ''x'', CHR ''X''} \<and> c \<notin> {CHR ''o'', CHR ''O''} \<and> c \<notin> {CHR ''b'', CHR ''B''}"
  by (auto simp: digit_in_def digit_value_def)

lemma trim_tight: "s \<noteq> [] \<Longrightarrow> \<not> white (hd s) \<Longrightarrow> \<not> white (last s) \<Longrightarrow> trim s = s"
proof -
  assume s: "s \<noteq> []" "\<not> white (hd s)" "\<not> white (last s)"
  then have "dropWhile white s = s" by (cases s) simp_all
  moreover have "dropWhile white (rev s) = rev s"
    using s by (cases s rule: rev_cases) simp_all
  ultimately show ?thesis by (simp add: trim_def)
qed

lemma prefixed_decimal:
  assumes "list_all (digit_in 10) w" and "list_all (digit_in 10) f"
  shows "prefixed w = None" "prefixed (w @ CHR ''.'' # f) = None"
proof -
  have "prefixed (z # x # ds) = None" if "digit_in 10 x \<or> x = CHR ''.''" for z x ds
    using that digit_not_prefix [of x] by auto
  with assms show "prefixed w = None" "prefixed (w @ CHR ''.'' # f) = None"
    by (cases w rule: prefixed.cases; cases f; auto)+
qed

lemma takeWhile_all: "list_all P xs \<Longrightarrow> takeWhile P xs = xs"
  by (simp add: list_all_iff takeWhile_eq_all_conv)

lemma dropWhile_all: "list_all P xs \<Longrightarrow> dropWhile P xs = []"
  by (simp add: list_all_iff dropWhile_eq_Nil_conv)

lemma split_sign_digits: "digit_in b c \<Longrightarrow> split_sign (c # s) = (False, c # s)"
  using digit_not_sign [of b c] by simp

lemma point_not_digit: "\<not> digit_in 10 (CHR ''.'')"
  by (simp add: digit_in_def digit_value_def)

lemma unsigned_with_point:
  assumes "list_all (digit_in 10) w" and "list_all (digit_in 10) f" and "w \<noteq> []"
  shows "unsigned_decimal (w @ CHR ''.'' # f) = Some (double_of (read_base 10 (w @ f)) (10 ^ length f))"
proof -
  have "takeWhile (digit_in 10) (w @ CHR ''.'' # f) = w"
    "dropWhile (digit_in 10) (w @ CHR ''.'' # f) = CHR ''.'' # f"
    using assms(1) point_not_digit by (simp_all add: list_all_iff takeWhile_append dropWhile_append)
  moreover have "w @ CHR ''.'' # f \<noteq> ''Infinity''"
  proof
    assume "w @ CHR ''.'' # f = ''Infinity''"
    then have "CHR ''.'' \<in> set ''Infinity''" by (metis in_set_conv_decomp)
    then show False by simp
  qed
  ultimately show ?thesis
    using assms by (simp add: unsigned_decimal_def after_point_def takeWhile_all dropWhile_all Let_def)
qed

text \<open>A decimal text denotes the double nearest to its value.\<close>

lemma number_of_decimal:
  assumes w: "list_all (digit_in 10) w" "w \<noteq> []" and f: "list_all (digit_in 10) f" "f \<noteq> []"
  shows "number_of_text (w @ CHR ''.'' # f) = double_of (read_base 10 (w @ f)) (10 ^ length f)"
proof -
  obtain c w' where c: "w = c # w'" "digit_in 10 c" using w by (cases w) auto
  obtain f' d where d: "f = f' @ [d]" "digit_in 10 d" using f by (cases f rule: rev_cases) auto
  have "trim (w @ CHR ''.'' # f) = w @ CHR ''.'' # f"
    by (rule trim_tight) (use c d digit_not_white in auto)
  moreover have "split_sign (w @ CHR ''.'' # f) = (False, w @ CHR ''.'' # f)"
    using split_sign_digits [OF c(2)] c(1) by simp
  ultimately show ?thesis
    using prefixed_decimal(2) [OF w(1) f(1)] unsigned_with_point [OF w(1) f(1) w(2)] w(2)
    by (simp add: number_of_text_def)
qed

end
