(* ===== verification/Playground_Text.thy ===== *)
theory Playground_Text
  imports Doubles
begin

text \<open>
  The text functions of \<open>src/playground/src/app.js\<close>: amounts as shown (\<open>fmt\<close>) and as typed
  (\<open>typedAmount\<close>, the two lines that steps 4 and 8 share), the hexadecimal form in which the seeds
  of the wallets are stored (\<open>hex\<close>, \<open>unhex\<close>), and the escaping of text for the page (\<open>esc\<close>).
\<close>

definition DECIMALS :: nat where "DECIMALS = 6"
definition UNIT :: int where "UNIT = 10 ^ DECIMALS"

section \<open>Amounts\<close>

text \<open>\<open>toLocaleString("en-US")\<close> of a bigint: groups of three digits.\<close>

fun commas_reversed :: "string \<Rightarrow> string" where
  "commas_reversed (a # b # c # d # s) = a # b # c # CHR '','' # commas_reversed (d # s)"
| "commas_reversed s = s"

definition en_us :: "int \<Rightarrow> string" where
  "en_us n = rev (commas_reversed (rev (show_int n)))"

definition fmt :: "int \<Rightarrow> string" where
  "fmt units =
     (let neg = units < 0;
          v = if neg then - units else units;
          whole = v div UNIT;
          cents = (v mod UNIT) div 10 ^ (DECIMALS - 2) in
      (if neg then ''-'' else '''') @ en_us whole @ ''.'' @ padStart 2 (CHR ''0'') (show_int cents))"

text \<open>An error meant for the visitor as written.\<close>

definition hint :: "string \<Rightarrow> exn" where
  "hint msg = Js_Error ''hint'' msg"

text \<open>
  \<open>Number(input.value)\<close> in whole tokens, checked and turned into base units with two decimals. The
  product is rounded to a double before \<open>Math.round\<close>.
\<close>

definition typedAmount :: "string \<Rightarrow> exn + int" where
  "typedAmount input =
     (let whole = number_of_text input in
      if \<not> isFinite whole \<or> not_positive whole then Inl (hint ''Enter an amount above zero.'')
      else result_bind (toBigInt (Number_v (js_round (js_times whole (js_int 100)))))
        (\<lambda>cents. Inr (cents * (UNIT div 100))))"

section \<open>Seeds\<close>

definition hexDigit :: "nat \<Rightarrow> char" where
  "hexDigit d = ''0123456789abcdef'' ! d"

fun show_hex :: "nat \<Rightarrow> string" where
  "show_hex n = (if n < 16 then [hexDigit n] else show_hex (n div 16) @ [hexDigit (n mod 16)])"

declare show_hex.simps [simp del]

definition hex :: "bytes \<Rightarrow> string" where
  "hex b = concat (map (\<lambda>x. padStart 2 (CHR ''0'') (show_hex (unat x))) b)"

text \<open>\<open>h.match(/../g)\<close>: pairs of characters that do not end a line, or \<open>null\<close> when there is none.\<close>

definition ends_line :: "char \<Rightarrow> bool" where
  "ends_line c \<longleftrightarrow> c = CHR 0x0A \<or> c = CHR 0x0D"

fun pairs_of :: "string \<Rightarrow> (char \<times> char) list" where
  "pairs_of (a # b # s) =
     (if ends_line a then pairs_of (b # s)
      else if ends_line b then pairs_of s
      else (a, b) # pairs_of s)"
| "pairs_of _ = []"

text \<open>
  \<open>parseInt\<close> of two characters in base 16, stored in a byte: white space and one sign may come
  first, parsing stops at the first other character, and \<open>NaN\<close> is stored as 0. (\<open>0x\<close> alone has no
  digits left and is \<open>NaN\<close>, which is also 0.)
\<close>

fun parse_pair :: "char \<times> char \<Rightarrow> byte" where
  "parse_pair (a, b) =
     (case digit_value a of
        Some x \<Rightarrow> (case digit_value b of Some y \<Rightarrow> of_nat (16 * x + y) | None \<Rightarrow>
          if x = 0 \<and> b \<in> {CHR ''x'', CHR ''X''} then 0 else of_nat x)
      | None \<Rightarrow>
          if white a \<or> a = CHR ''+'' then (case digit_value b of Some y \<Rightarrow> of_nat y | None \<Rightarrow> 0)
          else if a = CHR ''-'' then (case digit_value b of Some y \<Rightarrow> - of_nat y | None \<Rightarrow> 0)
          else 0)"

definition unhex :: "string \<Rightarrow> exn + bytes" where
  "unhex h =
     (if pairs_of h = []
      then Inl (Js_Error ''TypeError'' ''Cannot read properties of null'')
      else Inr (map parse_pair (pairs_of h)))"

section \<open>Text for the page\<close>

definition escaped :: "char \<Rightarrow> string" where
  "escaped ch =
     (if ch = CHR ''&'' then ''&amp;''
      else if ch = CHR ''<'' then ''&lt;''
      else if ch = CHR ''>'' then ''&gt;''
      else if ch = CHR 0x22 then ''&quot;''
      else [ch])"

definition esc :: "string \<Rightarrow> string" where
  "esc t = concat (map escaped t)"

section \<open>Facts\<close>

subsection \<open>Typed amounts\<close>

lemma read_base_append:
  "list_all (digit_in 10) [c, d] \<Longrightarrow>
   read_base 10 (w @ [c, d]) = read_base 10 w * 100 + read_base 10 [c, d]"
  by (simp add: read_base_def)

lemma typed_hundredths:
  assumes "list_all (digit_in 10) w" "w \<noteq> []" and "list_all (digit_in 10) [c, d]"
    and "0 < n" and "n < 2 ^ 45" and "n = read_base 10 w * 100 + read_base 10 [c, d]"
  shows "typedAmount (w @ ''.'' @ [c, d]) = Inr (int n * 10000)"
proof -
  have x: "number_of_text (w @ ''.'' @ [c, d]) = double_of n 100"
    using number_of_decimal [OF assms(1,2,3)] assms(6) read_base_append [OF assms(3)] by simp
  have "n < 100 * 2 ^ 39" using assms(5) by simp
  then obtain q k where y: "double_of n 100 = Dyadic (int q) k"
      "2 * \<bar>int q * int 100 - int n * 2 ^ k\<bar> \<le> int 100" "53 - 39 \<le> k"
    using assms(4) by (elim double_of_fraction [rotated 2]) simp_all
  have "(2 :: int) ^ 14 \<le> 2 ^ k" by (rule power_increasing) (use y(3) in simp_all)
  then have "(16384 :: int) \<le> 2 ^ k" by simp
  moreover have "1 * 2 ^ k \<le> int n * (2 :: int) ^ k" by (rule mult_right_mono) (use assms(4) in simp_all)
  ultimately have "16384 \<le> int n * (2 :: int) ^ k" by linarith
  then have "q \<noteq> 0" using y(2) by auto
  then show ?thesis
    using hundredths_round_trip [OF assms(4,5)] x y(1)
    by (simp add: typedAmount_def UNIT_def DECIMALS_def Let_def)
qed

text \<open>C39: An amount typed with two decimals is read exactly. \<open>Number\<close> rounds the decimal to a double and
  the product with 100 is rounded again, but for every positive amount below 2^45 hundredths (351
  billion tokens) the base units are exactly the digits typed.\<close>

theorem typed_amount_exact:
  assumes "list_all (digit_in 10) w" "w \<noteq> []" and "list_all (digit_in 10) [c, d]"
    and "0 < n" and "n < 2 ^ 45" and "n = read_base 10 w * 100 + read_base 10 [c, d]"
  shows "typedAmount (w @ ''.'' @ [c, d]) = Inr (int n * (UNIT div 100))"
  using typed_hundredths [OF assms] by (simp add: UNIT_def DECIMALS_def)

theorem typed_amount_exact_witness: "typedAmount ''1.15'' = Inr 1150000"
proof -
  have digits: "list_all (digit_in 10) ''1''" "list_all (digit_in 10) ''15''" by code_simp+
  have read: "115 = read_base 10 ''1'' * 100 + read_base 10 ''15''" by code_simp
  show ?thesis
    using typed_amount_exact [OF digits(1) _ digits(2) _ _ read] by (simp add: UNIT_def DECIMALS_def)
qed

subsection \<open>Seeds\<close>

lemma digit_value_hex: "d < 16 \<Longrightarrow> digit_value (hexDigit d) = Some d \<and> \<not> ends_line (hexDigit d)"
proof -
  have "list_all (\<lambda>d. digit_value (hexDigit d) = Some d \<and> \<not> ends_line (hexDigit d)) [0..<16]" by code_simp
  then show "d < 16 \<Longrightarrow> digit_value (hexDigit d) = Some d \<and> \<not> ends_line (hexDigit d)"
    by (simp add: list_all_iff)
qed

lemma hex_pair:
  "padStart 2 (CHR ''0'') (show_hex (unat (x :: byte))) = [hexDigit (unat x div 16), hexDigit (unat x mod 16)]"
proof -
  have "unat x < 2 ^ LENGTH(8)" by (rule unsigned_less)
  then have "unat x div 16 < 16" by simp
  then show ?thesis
    by (auto simp: padStart_def show_hex.simps [of "unat x"] show_hex.simps [of "unat x div 16"]
        hexDigit_def)
qed

lemma pairs_of_hex:
  "pairs_of (hex b) = map (\<lambda>x. (hexDigit (unat x div 16), hexDigit (unat x mod 16))) b"
proof (induction b)
  case Nil
  then show ?case by (simp add: hex_def)
next
  case (Cons x b)
  have "unat x < 2 ^ LENGTH(8)" by (rule unsigned_less)
  then have "unat x div 16 < 16" "unat x mod 16 < 16" by simp_all
  with Cons show ?case by (simp add: hex_def hex_pair digit_value_hex)
qed

lemma parse_pair_hex: "parse_pair (hexDigit (unat x div 16), hexDigit (unat x mod 16)) = x"
proof -
  have "unat x < 2 ^ LENGTH(8)" by (rule unsigned_less)
  then have "unat x div 16 < 16" "unat x mod 16 < 16" by simp_all
  moreover have "of_nat (16 * (unat x div 16) + unat x mod 16) = x" by simp
  ultimately show ?thesis by (simp add: digit_value_hex del: of_nat_add of_nat_mult)
qed

lemma unhex_hex: "b \<noteq> [] \<Longrightarrow> unhex (hex b) = Inr b"
  by (simp add: unhex_def pairs_of_hex parse_pair_hex comp_def del: parse_pair.simps)

interpretation seed_codec: codec
  "\<lambda>b. b \<noteq> []" hex "\<lambda>h. case unhex h of Inr b \<Rightarrow> Some b | Inl _ \<Rightarrow> None"
  by unfold_locales (simp add: unhex_hex)

subsection \<open>Escaping\<close>

text \<open>What a browser shows for text with these four entities.\<close>

definition entity :: "string \<Rightarrow> (char \<times> nat) option" where
  "entity s =
     (if take 4 s = ''amp;'' then Some (CHR ''&'', 4)
      else if take 3 s = ''lt;'' then Some (CHR ''<'', 3)
      else if take 3 s = ''gt;'' then Some (CHR ''>'', 3)
      else if take 5 s = ''quot;'' then Some (CHR 0x22, 5)
      else None)"

function unescape :: "string \<Rightarrow> string" where
  "unescape [] = []"
| "unescape (c # s) =
     (if c \<noteq> CHR ''&'' then c # unescape s
      else case entity s of
          Some (ch, n) \<Rightarrow> ch # unescape (drop n s)
        | None \<Rightarrow> c # unescape s)"
  by pat_completeness auto
termination
  by (relation "measure length") auto

lemma entity_cases:
  "entity (''amp;'' @ s) = Some (CHR ''&'', 4)" "entity (''lt;'' @ s) = Some (CHR ''<'', 3)"
  "entity (''gt;'' @ s) = Some (CHR ''>'', 3)" "entity (''quot;'' @ s) = Some (CHR 0x22, 5)"
  by (simp_all add: entity_def)

lemma escaped_plain:
  "c \<notin> {CHR ''&'', CHR ''<'', CHR ''>'', CHR 0x22} \<Longrightarrow> escaped c = [c]"
  by (simp add: escaped_def)

lemma unescape_escaped: "unescape (escaped c @ s) = c # unescape s"
proof -
  consider "c = CHR ''&''" | "c = CHR ''<''" | "c = CHR ''>''" | "c = CHR 0x22"
    | "c \<notin> {CHR ''&'', CHR ''<'', CHR ''>'', CHR 0x22}"
    by blast
  then show ?thesis
  proof cases
    case 1
    then show ?thesis using entity_cases(1) [of s] by (simp add: escaped_def)
  next
    case 2
    then show ?thesis using entity_cases(2) [of s] by (simp add: escaped_def)
  next
    case 3
    then show ?thesis using entity_cases(3) [of s] by (simp add: escaped_def)
  next
    case 4
    then show ?thesis using entity_cases(4) [of s] by (simp add: escaped_def)
  next
    case 5
    then show ?thesis using escaped_plain [OF 5] by simp
  qed
qed

lemma unescape_esc: "unescape (esc t) = t"
  by (induction t) (simp_all add: esc_def unescape_escaped del: unescape.simps(2))

lemma escaped_safe: "set (escaped c) \<inter> {CHR ''<'', CHR ''>'', CHR 0x22} = {}"
proof -
  consider "c = CHR ''&''" | "c = CHR ''<''" | "c = CHR ''>''" | "c = CHR 0x22"
    | "c \<notin> {CHR ''&'', CHR ''<'', CHR ''>'', CHR 0x22}"
    by blast
  then show ?thesis by cases (simp add: escaped_def; fail | simp add: escaped_plain)+
qed

lemma esc_safe: "set (esc t) \<inter> {CHR ''<'', CHR ''>'', CHR 0x22} = {}"
proof (induction t)
  case Nil
  then show ?case by (simp add: esc_def)
next
  case (Cons c t)
  have "esc (c # t) = escaped c @ esc t" by (simp add: esc_def)
  then show ?case using Cons escaped_safe [of c] by (simp only: set_append Int_Un_distrib2 Un_empty)
qed

text \<open>Escaping is a codec: a browser that reads the entities shows the text as it was.\<close>

interpretation esc_codec: codec "\<lambda>_. True" esc "\<lambda>t. Some (unescape t)"
  by unfold_locales (simp add: unescape_esc)

subsection \<open>Amounts as shown\<close>

lemma commas_reversed_digits: "filter (\<lambda>c. c \<noteq> CHR '','') (commas_reversed s) = filter (\<lambda>c. c \<noteq> CHR '','') s"
  by (induction s rule: commas_reversed.induct) auto

lemma en_us_digits: "filter (\<lambda>c. c \<noteq> CHR '','') (en_us n) = filter (\<lambda>c. c \<noteq> CHR '','') (show_int n)"
  unfolding en_us_def by (simp only: rev_filter [symmetric] commas_reversed_digits rev_rev_ident)

end
