(* ===== verification/Playground.thy ===== *)
theory Playground
  imports Transfers Auditor Sentinel Playground_Text
begin

text \<open>
  The playground page, \<open>src/playground/src/app.js\<close>: what it keeps, how it talks to the chain, how it
  reads an error, and its eight steps. The variables of the module, the storage and the page are a
  record \<open>page\<close> beside the world (\<open>io_get\<close>, \<open>io_put\<close>); a step is a computation on both. The
  progress lines a step writes while it runs, and the HTML around the values it shows, are left
  out; the values are kept (\<open>shown\<close>). The handlers that run the steps are in \<open>Playground_Page\<close>.
\<close>

section \<open>What the page uses\<close>

text \<open>
  Beside the SDK's own parameters: the browser, more of kit and of the RPC client, the program
  clients' sizes. \<open>br_address\<close> is kit's \<open>address\<close>, which gets \<open>null\<close> before a mint is stored.
\<close>

datatype mint_extension =
    Mint_TransferHook (me_authority: address) (me_programId: address)
  | Mint_ConfidentialTransfer (me_authority: address) (me_autoApproveNewAccounts: bool)
      (me_auditor: address)

record 'w browser =
  br_address :: "string option \<Rightarrow> exn + address"
  br_random32 :: "'w \<Rightarrow> bytes \<times> 'w"
  br_signerFromSeed :: "bytes \<Rightarrow> ('w, signer) task"
  br_initConfidentialTransfers :: "('w, unit) task"
  br_requestAirdrop :: "address \<Rightarrow> int \<Rightarrow> ('w, unit) task"
  br_getBalance :: "address \<Rightarrow> ('w, int) task"
  br_getTokenAccountBalance :: "address \<Rightarrow> ('w, string) task"
  br_getMinimumBalanceForRentExemption :: "int \<Rightarrow> ('w, int) task"
  br_getMintSize :: "mint_extension list \<Rightarrow> int"
  br_signWithSigners :: "message \<Rightarrow> ('w, transaction) task"
  br_assertBlockhashLifetime :: "transaction \<Rightarrow> exn + unit"
  br_encodeU64 :: "int \<Rightarrow> exn + bytes"
  br_sleep :: "nat \<Rightarrow> ('w, unit) task"
  br_contextLogs :: "exn \<Rightarrow> string list option"
  br_cause :: "exn \<Rightarrow> exn option"

record ('w, 'p) services =
  sv_points :: "'p ristretto"
  sv_kit :: "'w kit"
  sv_zk :: "'w zk"
  sv_program :: program_client
  sv_rpc :: "'w rpc"
  sv_browser :: "'w browser"

section \<open>What the page keeps\<close>

definition MIN_SOL :: int where "MIN_SOL = 50000000"
definition RULES_SOL :: int where "RULES_SOL = 30000000"
definition LAST :: nat where "LAST = 8"

record seeds =
  sd_you :: string
  sd_bob :: string
  sd_auditor :: string
  sd_mallory :: "string option"

text \<open>The second token, the one with rules (\<open>state.c\<close>).\<close>

record rules =
  c_stage :: nat
  c_createdTx :: "signature option"
  c_mint :: "address option"
  c_rulesTx :: "signature option"
  c_refused :: "(string \<times> string) option"
  c_cleaned :: bool
  c_closed :: "int option"
  c_sent :: "string option"
  c_signatures :: "signature list"
  c_applied :: bool

definition new_rules :: rules where
  "new_rules = \<lparr>c_stage = 0, c_createdTx = None, c_mint = None, c_rulesTx = None, c_refused = None,
     c_cleaned = False, c_closed = None, c_sent = None, c_signatures = [], c_applied = False\<rparr>"

record progress =
  st_seeds :: seeds
  st_done :: nat
  st_mint :: "address option"
  st_bobMint :: "address option"
  st_sent :: "string option"
  st_signatures :: "signature list"
  st_rules :: "rules option"

record keyring =
  kr_you :: signer
  kr_bob :: signer
  kr_auditor :: signer
  kr_mallory :: signer

text \<open>The values a step shows when it is done.\<close>

datatype shown =
    Shown_Mint address signature address
  | Shown_Deposit int int signature
  | Shown_Transfer "signature list"
  | Shown_Decrypted int int "int option" "signature option"
  | Shown_Withdraw int int "signature option"
  | Shown_Rules "address option" "signature option" address int
  | Shown_Ruled string string int "signature option" "int option" "int option"

datatype advice =
    As_Written string
  | Faucet_Refused
  | Not_Enough_Sol
  | Expired_Try_Again
  | Unreachable_Try_Again
  | Keeps_Failing string "int option"

datatype said = Said_Funded | Said_Done | Said_Error advice

datatype look = Look_Done | Look_Ready | Look_Locked

record page =
  pg_state :: progress
  pg_stored :: "progress option"
  pg_storable :: bool
  pg_keys :: "keyring option"
  pg_auditorKeypair :: "elgamal_keypair option"
  pg_busy :: bool
  pg_amount :: string
  pg_amount2 :: string
  pg_out :: "nat \<Rightarrow> shown option"
  pg_said :: "nat \<Rightarrow> said option"
  pg_look :: "nat \<Rightarrow> look"
  pg_enabled :: "nat \<Rightarrow> bool"
  pg_resetEnabled :: bool
  pg_finale :: bool

type_synonym ('w, 'a) act = "('w \<times> page, 'a) task"

text \<open>\<open>localStorage.setItem\<close> throws in private mode, which \<open>save\<close> ignores.\<close>

definition saved :: "page \<Rightarrow> page" where
  "saved p = (if pg_storable p then p\<lparr>pg_stored := Some (pg_state p)\<rparr> else p)"

definition save :: "('w, unit) act" where
  "save = change saved"

definition setState :: "(progress \<Rightarrow> progress) \<Rightarrow> page \<Rightarrow> page" where
  "setState f p = p\<lparr>pg_state := f (pg_state p)\<rparr>"

definition setRules :: "(rules \<Rightarrow> rules) \<Rightarrow> page \<Rightarrow> page" where
  "setRules f = setState (\<lambda>s. s\<lparr>st_rules := map_option f (st_rules s)\<rparr>)"

definition out :: "nat \<Rightarrow> shown \<Rightarrow> ('w, unit) act" where
  "out n v = change (\<lambda>p. p\<lparr>pg_out := (pg_out p)(n := Some v)\<rparr>)"

definition undefined_property :: exn where
  "undefined_property = Js_Error ''TypeError'' ''Cannot read properties of undefined''"

definition theKeys :: "('w, keyring) act" where
  "theKeys = io_bind io_get (\<lambda>p.
     case pg_keys p of None \<Rightarrow> io_throw undefined_property | Some k \<Rightarrow> io_return k)"

definition auditorPubkey :: "('w, 'p) services \<Rightarrow> ('w, address) act" where
  "auditorPubkey A = io_bind io_get (\<lambda>p.
     case pg_auditorKeypair p of
       None \<Rightarrow> io_throw undefined_property
     | Some keypair \<Rightarrow> io_of (getAuditorElgamalPubkey (sv_kit A) keypair))"

definition theRules :: "('w, rules) act" where
  "theRules = io_bind io_get (\<lambda>p.
     case st_rules (pg_state p) of
       None \<Rightarrow> io_throw (Js_Error ''TypeError'' ''Cannot read properties of null'')
     | Some c \<Rightarrow> io_return c)"

section \<open>Seeds and wallets\<close>

definition seed :: "'w browser \<Rightarrow> 'w \<Rightarrow> string \<times> 'w" where
  "seed B w = (case br_random32 B w of (b, w') \<Rightarrow> (hex b, w'))"

definition freshSeeds :: "'w browser \<Rightarrow> 'w \<Rightarrow> seeds \<times> 'w" where
  "freshSeeds B w =
     (case seed B w of (you, w1) \<Rightarrow> case seed B w1 of (bob, w2) \<Rightarrow>
      case seed B w2 of (auditor, w3) \<Rightarrow> case seed B w3 of (mallory, w4) \<Rightarrow>
      (\<lparr>sd_you = you, sd_bob = bob, sd_auditor = auditor, sd_mallory = Some mallory\<rparr>, w4))"

definition fresh :: "'w browser \<Rightarrow> 'w \<Rightarrow> progress \<times> 'w" where
  "fresh B w =
     (case freshSeeds B w of (s, w') \<Rightarrow>
      (\<lparr>st_seeds = s, st_done = 0, st_mint = None, st_bobMint = None, st_sent = None,
        st_signatures = [], st_rules = None\<rparr>, w'))"

text \<open>The start of the module: the stored run or a fresh one, and a seed an old run does not have.\<close>

definition initialState :: "'w browser \<Rightarrow> progress option \<Rightarrow> 'w \<Rightarrow> progress \<times> 'w" where
  "initialState B loaded w =
     (case (case loaded of Some s \<Rightarrow> (s, w) | None \<Rightarrow> fresh B w) of (s, w1) \<Rightarrow>
      case sd_mallory (st_seeds s) of
        Some _ \<Rightarrow> (s, w1)
      | None \<Rightarrow> (case seed B w1 of (m, w2) \<Rightarrow>
          (s\<lparr>st_seeds := (st_seeds s)\<lparr>sd_mallory := Some m\<rparr>\<rparr>, w2)))"

definition makeSigner :: "'w browser \<Rightarrow> string \<Rightarrow> ('w, signer) task" where
  "makeSigner B h = io_bind (io_of (unhex h)) (br_signerFromSeed B)"

definition signers :: "'w kit \<Rightarrow> 'w browser \<Rightarrow> seeds \<Rightarrow> ('w, keyring) task" where
  "signers K B s =
     io_bind (promise_all (kit_race K) (map (makeSigner B)
       [sd_you s, sd_bob s, sd_auditor s, (case sd_mallory s of Some m \<Rightarrow> m | None \<Rightarrow> [])])) (\<lambda>ks.
     io_return \<lparr>kr_you = ks ! 0, kr_bob = ks ! 1, kr_auditor = ks ! 2, kr_mallory = ks ! 3\<rparr>)"

section \<open>The chain\<close>

definition send :: "('w, 'p) services \<Rightarrow> instruction list \<Rightarrow> ('w, signature) act" where
  "send A ixs =
     io_bind (io_local (rpc_getLatestBlockhash (sv_rpc A))) (\<lambda>latestBlockhash.
     io_bind theKeys (\<lambda>keys.
     io_bind (io_local (br_signWithSigners (sv_browser A)
       \<lparr>msg_feePayer = kr_you keys, msg_lifetime = Some latestBlockhash, msg_instructions = ixs\<rparr>))
       (\<lambda>signed.
     io_bind (io_of (br_assertBlockhashLifetime (sv_browser A) signed)) (\<lambda>_.
     io_bind (io_local (rpc_sendAndConfirm (sv_rpc A) signed)) (\<lambda>_.
     io_of (kit_getSignature (sv_kit A) signed))))))"

definition ataOn :: "('w, 'p) services \<Rightarrow> address \<Rightarrow> address \<Rightarrow> exn + address" where
  "ataOn A mint owner = kit_findAssociatedTokenPda (sv_kit A) owner TOKEN_2022_PROGRAM_ADDRESS mint"

definition stateMint :: "('w, 'p) services \<Rightarrow> ('w, address) act" where
  "stateMint A = io_bind io_get (\<lambda>p. io_of (br_address (sv_browser A) (st_mint (pg_state p))))"

definition ataOf :: "('w, 'p) services \<Rightarrow> address \<Rightarrow> ('w, address) act" where
  "ataOf A owner = io_bind (stateMint A) (\<lambda>mint. io_of (ataOn A mint owner))"

definition publicBalance :: "('w, 'p) services \<Rightarrow> address \<Rightarrow> ('w, int) act" where
  "publicBalance A owner =
     io_catch
       (io_bind (ataOf A owner) (\<lambda>ata.
        io_bind (io_local (br_getTokenAccountBalance (sv_browser A) ata)) (\<lambda>amount.
        io_of (bigint_of_text amount))))
       (\<lambda>_. io_return 0)"

text \<open>The input of an SDK call: \<open>{ ...sdk, payer: keys.you, owner, mint }\<close>.\<close>

definition sdkInput ::
  "('w, 'p) services \<Rightarrow> keyring \<Rightarrow> signer \<Rightarrow> address \<Rightarrow> 'w operation_input" where
  "sdkInput A keys owner mint =
     \<lparr>in_rpc = sv_rpc A, in_payer = kr_you keys, in_owner = owner, in_mint = mint, in_token = None,
      in_keys = None, in_programAddress = None, in_computeUnitPrice = None, in_retries = None\<rparr>"

definition balanceOn :: "('w, 'p) services \<Rightarrow> keyring \<Rightarrow> signer \<Rightarrow> address \<Rightarrow> ('w, int) act" where
  "balanceOn A keys owner mint =
     io_local (decryptBalance (sv_kit A) (sv_zk A) (sdkInput A keys owner mint))"

definition confidentialBalance :: "('w, 'p) services \<Rightarrow> keyring \<Rightarrow> signer \<Rightarrow> ('w, int) act" where
  "confidentialBalance A keys owner =
     io_bind (stateMint A) (balanceOn A keys owner)"

definition solBalance :: "('w, 'p) services \<Rightarrow> ('w, int) act" where
  "solBalance A = io_bind theKeys (\<lambda>keys.
     io_local (br_getBalance (sv_browser A) (sg_address (kr_you keys))))"

definition configureOn ::
  "('w, 'p) services \<Rightarrow> keyring \<Rightarrow> signer \<Rightarrow> address \<Rightarrow> ('w, configure_result) act" where
  "configureOn A keys owner mint =
     io_local (configureAccount (sv_kit A) (sv_zk A)
       (operation_input.extend (sdkInput A keys owner mint) (configure_input.fields None)))"

definition depositOn ::
  "('w, 'p) services \<Rightarrow> keyring \<Rightarrow> address \<Rightarrow> int \<Rightarrow> ('w, address \<times> signature) act" where
  "depositOn A keys mint amount =
     io_local (deposit (sv_kit A)
       (operation_input.extend (sdkInput A keys (kr_you keys) mint)
         (deposit_input.fields (BigInt_v amount) DECIMALS)))"

definition applyOn ::
  "('w, 'p) services \<Rightarrow> keyring \<Rightarrow> signer \<Rightarrow> address \<Rightarrow> ('w, address \<times> signature) act" where
  "applyOn A keys owner mint =
     io_local (applyPendingBalance (sv_kit A) (sv_zk A) (sdkInput A keys owner mint))"

definition transferOn ::
  "('w, 'p) services \<Rightarrow> keyring \<Rightarrow> address \<Rightarrow> signer \<Rightarrow> int \<Rightarrow> address \<Rightarrow> ('w, transfer_result) act" where
  "transferOn A keys mint recipient amount auditor =
     io_local (transfer (sv_points A) (sv_kit A) (sv_zk A)
       (operation_input.extend (sdkInput A keys (kr_you keys) mint)
         (transfer_input.fields (Some (sg_address recipient)) (BigInt_v amount) None (Some auditor))))"

definition withdrawOn ::
  "('w, 'p) services \<Rightarrow> keyring \<Rightarrow> signer \<Rightarrow> address \<Rightarrow> int \<Rightarrow> ('w, withdraw_result) act" where
  "withdrawOn A keys owner mint amount =
     io_local (withdraw (sv_points A) (sv_kit A) (sv_zk A)
       (operation_input.extend (sdkInput A keys owner mint)
         (withdraw_input.fields (BigInt_v amount) DECIMALS)))"

text \<open>The proof accounts a refused transfer left open, eight closed in a transaction.\<close>

fun sendBatches :: "('w, 'p) services \<Rightarrow> keyring \<Rightarrow> address list list \<Rightarrow> ('w, unit) act" where
  "sendBatches A keys [] = io_return ()"
| "sendBatches A keys (b # bs) =
     io_bind (send A (map (\<lambda>contextState. build (sv_kit A)
       (CloseContextState contextState (sg_address (kr_you keys)) (sg_address (kr_you keys)))) b))
       (\<lambda>_. sendBatches A keys bs)"

definition closeLeftoverProofs :: "('w, 'p) services \<Rightarrow> ('w, nat) act" where
  "closeLeftoverProofs A =
     io_bind theKeys (\<lambda>keys.
     io_bind (io_local (rpc_getProgramAccounts (sv_rpc A) ZK_ELGAMAL_PROOF_PROGRAM_ADDRESS
       (sg_address (kr_you keys)))) (\<lambda>open'.
     let accounts = map fst open' in
     io_bind (sendBatches A keys (batches 8 accounts)) (\<lambda>_.
     io_return (length accounts))))"

end
