(* ===== verification/Playground_Errors.thy ===== *)
theory Playground_Errors
  imports Playground
begin

text \<open>
  How the playground reads a failure (\<open>refusal\<close> and \<open>explain\<close> of \<open>src/playground/src/app.js\<close>): the
  messages, the logs and the error codes along the chain of causes. The advice texts are the
  constructors of \<open>advice\<close>.
\<close>

section \<open>Searching text\<close>

fun has_text :: "string \<Rightarrow> string \<Rightarrow> bool" where
  "has_text p s \<longleftrightarrow> take (length p) s = p \<or> (case s of [] \<Rightarrow> False | _ # t \<Rightarrow> has_text p t)"

declare has_text.simps [simp del]

definition lower :: "char \<Rightarrow> char" where
  "lower c = (let n = of_char c :: nat in if 65 \<le> n \<and> n \<le> 90 then char_of (n + 32) else c)"

definition has_text_any_case :: "string \<Rightarrow> string \<Rightarrow> bool" where
  "has_text_any_case p s \<longleftrightarrow> has_text (map lower p) (map lower s)"

fun lines_of :: "string \<Rightarrow> string list" where
  "lines_of [] = [[]]"
| "lines_of (c # s) =
     (if c = CHR 0x0A then [] # lines_of s
      else case lines_of s of [] \<Rightarrow> [[c]] | l # ls \<Rightarrow> (c # l) # ls)"

text \<open>\<open>text.split(separator)[0]\<close>.\<close>

fun before :: "string \<Rightarrow> string \<Rightarrow> string" where
  "before sep [] = []"
| "before sep (c # s) = (if take (length sep) (c # s) = sep then [] else c # before sep s)"

section \<open>The chain of causes\<close>

definition causeOf :: "'w browser \<Rightarrow> exn \<Rightarrow> exn option" where
  "causeOf B e =
     (case e of Confidential_Error _ _ _ _ _ _ _ _ cause \<Rightarrow> cause | _ \<Rightarrow> br_cause B e)"

fun causes :: "'w browser \<Rightarrow> nat \<Rightarrow> exn \<Rightarrow> exn list" where
  "causes B 0 e = []"
| "causes B (Suc depth) e =
     e # (case causeOf B e of None \<Rightarrow> [] | Some c \<Rightarrow> causes B depth c)"

text \<open>\<open>e.message\<close> when there is one that is not empty.\<close>

definition messages :: "exn \<Rightarrow> string list" where
  "messages e = (case e of Thrown _ \<Rightarrow> [] | _ \<Rightarrow> if js_message e = [] then [] else [js_message e])"

definition contextLogs :: "'w browser \<Rightarrow> exn \<Rightarrow> string list" where
  "contextLogs B e = (case br_contextLogs B e of Some l \<Rightarrow> l | None \<Rightarrow> [])"

fun code_of :: "exn \<Rightarrow> int list" where
  "code_of (Solana_Error c _) = [c]"
| "code_of _ = []"

section \<open>refusal\<close>

definition withoutLogPrefix :: "string \<Rightarrow> string" where
  "withoutLogPrefix line =
     (let t = dropWhile white line in
      if take 12 t = ''Program log:'' then dropWhile white (drop 12 t) else line)"

definition refusal :: "'w browser \<Rightarrow> exn \<Rightarrow> (string \<times> string) option" where
  "refusal B err =
     (let all = join newline (concat (map (\<lambda>e. messages e @ contextLogs B e) (causes B 6 err)));
          blocked = has_text ''RecipientBlocked'' all \<or>
            (has_text (dquote @ ''Custom'' @ dquote @ '':6003'') all \<and> has_text SENTINEL_PROGRAM_ADDRESS all) in
      if \<not> blocked then None
      else
        let line = (case find (has_text ''Error Code: RecipientBlocked'') (lines_of all) of
            Some l \<Rightarrow> l | None \<Rightarrow> []) in
        Some (''Recipient is blocklisted for this mint'', trim (withoutLogPrefix line)))"

section \<open>explain\<close>

definition NO_SOL :: "int list" where "NO_SOL = [7050003, 7050005, 7050031, 4615006]"
definition EXPIRED :: "int list" where "EXPIRED = [1, 7050008]"
definition UNREACHABLE :: "int list" where "UNREACHABLE = [8100002, -32005]"

definition isHint :: "exn \<Rightarrow> bool" where
  "isHint e = (case e of Js_Error name _ \<Rightarrow> name = ''hint'' | _ \<Rightarrow> False)"

definition explain :: "'w browser \<Rightarrow> exn \<Rightarrow> advice" where
  "explain B err =
     (let msg = js_message err;
          chain = causes B 6 err;
          codes = concat (map code_of chain);
          all = join newline (msg # concat (map (\<lambda>e. contextLogs B e @ messages e) chain));
          mentions = (\<lambda>p. has_text_any_case p all) in
      if isHint err then As_Written msg
      else if msg = ''faucet'' then Faucet_Refused
      else if list_ex (\<lambda>c. c \<in> set NO_SOL) codes \<or> mentions ''insufficient funds'' \<or>
          mentions ''insufficient lamports'' \<or> mentions ''InsufficientFunds''
        then Not_Enough_Sol
      else if list_ex (\<lambda>c. c \<in> set EXPIRED) codes then Expired_Try_Again
      else if list_ex (\<lambda>c. c \<in> set UNREACHABLE) codes \<or> mentions ''Failed to fetch'' \<or>
          mentions ''NetworkError'' \<or> mentions ''network''
        then Unreachable_Try_Again
      else
        let line = before (newline @ ''--- program logs ---'') msg in
        Keeps_Failing
          (if take 12 line = ''Solana error'' then ''Devnet rejected the transaction'' else take 240 line)
          (case codes of [] \<Rightarrow> None | c # _ \<Rightarrow> Some c))"

section \<open>Facts\<close>

lemma has_text_append: "has_text p (a @ p @ b)"
proof (induction a)
  case Nil
  then show ?case by (simp add: has_text.simps)
next
  case (Cons c a)
  then show ?case by (simp add: has_text.simps [of p "c # a @ p @ b"])
qed

lemma has_text_iff: "has_text p s \<longleftrightarrow> (\<exists>a b. s = a @ p @ b)"
proof (induction s)
  case Nil
  then show ?case by (auto simp: has_text.simps)
next
  case (Cons c s)
  show ?case
  proof
    assume "has_text p (c # s)"
    then consider "take (length p) (c # s) = p" | "has_text p s" by (auto simp: has_text.simps [of p "c # s"])
    then show "\<exists>a b. c # s = a @ p @ b"
    proof cases
      case 1
      then have "c # s = [] @ p @ drop (length p) (c # s)" by (metis append_Nil append_take_drop_id)
      then show ?thesis by blast
    next
      case 2
      then obtain a b where "s = a @ p @ b" using Cons by blast
      then have "c # s = (c # a) @ p @ b" by simp
      then show ?thesis by blast
    qed
  next
    assume "\<exists>a b. c # s = a @ p @ b"
    then show "has_text p (c # s)" using has_text_append by auto
  qed
qed

lemma has_text_join: "s \<in> set ss \<Longrightarrow> has_text p s \<Longrightarrow> has_text p (join sep ss)"
proof (induction sep ss rule: join.induct)
  case (3 sep x y ys)
  show ?case
  proof (cases "s = x")
    case True
    then obtain a b where "x = a @ p @ b" using 3 by (auto simp: has_text_iff)
    then have "join sep (x # y # ys) = a @ p @ (b @ sep @ join sep (y # ys))" by simp
    then show ?thesis unfolding has_text_iff by blast
  next
    case False
    then have "has_text p (join sep (y # ys))" using 3 by auto
    then obtain a b where "join sep (y # ys) = a @ p @ b" by (auto simp: has_text_iff)
    then have "join sep (x # y # ys) = (x @ sep @ a) @ p @ b" by simp
    then show ?thesis unfolding has_text_iff by blast
  qed
qed auto

lemma lower_append: "map lower (a @ b) = map lower a @ map lower b"
  by simp

lemma has_text_any_case_if: "has_text p s \<Longrightarrow> has_text_any_case p s"
  using has_text_append [of "map lower p"] by (auto simp: has_text_any_case_def has_text_iff [of p s])

text \<open>
  The SDK's own refusal of an amount above the confidential balance reads like an empty wallet to
  \<open>explain\<close>: its message starts with \<open>Insufficient funds\<close>.
\<close>

lemma balance_message_taken_for_sol:
  assumes "js_message e = ''Insufficient funds'' @ rest" and "\<not> isHint e"
  shows "explain B e = Not_Enough_Sol"
proof -
  let ?all = "\<lambda>chain. join newline (js_message e # concat (map (\<lambda>e. contextLogs B e @ messages e) chain))"
  have "has_text ''Insufficient funds'' (js_message e)"
    unfolding has_text_iff by (rule exI [of _ "[]"], rule exI [of _ rest]) (simp add: assms(1))
  then have "has_text ''Insufficient funds'' (?all (causes B 6 e))" by (intro has_text_join) simp_all
  then have "has_text (map lower ''Insufficient funds'') (map lower (?all (causes B 6 e)))"
    using has_text_any_case_if by (simp only: has_text_any_case_def)
  moreover have "map lower ''Insufficient funds'' = map lower ''insufficient funds''"
    by code_simp
  ultimately have "has_text_any_case ''insufficient funds'' (?all (causes B 6 e))"
    by (simp only: has_text_any_case_def)
  moreover have "js_message e \<noteq> ''faucet''" by (simp add: assms(1))
  ultimately show ?thesis using assms(2) by (simp add: explain_def Let_def)
qed

end
