(* ===== verification/Playground_Steps.thy ===== *)
theory Playground_Steps
  imports Playground_Errors
begin

text \<open>
  The eight steps of the playground (\<open>STEPS\<close> in \<open>src/playground/src/app.js\<close>). Steps 4, 7 and 8 save
  what they finished, so that a retry resumes there; \<open>stage\<close> is the pattern of step 7. Below the
  steps: what a run of step 7 does to its stages, over any number of tries, and what a resumed
  step 4 or 8 does not do again.
\<close>

section \<open>Steps 1 to 3\<close>

definition faucet :: exn where
  "faucet = Js_Error ''Error'' ''faucet''"

fun waitForSol :: "('w, 'p) services \<Rightarrow> nat \<Rightarrow> ('w, unit) act" where
  "waitForSol A 0 = io_throw faucet"
| "waitForSol A (Suc n) =
     io_bind (solBalance A) (\<lambda>balance.
     if MIN_SOL \<le> balance then io_return ()
     else io_bind (io_local (br_sleep (sv_browser A) 2000)) (\<lambda>_. waitForSol A n))"

definition step1 :: "('w, 'p) services \<Rightarrow> ('w, unit) act" where
  "step1 A =
     io_try
       (io_bind theKeys (\<lambda>keys. io_local
         (br_requestAirdrop (sv_browser A) (sg_address (kr_you keys)) 1000000000)))
       (\<lambda>_. waitForSol A 30)
       (\<lambda>_. io_throw faucet)"

definition createMint :: "('w, 'p) services \<Rightarrow> keyring \<Rightarrow> ('w, address \<times> signature) act" where
  "createMint A keys =
     (let you = sg_address (kr_you keys) in
      io_bind (io_local (kit_generateKeyPairSigner (sv_kit A))) (\<lambda>mint.
      io_bind (auditorPubkey A) (\<lambda>auditor.
      let space = br_getMintSize (sv_browser A) [Mint_ConfidentialTransfer you True auditor] in
      io_bind (io_local (br_getMinimumBalanceForRentExemption (sv_browser A) space)) (\<lambda>rent.
      io_bind (send A (map (build (sv_kit A))
        [CreateAccount you (sg_address mint) rent space TOKEN_2022_PROGRAM_ADDRESS,
         InitializeConfidentialTransferMint (sg_address mint) (Some you) True (Some auditor),
         InitializeMint2 (sg_address mint) DECIMALS you None])) (\<lambda>created.
      io_return (sg_address mint, created))))))"

definition step2 :: "('w, 'p) services \<Rightarrow> ('w, unit) act" where
  "step2 A =
     io_bind theKeys (\<lambda>keys.
     io_bind (createMint A keys) (\<lambda>(mint, created).
     io_bind (change (setState (\<lambda>s. s\<lparr>st_mint := Some mint\<rparr>))) (\<lambda>_.
     io_bind save (\<lambda>_.
     io_bind (configureOn A keys (kr_you keys) mint) (\<lambda>_.
     io_bind (ataOf A (sg_address (kr_you keys))) (\<lambda>token.
     io_bind (send A [build (sv_kit A) (MintTo mint token (sg_address (kr_you keys)) (1000 * UNIT))]) (\<lambda>_.
     out 2 (Shown_Mint mint created (sg_address (kr_auditor keys))))))))))"

definition bothBalances ::
  "('w, 'p) services \<Rightarrow> keyring \<Rightarrow> signer \<Rightarrow> ('w, int \<times> int) act" where
  "bothBalances A keys owner =
     io_bind (promise_all (kit_race (sv_kit A))
       [publicBalance A (sg_address owner), confidentialBalance A keys owner]) (\<lambda>vs.
     io_return (vs ! 0, vs ! 1))"

definition step3 :: "('w, 'p) services \<Rightarrow> ('w, unit) act" where
  "step3 A =
     io_bind theKeys (\<lambda>keys.
     io_bind (stateMint A) (\<lambda>mint.
     io_bind (depositOn A keys mint (100 * UNIT)) (\<lambda>dep.
     io_bind (applyOn A keys (kr_you keys) mint) (\<lambda>_.
     io_bind (bothBalances A keys (kr_you keys)) (\<lambda>(pub, conf).
     out 3 (Shown_Deposit pub conf (snd dep)))))))"

section \<open>Step 4\<close>

text \<open>\<open>!state.sent\<close>.\<close>

definition unsent :: "string option \<Rightarrow> bool" where
  "unsent v \<longleftrightarrow> (case v of None \<Rightarrow> True | Some s \<Rightarrow> s = [])"

definition checkAvailable ::
  "('w, int) act \<Rightarrow> string \<Rightarrow> int \<Rightarrow> string option \<Rightarrow> ('w, unit) act" where
  "checkAvailable balance suffix amount sent =
     (if unsent sent
      then io_bind balance (\<lambda>available.
        if available < amount then io_throw (hint (''You have '' @ fmt available @ suffix))
        else io_return ())
      else io_return ())"

definition configureBob :: "('w, 'p) services \<Rightarrow> keyring \<Rightarrow> ('w, unit) act" where
  "configureBob A keys =
     io_bind io_get (\<lambda>p.
     if st_bobMint (pg_state p) \<noteq> st_mint (pg_state p)
     then
       io_bind (stateMint A) (\<lambda>mint.
       io_bind (configureOn A keys (kr_bob keys) mint) (\<lambda>_.
       io_bind (change (setState (\<lambda>s. s\<lparr>st_bobMint := st_mint s\<rparr>))) (\<lambda>_. save)))
     else io_return ())"

definition transferToBob :: "('w, 'p) services \<Rightarrow> keyring \<Rightarrow> int \<Rightarrow> ('w, unit) act" where
  "transferToBob A keys amount =
     io_bind io_get (\<lambda>p.
     if unsent (st_sent (pg_state p))
     then
       io_bind (stateMint A) (\<lambda>mint.
       io_bind (auditorPubkey A) (\<lambda>auditor.
       io_bind (transferOn A keys mint (kr_bob keys) amount auditor) (\<lambda>result.
       io_bind (change (setState (\<lambda>s. s\<lparr>st_signatures := fr_signatures (to_flow result),
         st_sent := Some (show_int amount)\<rparr>))) (\<lambda>_. save))))
     else io_return ())"

definition step4 :: "('w, 'p) services \<Rightarrow> ('w, unit) act" where
  "step4 A =
     io_bind io_get (\<lambda>p.
     io_bind (io_of (typedAmount (pg_amount p))) (\<lambda>amount.
     io_bind theKeys (\<lambda>keys.
     io_bind (checkAvailable (confidentialBalance A keys (kr_you keys)) '' in your confidential balance.''
       amount (st_sent (pg_state p))) (\<lambda>_.
     io_bind (configureBob A keys) (\<lambda>_.
     io_bind (transferToBob A keys amount) (\<lambda>_.
     io_bind (stateMint A) (\<lambda>mint.
     io_bind (applyOn A keys (kr_bob keys) mint) (\<lambda>_.
     io_bind io_get (\<lambda>p. out 4 (Shown_Transfer (st_signatures (pg_state p))))))))))))"

section \<open>Steps 5 and 6\<close>

definition last_of :: "'a list \<Rightarrow> 'a option" where
  "last_of xs = (if xs = [] then None else Some (last xs))"

text \<open>
  The first signature whose transaction the auditor can read. Without a key pair the SDK still asks
  for the transaction before it fails.
\<close>

definition readAsAuditor :: "('w, 'p) services \<Rightarrow> signature \<Rightarrow> ('w, int) act" where
  "readAsAuditor A s = io_bind io_get (\<lambda>p.
     case pg_auditorKeypair p of
       Some keypair \<Rightarrow> io_local (decryptTransferAmountAsAuditor (sv_kit A) (sv_zk A) (sv_program A)
         \<lparr>au_rpc = sv_rpc A, au_signature = s, au_keypair = keypair, au_programAddress = None\<rparr>)
     | None \<Rightarrow> io_bind (io_local (rpc_getTransaction (sv_rpc A) s)) (\<lambda>_. io_throw undefined_property))"

fun firstReadable :: "('w, 'p) services \<Rightarrow> signature list \<Rightarrow> ('w, int option) act" where
  "firstReadable A [] = io_return None"
| "firstReadable A (s # ss) =
     io_try (readAsAuditor A s) (\<lambda>v. io_return (Some v)) (\<lambda>_. firstReadable A ss)"

definition step5 :: "('w, 'p) services \<Rightarrow> ('w, unit) act" where
  "step5 A =
     io_bind theKeys (\<lambda>keys.
     io_bind (promise_all (kit_race (sv_kit A))
       [confidentialBalance A keys (kr_you keys), confidentialBalance A keys (kr_bob keys)]) (\<lambda>vs.
     io_bind io_get (\<lambda>p.
     io_bind (firstReadable A (st_signatures (pg_state p))) (\<lambda>seen.
     out 5 (Shown_Decrypted (vs ! 0) (vs ! 1) seen (last_of (st_signatures (pg_state p))))))))"

definition step6 :: "('w, 'p) services \<Rightarrow> ('w, unit) act" where
  "step6 A =
     io_bind theKeys (\<lambda>keys.
     io_bind (confidentialBalance A keys (kr_bob keys)) (\<lambda>amount.
     if amount = 0 then io_throw (hint ''Bob's confidential balance is empty.'')
     else
       io_bind (stateMint A) (\<lambda>mint.
       io_bind (withdrawOn A keys (kr_bob keys) mint amount) (\<lambda>result.
       io_bind (bothBalances A keys (kr_bob keys)) (\<lambda>(pub, conf).
       out 6 (Shown_Withdraw pub conf (last_of (fr_signatures (wr_flow result)))))))))"

section \<open>Step 7\<close>

text \<open>\<open>if (c.stage < n) { await action; c.stage = n; save(); }\<close>.\<close>

definition stage :: "nat \<Rightarrow> ('w, 'a) act \<Rightarrow> ('w, unit) act" where
  "stage n action =
     io_bind theRules (\<lambda>c.
     if c_stage c < n
     then io_bind action (\<lambda>_.
       io_bind (change (setRules (\<lambda>c. c\<lparr>c_stage := n\<rparr>))) (\<lambda>_. save))
     else io_return ())"

definition openRules :: "progress \<Rightarrow> progress" where
  "openRules s =
     s\<lparr>st_rules := Some (case st_rules s of Some c \<Rightarrow> c | None \<Rightarrow> new_rules)\<rparr>"

definition rentCheck :: "('w, 'p) services \<Rightarrow> ('w, unit) act" where
  "rentCheck A =
     io_bind theRules (\<lambda>c.
     if c_stage c = 0
     then io_bind (solBalance A) (\<lambda>balance.
       if balance < RULES_SOL
       then io_throw (hint (''This step pays rent for a new token, its rules and three token accounts, '' @
         ''about 0.02 SOL. Top up the address above and press the button again.''))
       else io_return ())
     else io_return ())"

definition createRuledMint :: "('w, 'p) services \<Rightarrow> ('w, unit) act" where
  "createRuledMint A =
     io_bind (io_local (kit_generateKeyPairSigner (sv_kit A))) (\<lambda>mint.
     io_bind (auditorPubkey A) (\<lambda>auditor.
     io_bind theKeys (\<lambda>keys.
     let you = sg_address (kr_you keys);
         space = br_getMintSize (sv_browser A) [Mint_TransferHook you SENTINEL_PROGRAM_ADDRESS,
           Mint_ConfidentialTransfer you True auditor] in
     io_bind (io_local (br_getMinimumBalanceForRentExemption (sv_browser A) space)) (\<lambda>rent.
     io_bind (send A (map (build (sv_kit A))
       [CreateAccount you (sg_address mint) rent space TOKEN_2022_PROGRAM_ADDRESS,
        InitializeTransferHook (sg_address mint) you SENTINEL_PROGRAM_ADDRESS,
        InitializeConfidentialTransferMint (sg_address mint) (Some you) True (Some auditor),
        InitializeMint2 (sg_address mint) DECIMALS you None])) (\<lambda>created.
     change (setRules (\<lambda>c. c\<lparr>c_createdTx := Some created, c_mint := Some (sg_address mint)\<rparr>)))))))"

definition rulesMint :: "('w, 'p) services \<Rightarrow> ('w, address) act" where
  "rulesMint A = io_bind theRules (\<lambda>c. io_of (br_address (sv_browser A) (c_mint c)))"

definition the_policy :: policy where
  "the_policy = \<lparr>po_allowlist = False, po_blocklist = True, po_maxTransferAmount = BigInt_v 0,
     po_allowConfidential = True\<rparr>"

definition installRules :: "('w, 'p) services \<Rightarrow> address \<Rightarrow> ('w, unit) act" where
  "installRules A mint =
     io_bind theKeys (\<lambda>keys.
     io_bind (io_of (getInitializeExtraAccountMetaListInstruction (sv_kit A) (kr_you keys) mint)) (\<lambda>metas.
     io_bind (io_of (getInitializePolicyInstruction (sv_kit A) (br_encodeU64 (sv_browser A)) (kr_you keys)
       mint the_policy)) (\<lambda>policy.
     io_bind (io_of (getAddToBlocklistInstruction (sv_kit A) (kr_you keys) mint
       (sg_address (kr_mallory keys)))) (\<lambda>block.
     io_bind (send A [metas, policy, block]) (\<lambda>rulesTx.
     change (setRules (\<lambda>c. c\<lparr>c_rulesTx := Some rulesTx\<rparr>)))))))"

definition mintRuled :: "('w, 'p) services \<Rightarrow> keyring \<Rightarrow> address \<Rightarrow> ('w, signature) act" where
  "mintRuled A keys mint =
     io_bind (io_of (ataOn A mint (sg_address (kr_you keys)))) (\<lambda>token.
     send A [build (sv_kit A) (MintTo mint token (sg_address (kr_you keys)) (100 * UNIT))])"

definition step7 :: "('w, 'p) services \<Rightarrow> ('w, unit) act" where
  "step7 A =
     io_bind (change (setState openRules)) (\<lambda>_.
     io_bind (rentCheck A) (\<lambda>_.
     io_bind (stage 1 (createRuledMint A)) (\<lambda>_.
     io_bind (rulesMint A) (\<lambda>mint.
     io_bind (stage 2 (installRules A mint)) (\<lambda>_.
     io_bind theKeys (\<lambda>keys.
     io_bind (stage 3 (configureOn A keys (kr_you keys) mint)) (\<lambda>_.
     io_bind (stage 4 (configureOn A keys (kr_bob keys) mint)) (\<lambda>_.
     io_bind (stage 5 (configureOn A keys (kr_mallory keys) mint)) (\<lambda>_.
     io_bind (stage 6 (mintRuled A keys mint)) (\<lambda>_.
     io_bind (stage 7 (depositOn A keys mint (100 * UNIT))) (\<lambda>_.
     io_bind (stage 8 (applyOn A keys (kr_you keys) mint)) (\<lambda>_.
     io_bind (balanceOn A keys (kr_you keys) mint) (\<lambda>conf.
     io_bind theRules (\<lambda>c.
     out 7 (Shown_Rules (c_mint c) (c_rulesTx c) (sg_address (kr_mallory keys)) conf)))))))))))))))"

section \<open>Step 8\<close>

definition payMallory ::
  "('w, 'p) services \<Rightarrow> keyring \<Rightarrow> address \<Rightarrow> int \<Rightarrow> address \<Rightarrow> ('w, unit) act" where
  "payMallory A keys mint amount auditor =
     io_bind theRules (\<lambda>c.
     if c_refused c = None
     then io_try (transferOn A keys mint (kr_mallory keys) amount auditor)
       (\<lambda>_. io_throw (hint (''Sentinel let the payment to Mallory through, which should not happen. '' @
         ''Start over with new keys, and please open an issue on GitHub.'')))
       (\<lambda>err. case refusal (sv_browser A) err of
           None \<Rightarrow> io_throw err
         | Some why \<Rightarrow>
             io_bind (change (setRules (\<lambda>c. c\<lparr>c_refused := Some why\<rparr>))) (\<lambda>_. save))
     else io_return ())"

definition cleanUp :: "('w, 'p) services \<Rightarrow> ('w, unit) act" where
  "cleanUp A =
     io_bind theRules (\<lambda>c.
     if \<not> c_cleaned c
     then
       io_bind (io_try (closeLeftoverProofs A) (\<lambda>n. io_return (int n)) (\<lambda>_. io_return (- 1))) (\<lambda>closed.
       io_bind (change (setRules (\<lambda>c. c\<lparr>c_closed := Some closed, c_cleaned := True\<rparr>))) (\<lambda>_. save))
     else io_return ())"

definition payBob ::
  "('w, 'p) services \<Rightarrow> keyring \<Rightarrow> address \<Rightarrow> int \<Rightarrow> address \<Rightarrow> ('w, unit) act" where
  "payBob A keys mint amount auditor =
     io_bind theRules (\<lambda>c.
     if unsent (c_sent c)
     then
       io_bind (transferOn A keys mint (kr_bob keys) amount auditor) (\<lambda>result.
       io_bind (change (setRules (\<lambda>c. c\<lparr>c_signatures := fr_signatures (to_flow result),
         c_sent := Some (show_int amount)\<rparr>))) (\<lambda>_. save))
     else io_return ())"

definition applyBob :: "('w, 'p) services \<Rightarrow> keyring \<Rightarrow> address \<Rightarrow> ('w, unit) act" where
  "applyBob A keys mint =
     io_bind theRules (\<lambda>c.
     if \<not> c_applied c
     then
       io_bind (applyOn A keys (kr_bob keys) mint) (\<lambda>_.
       io_bind (change (setRules (\<lambda>c. c\<lparr>c_applied := True\<rparr>))) (\<lambda>_. save))
     else io_return ())"

definition showRuled :: "('w, 'p) services \<Rightarrow> keyring \<Rightarrow> address \<Rightarrow> ('w, unit) act" where
  "showRuled A keys mint =
     io_bind (balanceOn A keys (kr_bob keys) mint) (\<lambda>bobs.
     io_bind theRules (\<lambda>c.
     io_bind (firstReadable A (c_signatures c)) (\<lambda>seen.
     case c_refused c of
       None \<Rightarrow> io_throw undefined_property
     | Some (msg, log) \<Rightarrow>
         out 8 (Shown_Ruled (esc msg) (esc log) bobs (last_of (c_signatures c)) seen (c_closed c)))))"

definition step8 :: "('w, 'p) services \<Rightarrow> ('w, unit) act" where
  "step8 A =
     io_bind (rulesMint A) (\<lambda>mint.
     io_bind io_get (\<lambda>p.
     io_bind (io_of (typedAmount (pg_amount2 p))) (\<lambda>amount.
     io_bind (auditorPubkey A) (\<lambda>auditor.
     io_bind theKeys (\<lambda>keys.
     io_bind theRules (\<lambda>c.
     io_bind (checkAvailable (balanceOn A keys (kr_you keys) mint)
       '' in your confidential balance of this token.'' amount (c_sent c)) (\<lambda>_.
     io_bind (payMallory A keys mint amount auditor) (\<lambda>_.
     io_bind (cleanUp A) (\<lambda>_.
     io_bind (payBob A keys mint amount auditor) (\<lambda>_.
     io_bind (applyBob A keys mint) (\<lambda>_.
     showRuled A keys mint)))))))))))"

section \<open>All steps\<close>

definition STEPS :: "('w, 'p) services \<Rightarrow> nat \<Rightarrow> ('w, unit) act" where
  "STEPS A n =
     (if n = 1 then step1 A else if n = 2 then step2 A else if n = 3 then step3 A
      else if n = 4 then step4 A else if n = 5 then step5 A else if n = 6 then step6 A
      else if n = 7 then step7 A else if n = 8 then step8 A
      else io_throw (Js_Error ''TypeError'' ''STEPS[n] is not a function''))"

section \<open>What leaves the page alone\<close>

lemma keeps_page_reads: "keeps_local theKeys" "keeps_local theRules" "keeps_local (auditorPubkey A)"
  "keeps_local (stateMint A)" "keeps_local (ataOf A owner)" "keeps_local (rulesMint A)"
  unfolding theKeys_def theRules_def auditorPubkey_def ataOf_def stateMint_def rulesMint_def
  by (intro keeps_local_rules)+

lemma keeps_page_local_calls: "keeps_local (balanceOn A keys s mint)" "keeps_local (configureOn A keys s mint)"
  "keeps_local (depositOn A keys mint amount)" "keeps_local (applyOn A keys s mint)"
  "keeps_local (transferOn A keys mint s amount auditor)" "keeps_local (withdrawOn A keys s mint amount)"
  by (simp_all add: balanceOn_def configureOn_def depositOn_def applyOn_def transferOn_def
      withdrawOn_def keeps_local_basic)

lemma keeps_page_send: "keeps_local (send A ixs)"
  unfolding send_def by (intro keeps_local_rules keeps_page_reads)

lemma keeps_page_balances: "keeps_local (publicBalance A owner)" "keeps_local (confidentialBalance A keys s)"
  "keeps_local (solBalance A)"
  unfolding publicBalance_def confidentialBalance_def solBalance_def
  by (intro keeps_local_rules keeps_page_reads keeps_page_local_calls)+

lemmas keeps_page_calls = keeps_page_local_calls keeps_page_send keeps_page_balances

lemma keeps_page_batches: "keeps_local (sendBatches A keys bs)"
  by (induction bs; simp only: sendBatches.simps) (intro keeps_local_rules keeps_page_calls; assumption)+

lemma keeps_page_waiting: "keeps_local (waitForSol A n)"
  by (induction n; simp only: waitForSol.simps) (intro keeps_local_rules keeps_page_calls; assumption)+

lemma keeps_page_reading: "keeps_local (readAsAuditor A s)" "keeps_local (firstReadable A ss)"
proof -
  show one: "keeps_local (readAsAuditor A s)" for s
    unfolding readAsAuditor_def by (intro keeps_local_rules)
  show "keeps_local (firstReadable A ss)"
    by (induction ss; simp only: firstReadable.simps) (intro keeps_local_rules one; assumption)+
qed

lemma keeps_page_parts: "keeps_local (closeLeftoverProofs A)" "keeps_local (createMint A keys)"
  "keeps_local (bothBalances A keys s)" "keeps_local (rentCheck A)" "keeps_local (mintRuled A keys mint)"
  "keeps_local (step1 A)"
  unfolding closeLeftoverProofs_def createMint_def bothBalances_def rentCheck_def mintRuled_def
    step1_def Let_def
  by (intro keeps_local_rules keeps_page_reads keeps_page_calls keeps_page_batches keeps_page_waiting
      keeps_local_promise_all; simp add: keeps_page_calls)+

lemma keeps_page_check: "keeps_local balance \<Longrightarrow> keeps_local (checkAvailable balance suffix amount sent)"
  unfolding checkAvailable_def by (intro keeps_local_rules)

lemmas keeps_page_all = keeps_page_reads keeps_page_calls keeps_page_batches keeps_page_waiting
  keeps_page_reading keeps_page_parts

section \<open>Running on a page\<close>

lemma change_save: "io_bind (change f) (\<lambda>_. save) = change (saved \<circ> f)"
  by (rule ext) (auto simp: save_def change_def io_get_def io_put_def io_bind_def)

lemma saved_fields [simp]:
  "pg_state (saved p) = pg_state p" "pg_keys (saved p) = pg_keys p"
  "pg_auditorKeypair (saved p) = pg_auditorKeypair p"
  by (simp_all add: saved_def)

lemma setState_fields [simp]:
  "pg_state (setState f p) = f (pg_state p)" "pg_keys (setState f p) = pg_keys p"
  "pg_auditorKeypair (setState f p) = pg_auditorKeypair p"
  by (simp_all add: setState_def)

lemma setRules_fields [simp]:
  "st_rules (pg_state (setRules f p)) = map_option f (st_rules (pg_state p))"
  "pg_keys (setRules f p) = pg_keys p"
  by (simp_all add: setRules_def)

lemma theRules_eq: "theRules (w, p) =
    ((case st_rules (pg_state p) of
        None \<Rightarrow> Inl (Js_Error ''TypeError'' ''Cannot read properties of null'') | Some c \<Rightarrow> Inr c), (w, p))"
  by (simp add: theRules_def io_get_def io_bind_def split: option.split)

lemma theKeys_eq: "theKeys (w, p) =
    ((case pg_keys p of None \<Rightarrow> Inl undefined_property | Some k \<Rightarrow> Inr k), (w, p))"
  by (simp add: theKeys_def io_get_def io_bind_def split: option.split)

definition rules_mint :: "('w, 'p) services \<Rightarrow> page \<Rightarrow> exn + address" where
  "rules_mint A p =
     (case st_rules (pg_state p) of
        None \<Rightarrow> Inl (Js_Error ''TypeError'' ''Cannot read properties of null'')
      | Some c \<Rightarrow> br_address (sv_browser A) (c_mint c))"

lemma rulesMint_eq: "rulesMint A (w, p) = (rules_mint A p, (w, p))"
  by (simp add: rulesMint_def rules_mint_def io_bind_def theRules_eq split: option.split)

lemma keys_bind: "pg_keys p = Some keys \<Longrightarrow> io_bind theKeys f (w, p) = f keys (w, p)"
  by (simp add: io_bind_def theKeys_eq)

lemma stateMint_eq: "stateMint A (w, p) = (br_address (sv_browser A) (st_mint (pg_state p)), (w, p))"
  by (simp add: stateMint_def get_bind)

lemma change_bind_save: "io_bind (change f) (\<lambda>_. save) (w, p) = (Inr (), (w, saved (f p)))"
  by (simp add: change_save)

lemma rules_bind: "st_rules (pg_state p) = Some c \<Longrightarrow> io_bind theRules f (w, p) = f c (w, p)"
  by (simp add: io_bind_def theRules_eq)

end
