(* ===== verification/Playground_Concrete.thy ===== *)
theory Playground_Concrete
  imports Playground_Steps
begin

text \<open>
  A concrete playground, for the witnesses only: a browser that draws seeds from a counter and names a
  wallet after its seed, beside the kit, the proofs and the RPC node of \<open>Concrete\<close> and \<open>Operations\<close>.
\<close>

section \<open>A page that runs\<close>

definition page_browser :: "nat browser" where
  "page_browser = \<lparr>br_address = (\<lambda>a. case a of Some x \<Rightarrow> Inr x | None \<Rightarrow> Inl undefined_property),
     br_random32 = (\<lambda>n. ([of_nat n], Suc n)),
     br_signerFromSeed = (\<lambda>b. io_return (page_signer (''key'' @ show_nat (unat (hd b))))),
     br_initConfidentialTransfers = io_return (),
     br_requestAirdrop = (\<lambda>_ _. io_return ()), br_getBalance = (\<lambda>_. io_return 1000000000),
     br_getTokenAccountBalance = (\<lambda>_. io_return ''0''),
     br_getMinimumBalanceForRentExemption = (\<lambda>_. io_return 1), br_getMintSize = (\<lambda>_. 1),
     br_signWithSigners = (\<lambda>m. io_return \<lparr>tx_messageBytes = [115],
       tx_signatures = [(sg_address (msg_feePayer m), Some [1])], tx_lifetime = msg_lifetime m\<rparr>),
     br_assertBlockhashLifetime = (\<lambda>_. Inr ()), br_encodeU64 = (\<lambda>n. Inr (bigUint64 n)),
     br_sleep = (\<lambda>_. io_return ()), br_contextLogs = (\<lambda>_. None), br_cause = (\<lambda>_. None)\<rparr>"

definition page_services :: "token option \<Rightarrow> (nat, 8 word) services" where
  "page_services account = \<lparr>sv_points = byte_group, sv_kit = toy_kit, sv_zk = toy_zk, sv_program = toy_program,
     sv_rpc = op_rpc account, sv_browser = page_browser\<rparr>"

definition page_keys :: keyring where
  "page_keys = \<lparr>kr_you = page_signer ''key0'', kr_bob = page_signer ''key1'', kr_auditor = page_signer ''key2'',
     kr_mallory = page_signer ''key3''\<rparr>"

lemma conf: "\<not> isl (fst (configureAccount toy_kit toy_zk
       (operation_input.extend (sdkInput (page_services None) page_keys (page_signer ''key0'') ''proof5'') (configure_input.fields None)) 7))"
  by code_simp

lemma deriv: "deriveAuditorElgamalKeypair toy_kit toy_zk (page_signer ''key2'') (w::nat) = (Inr some_keypair, w)"
  by (simp add: deriveAuditorElgamalKeypair_def deriveConfidentialKeys_def ensureZk_def confidentialKeysFrom_def signDerivationMessage_def toy_kit_def toy_zk_def idle_kit_def idle_zk_def page_signer_def io_bind_def initConfidentialTransfers_def)

text \<open>The page on a chain without accounts.\<close>

abbreviation A0 :: "(nat, 8 word) services" where
  "A0 \<equiv> page_services None"

lemma fresh0: "fresh page_browser 0 =
  (\<lparr>st_seeds = \<lparr>sd_you = hex [0], sd_bob = hex [1], sd_auditor = hex [2], sd_mallory = Some (hex [3])\<rparr>, st_done = 0,
     st_mint = None, st_bobMint = None, st_sent = None, st_signatures = [], st_rules = None\<rparr>, 4)"
  by (simp add: fresh_def freshSeeds_def seed_def page_browser_def)

lemma signers0: "signers toy_kit page_browser
    \<lparr>sd_you = hex [0], sd_bob = hex [1], sd_auditor = hex [2], sd_mallory = Some (hex [3])\<rparr> w = (Inr page_keys, w)"
  by (simp add: signers_def makeSigner_def page_browser_def unhex_hex promise_all_def io_bind_def page_keys_def
    show_nat.simps digit_def)


lemma parts0:
  "sv_kit A0 = toy_kit" "sv_zk A0 = toy_zk" "sv_browser A0 = page_browser" "sv_rpc A0 = op_rpc None"
  "br_initConfidentialTransfers page_browser = io_return ()"
  "br_requestAirdrop page_browser a n = io_return ()" "br_getBalance page_browser a = io_return 1000000000"
  "br_getMinimumBalanceForRentExemption page_browser n = io_return 1"
  "br_signWithSigners page_browser m = io_return \<lparr>tx_messageBytes = [115],
       tx_signatures = [(sg_address (msg_feePayer m), Some [1])], tx_lifetime = msg_lifetime m\<rparr>"
  "br_assertBlockhashLifetime page_browser t = Inr ()"
  "br_address page_browser (Some a') = Inr a'"
  "kit_generateKeyPairSigner toy_kit w = (Inr (signer_named (''proof'' @ show_nat w)), Suc w)"
  "rpc_getLatestBlockhash (op_rpc None) = io_return some_lifetime"
  "rpc_sendAndConfirm (op_rpc None) t w = (Inr (), Suc w)"
  "kit_getSignature toy_kit t = Inr ''sig''"
  "kit_findAssociatedTokenPda toy_kit o' q m' = Inr (o' @ ''/'' @ m')"
  by (simp_all add: page_services_def page_browser_def toy_kit_def idle_kit_def op_rpc_def toy_rpc_def)

lemma sol0: "pg_keys p = Some page_keys \<Longrightarrow> solBalance A0 (w, p) = (Inr 1000000000, (w, p))"
  by (simp add: solBalance_def keys_bind parts0)

lemma step1_0: "pg_keys p = Some page_keys \<Longrightarrow> STEPS A0 1 (w, p) = (Inr (), (w, p))"
  by (simp add: STEPS_def step1_def keys_bind io_try_def parts0 eval_nat_numeral io_bind_def [of "solBalance A0"] sol0 MIN_SOL_def)

lemma send0: "pg_keys p = Some page_keys \<Longrightarrow> send A0 ixs (w, p) = (Inr ''sig'', (Suc w, p))"
  by (simp add: send_def keys_bind parts0 io_bind_def [of "io_local m" for m] of_bind)


lemma configure0: "\<exists>res w'. configureOn A0 page_keys (page_signer ''key0'') ''proof5'' (7, p) = (Inr res, (w', p))"
  using ran_Inr [OF conf] by (auto simp: configureOn_def parts0 split: prod.splits)

lemma auditorPubkey0: "pg_auditorKeypair p = Some some_keypair \<Longrightarrow> auditorPubkey A0 (w, p) = (Inr ''k'', (w, p))"
proof -
  have "kit_decodeAddress toy_kit (kp_pubkey some_keypair) = Inr ''k''" by code_simp
  then show "pg_auditorKeypair p = Some some_keypair \<Longrightarrow> ?thesis"
    by (simp add: auditorPubkey_def get_bind parts0 getAuditorElgamalPubkey_def assertZkReady_def)
qed

lemma create0: "pg_keys p = Some page_keys \<Longrightarrow> pg_auditorKeypair p = Some some_keypair \<Longrightarrow>
   createMint A0 page_keys (5, p) = (Inr (''proof5'', ''sig''), (7, p))"
  by (simp add: createMint_def Let_def parts0 io_bind_def [of "io_local m" for m] io_bind_def [of "auditorPubkey A0"]
     auditorPubkey0 io_bind_def [of "send A0 ixs" for ixs] send0 signer_named_def show_nat.simps digit_def)

lemma step2_0: assumes "pg_keys p = Some page_keys" "pg_auditorKeypair p = Some some_keypair"
  shows "\<exists>x. STEPS A0 2 (5, p) = (Inr (), x)"
proof -
  let ?p = "saved (setState (\<lambda>s. s\<lparr>st_mint := Some ''proof5''\<rparr>) p)"
  obtain res w' where c: "configureOn A0 page_keys (page_signer ''key0'') ''proof5'' (7, ?p) = (Inr res, (w', ?p))"
    using configure0 by blast
  have k: "pg_keys ?p = Some page_keys" using assms by simp
  have you: "kr_you page_keys = page_signer ''key0''" by (simp add: page_keys_def)
  show ?thesis
    by (simp add: STEPS_def step2_def keys_bind assms(1) io_bind_def [of "createMint A0 page_keys"] create0 [OF assms]
       io_bind_def [of "change f" for f] io_bind_def [of save] save_def you io_bind_def [of "configureOn A0 page_keys s m" for s m] c
       io_bind_def [of "ataOf A0 a" for a] ataOf_def io_bind_def [of "stateMint A0"] stateMint_eq parts0 ataOn_def
       io_bind_def [of "send A0 ixs" for ixs] send0 [OF k] out_def)
qed

section \<open>A page in the middle of the run\<close>

definition saved_run :: "rules \<Rightarrow> progress" where
  "saved_run c = \<lparr>st_seeds = \<lparr>sd_you = hex [0], sd_bob = hex [1], sd_auditor = hex [2], sd_mallory = Some (hex [3])\<rparr>,
     st_done = 6, st_mint = Some ''mint'', st_bobMint = Some ''mint'', st_sent = Some ''25000000'',
     st_signatures = [''sig''], st_rules = Some c\<rparr>"

definition page_with :: "rules \<Rightarrow> page" where
  "page_with c =
     \<lparr>pg_state = saved_run c, pg_stored = None, pg_storable = True, pg_keys = Some page_keys,
      pg_auditorKeypair = Some some_keypair, pg_busy = False, pg_amount = ''25.00'', pg_amount2 = ''25.00'',
      pg_out = (\<lambda>_. None), pg_said = (\<lambda>_. None), pg_look = (\<lambda>_. Look_Locked), pg_enabled = (\<lambda>_. False),
      pg_resetEnabled = True, pg_finale = False\<rparr>"

definition rules_at :: "nat \<Rightarrow> rules" where
  "rules_at n = new_rules\<lparr>c_stage := n, c_mint := Some ''mint''\<rparr>"

lemma page_with_fields [simp]:
  "pg_state (page_with c) = saved_run c" "pg_keys (page_with c) = Some page_keys"
  "pg_auditorKeypair (page_with c) = Some some_keypair" "pg_amount (page_with c) = ''25.00''"
  "pg_amount2 (page_with c) = ''25.00''" "st_rules (saved_run c) = Some c"
  "st_sent (saved_run c) = Some ''25000000''" "st_bobMint (saved_run c) = st_mint (saved_run c)"
  "st_mint (saved_run c) = Some ''mint''"
  by (simp_all add: page_with_def saved_run_def)

lemma rules_at_fields [simp]: "c_stage (rules_at n) = n" "c_mint (rules_at n) = Some ''mint''"
  by (simp_all add: rules_at_def)

lemma typed_25: "typedAmount ''25.00'' = Inr 25000000"
proof -
  have digits: "list_all (digit_in 10) ''25''" "list_all (digit_in 10) ''00''" by code_simp+
  have read: "2500 = read_base 10 ''25'' * 100 + read_base 10 ''00''" by code_simp
  show ?thesis using typed_hundredths [OF digits(1) _ digits(2) _ _ read] by simp
qed

section \<open>A transfer that returns\<close>

definition rich :: token where
  "rich = token_with 0 100000000"

definition ruled_rpc :: "nat rpc" where
  "ruled_rpc = in_rpc (hookless (op_input (Some rich)))"

definition ruled_services :: "(nat, 8 word) services" where
  "ruled_services = (page_services None)\<lparr>sv_kit := bundle_kit, sv_rpc := ruled_rpc\<rparr>"

lemma ruled_parts:
  "sv_points ruled_services = byte_group" "sv_kit ruled_services = bundle_kit" "sv_zk ruled_services = toy_zk"
  "sv_browser ruled_services = page_browser" "sv_rpc ruled_services = ruled_rpc"
  "rpc_fetchMaybeToken ruled_rpc a w = (Inr (Some rich), w)"
  "rpc_fetchMint ruled_rpc a w = (Inr \<lparr>mt_decimals = 2, mt_extensions = Some [ConfidentialTransferMint None]\<rparr>, w)"
  by (simp_all add: ruled_services_def page_services_def ruled_rpc_def hookless_def op_input_def op_rpc_def)

lemma page_ownerKeys: "ownerKeys bundle_kit toy_zk (page_signer a) None op w = (Inr some_keys, w :: nat)"
  by (simp add: ownerKeys_def deriveConfidentialKeys_def ensureZk_def confidentialKeysFrom_def
    signDerivationMessage_def bundle_kit_def toy_kit_def toy_zk_def idle_kit_def idle_zk_def page_signer_def
    io_bind_def initConfidentialTransfers_def some_keys_def isMessageSigner_def)


lemma ruled_keys: "assertKeysMatchAccount bundle_kit some_keys rich t op = Inr ()"
  by (simp add: rich_def bundle_keys_match)

lemma ruled_read:
  "readConfiguredAccount ruled_rpc a op whose w = (Inr (rich, ct_with 100000000), w)"
  by (simp add: readConfiguredAccount_Inr ruled_parts rich_def)

lemma ruled_token: "tokenOf bundle_kit (sdkInput ruled_services page_keys (page_signer a) m) = Inr (a @ ''/'' @ m)"
  by (simp add: tokenOf_def sdkInput_def bundle_kit_def toy_kit_def idle_kit_def page_signer_def)

lemma ruled_balance:
  "balanceOn ruled_services page_keys (page_signer a) ''mint'' (w, p) = (Inr 100000000, (w, p))"
proof -
  have "zk_aeDecrypt (toy_zk :: nat zk) k (bigUint64 100000000) = Inr 100000000" for k
    by (simp add: toy_zk_def le_nat_bigUint64)
  moreover have "zk_aeFromBytes (toy_zk :: nat zk) (bigUint64 100000000) = Some (bigUint64 100000000)"
    by (simp add: toy_zk_def idle_zk_def bigUint64_def)
  moreover have "in_rpc (sdkInput ruled_services page_keys (page_signer a) ''mint'') = ruled_rpc"
      "in_owner (sdkInput ruled_services page_keys (page_signer a) ''mint'') = page_signer a"
      "in_keys (sdkInput ruled_services page_keys (page_signer a) ''mint'') = None"
    by (simp_all add: sdkInput_def ruled_parts)
  ultimately show ?thesis
    by (simp add: balanceOn_def decryptBalance_def ruled_parts ruled_token ruled_read page_ownerKeys
      ruled_keys ct_with_def)
qed

definition ruled_transfer :: "address \<Rightarrow> nat transfer_input" where
  "ruled_transfer owner = operation_input.extend (sdkInput ruled_services page_keys (page_signer ''key0'') ''mint'')
     (transfer_input.fields (Some owner) (BigInt_v 25000000) None (Some ''k''))"

lemma ruled_transfer_fields:
  "in_rpc (ruled_transfer o') = ruled_rpc" "in_keys (ruled_transfer o') = None"
  "in_payer (ruled_transfer o') = signer_named ''key0''" "in_owner (ruled_transfer o') = page_signer ''key0''"
  "in_computeUnitPrice (ruled_transfer o') = None" "in_mint (ruled_transfer o') = ''mint''"
  "tr_amount (ruled_transfer o') = BigInt_v 25000000" "in_retries (ruled_transfer o') = None"
  "tr_auditorElgamalPubkey (ruled_transfer o') = Some ''k''"
  "tokenOf bundle_kit (ruled_transfer o') = Inr ''key0/mint''"
  "destinationOf bundle_kit (ruled_transfer o') = Inr (o' @ ''/mint'')"
  by (simp_all add: ruled_transfer_def sdkInput_def operation_input.defs tokenOf_def destinationOf_def ruled_parts
      page_keys_def page_signer_def signer_named_def bundle_kit_def toy_kit_def idle_kit_def transfer_input.defs)

lemma ruled_transfer_runs:
  "\<exists>result w'. transfer byte_group bundle_kit toy_zk (ruled_transfer o') w = (Inr result, w')"
proof -
  have "\<exists>w'. transfer byte_group bundle_kit toy_zk (ruled_transfer o') w =
      (Inr \<lparr>to_sourceToken = ''key0/mint'', to_destinationToken = o' @ ''/mint'',
         to_flow = \<lparr>fr_signatures = [''sig''], fr_proofAccountsLeftOpen = []\<rparr>\<rparr>, w')"
    by (rule bundle_transfer [where b = 100000000 and a = 25000000 and p = "''key0''"])
      (simp_all add: ruled_transfer_fields ruled_rpc_def rich_def cachedKeys_unset page_ownerKeys bundle_facts(3) [symmetric])
  then show ?thesis by blast
qed

lemma ruled_pays:
  assumes "pg_keys p = Some page_keys" "pg_auditorKeypair p = Some some_keypair" "pg_amount2 p = ''25.00''"
    and "st_rules (pg_state p) = Some c" "c_mint c = Some ''mint''" "c_refused c = Some why" "c_cleaned c"
    and "unsent (c_sent c)"
  shows "\<exists>(result :: transfer_result) w1. step8 ruled_services (0, p) =
    io_bind (applyBob ruled_services page_keys ''mint'') (\<lambda>_. showRuled ruled_services page_keys ''mint'')
      (w1, saved (setRules (\<lambda>c. c\<lparr>c_signatures := fr_signatures (to_flow result),
        c_sent := Some (show_int 25000000)\<rparr>) p))"
proof -
  have "kit_decodeAddress toy_kit (kp_pubkey some_keypair) = Inr ''k''" by code_simp
  then have auditor: "auditorPubkey ruled_services (0, p) = (Inr ''k'', (0, p))"
    using assms(2) by (simp add: auditorPubkey_def get_bind ruled_parts getAuditorElgamalPubkey_def assertZkReady_def bundle_facts(2))
  obtain result w1 where t: "transfer byte_group bundle_kit toy_zk (ruled_transfer ''key1'') 0 = (Inr result, w1)"
    using ruled_transfer_runs by blast
  have bob: "transferOn ruled_services page_keys ''mint'' (kr_bob page_keys) 25000000 ''k'' (0, p) = (Inr result, (w1, p))"
    using t by (simp add: transferOn_def ruled_parts ruled_transfer_def page_keys_def page_signer_def)
  have you: "kr_you page_keys = page_signer ''key0''" by (simp add: page_keys_def)
  let ?f = "\<lambda>c. c\<lparr>c_signatures := fr_signatures (to_flow result), c_sent := Some (show_int 25000000)\<rparr>"
  let ?p = "saved (setRules ?f p)"
  let ?rest = "io_bind (applyBob ruled_services page_keys ''mint'') (\<lambda>_. showRuled ruled_services page_keys ''mint'')"
  have "payBob ruled_services page_keys ''mint'' 25000000 ''k'' (0, p) = (Inr (), (w1, ?p))"
    using assms(4,8) bob by (simp add: payBob_def rules_bind change_bind_save io_bind_def [of "transferOn A k m b a d" for A k m b a d])
  then have "step8 ruled_services (0, p) = ?rest (w1, ?p)"
    using assms by (simp add: step8_def io_bind_def [of "rulesMint A" for A] rulesMint_eq rules_mint_def ruled_parts page_browser_def
      get_bind typed_25 of_bind io_bind_def [of "auditorPubkey A" for A] auditor keys_bind rules_bind checkAvailable_def
      you ruled_balance io_bind_def [of "balanceOn A k s m" for A k s m] payMallory_def cleanUp_def
      io_bind_def [of "payBob A k m a d" for A k m a d])
  then show ?thesis by blast
qed

end
