(* ===== verification/Playground_Resume.thy ===== *)
theory Playground_Resume
  imports Playground_Concrete
begin

text \<open>
  Resuming a step of the playground: step 7 is shown equal to performing exactly the stages that are
  still missing, in order, whatever it was interrupted by before; steps 4 and 8 do not send what was
  saved as sent, and step 8 pays Bob only after a recorded refusal for Mallory.
\<close>

section \<open>The reference: perform the missing stages in order\<close>

definition stage_of :: "page \<Rightarrow> nat" where
  "stage_of p = (case st_rules (pg_state p) of None \<Rightarrow> 0 | Some c \<Rightarrow> c_stage c)"

text \<open>What the stages do, each on its own: the token is read again from what stage 1 stored.\<close>

definition keyed_task :: "('w, 'p) services \<Rightarrow> nat \<Rightarrow> keyring \<Rightarrow> address \<Rightarrow> ('w, unit) act" where
  "keyed_task A n keys mint =
     (if n = 3 then io_bind (configureOn A keys (kr_you keys) mint) (\<lambda>_. io_return ())
      else if n = 4 then io_bind (configureOn A keys (kr_bob keys) mint) (\<lambda>_. io_return ())
      else if n = 5 then io_bind (configureOn A keys (kr_mallory keys) mint) (\<lambda>_. io_return ())
      else if n = 6 then io_bind (mintRuled A keys mint) (\<lambda>_. io_return ())
      else if n = 7 then io_bind (depositOn A keys mint (100 * UNIT)) (\<lambda>_. io_return ())
      else io_bind (applyOn A keys (kr_you keys) mint) (\<lambda>_. io_return ()))"

definition stage_task :: "('w, 'p) services \<Rightarrow> nat \<Rightarrow> ('w, unit) act" where
  "stage_task A n =
     (if n = 1 then createRuledMint A
      else io_bind (rulesMint A) (\<lambda>mint.
        if n = 2 then installRules A mint
        else io_bind theKeys (\<lambda>keys. keyed_task A n keys mint)))"

definition mark :: "nat \<Rightarrow> page \<Rightarrow> page" where
  "mark n p = saved (setRules (\<lambda>c. c\<lparr>c_stage := n\<rparr>) p)"

definition perform :: "('w, 'p) services \<Rightarrow> nat \<Rightarrow> ('w, unit) act" where
  "perform A n = io_bind (stage_task A n) (\<lambda>_. change (mark n))"

fun perform_all :: "('w, 'p) services \<Rightarrow> nat list \<Rightarrow> ('w, unit) act" where
  "perform_all A [] = io_return ()"
| "perform_all A (n # ns) = io_bind (perform A n) (\<lambda>_. perform_all A ns)"

text \<open>What comes before the first stage and after the last one.\<close>

definition beforeStages :: "('w, 'p) services \<Rightarrow> ('w, unit) act" where
  "beforeStages A = io_bind (change (setState openRules)) (\<lambda>_. rentCheck A)"

definition afterStages :: "('w, 'p) services \<Rightarrow> ('w, unit) act" where
  "afterStages A =
     io_bind (rulesMint A) (\<lambda>mint.
     io_bind theKeys (\<lambda>keys.
     io_bind (balanceOn A keys (kr_you keys) mint) (\<lambda>conf.
     io_bind theRules (\<lambda>c.
     out 7 (Shown_Rules (c_mint c) (c_rulesTx c) (sg_address (kr_mallory keys)) conf)))))"

definition resumed :: "('w, 'p) services \<Rightarrow> nat \<Rightarrow> ('w, unit) act" where
  "resumed A s =
     io_bind (beforeStages A) (\<lambda>_. io_bind (perform_all A [Suc s..<9]) (\<lambda>_. afterStages A))"

section \<open>Stages\<close>

lemma mark_fields [simp]:
  "st_rules (pg_state (mark n p)) = map_option (\<lambda>c. c\<lparr>c_stage := n\<rparr>) (st_rules (pg_state p))"
  "pg_keys (mark n p) = pg_keys p"
  by (simp_all add: mark_def)

text \<open>A stage that is due performs its action and is marked; one that is not is skipped.\<close>

lemma stage_due:
  "st_rules (pg_state p) = Some c \<Longrightarrow> c_stage c < n \<Longrightarrow>
   stage n action (w, p) = io_bind action (\<lambda>_. change (mark n)) (w, p)"
proof -
  have "mark n = saved \<circ> setRules (\<lambda>c. c\<lparr>c_stage := n\<rparr>)" by (rule ext) (simp add: mark_def)
  then show "st_rules (pg_state p) = Some c \<Longrightarrow> c_stage c < n \<Longrightarrow> ?thesis"
    by (simp add: stage_def io_bind_def [of theRules] theRules_eq change_save)
qed

lemma stage_skip:
  "st_rules (pg_state p) = Some c \<Longrightarrow> n \<le> c_stage c \<Longrightarrow> stage n action (w, p) = (Inr (), (w, p))"
  by (simp add: stage_def io_bind_def theRules_eq)

section \<open>Step 7 performs what is missing\<close>

lemma createRuledMint_page:
  assumes "createRuledMint A (w, p) = (r, (w', p'))"
  shows "(isl r \<and> p' = p) \<or>
    (\<exists>sig m. r = Inr () \<and> p' = setRules (\<lambda>c. c\<lparr>c_createdTx := Some sig, c_mint := Some m\<rparr>) p)"
  using assms unfolding createRuledMint_def Let_def
  by (elim bind_keeps_localE) (auto simp: keeps_page_all keeps_local_basic elim!: bind_keeps_localE)

lemma installRules_page:
  assumes "installRules A mint (w, p) = (r, (w', p'))"
  shows "(isl r \<and> p' = p) \<or> (\<exists>sig. r = Inr () \<and> p' = setRules (\<lambda>c. c\<lparr>c_rulesTx := Some sig\<rparr>) p)"
  using assms unfolding installRules_def
  by (elim bind_keeps_localE) (auto simp: keeps_page_all keeps_local_basic elim!: bind_keeps_localE)

lemma keeps_page_keyed: "keeps_local (keyed_task A n keys mint)"
  unfolding keyed_task_def by (intro keeps_local_rules keeps_page_all)

lemma stage_ignore: "stage n (io_bind action (\<lambda>_. io_return ())) = stage n action"
  unfolding stage_def io_bind_assoc io_bind_return ..

definition keyed_all ::
  "('w, 'p) services \<Rightarrow> keyring \<Rightarrow> address \<Rightarrow> nat list \<Rightarrow> ('w, unit) act \<Rightarrow> ('w, unit) act" where
  "keyed_all A keys mint ns k =
     foldr (\<lambda>n m. io_bind (stage n (keyed_task A n keys mint)) (\<lambda>_. m)) ns k"

definition lastly :: "('w, 'p) services \<Rightarrow> keyring \<Rightarrow> address \<Rightarrow> ('w, unit) act" where
  "lastly A keys mint =
     io_bind (balanceOn A keys (kr_you keys) mint) (\<lambda>conf.
     io_bind theRules (\<lambda>c.
     out 7 (Shown_Rules (c_mint c) (c_rulesTx c) (sg_address (kr_mallory keys)) conf)))"

lemma step7_parts:
  "step7 A =
     io_bind (beforeStages A) (\<lambda>_.
     io_bind (stage 1 (createRuledMint A)) (\<lambda>_.
     io_bind (rulesMint A) (\<lambda>mint.
     io_bind (stage 2 (installRules A mint)) (\<lambda>_.
     io_bind theKeys (\<lambda>keys. keyed_all A keys mint [3..<9] (lastly A keys mint))))))"
proof -
  have ns: "[3..<9] = [3, 4, 5, 6, 7, 8 :: nat]" by (simp add: upt_rec)
  show ?thesis
    unfolding step7_def beforeStages_def lastly_def keyed_all_def ns io_bind_assoc
    by (simp add: keyed_task_def stage_ignore del: io_ret_simps)
qed

text \<open>The page of a run whose token and wallets are known.\<close>

definition at_stage :: "nat \<Rightarrow> page \<Rightarrow> bool" where
  "at_stage s p \<longleftrightarrow> (\<exists>c. st_rules (pg_state p) = Some c \<and> c_stage c = s)"

lemma mark_at: "at_stage s p \<Longrightarrow> at_stage n (mark n p)"
  by (auto simp: at_stage_def)

lemma mark_mint: "rules_mint A (mark n p) = rules_mint A p"
  by (simp add: rules_mint_def option.case_eq_if option.map_sel)

lemma perform_eq:
  assumes "stage_task A n (w, p) = m (w, p)" and "keeps_local m"
  shows "perform A n (w, p) =
    (case m (w, p) of (Inl e, x) \<Rightarrow> (Inl e, x) | (Inr _, (w1, _)) \<Rightarrow> (Inr (), (w1, mark n p)))"
  using assms by (auto simp: perform_def io_bind_def dest: keeps_localD split: prod.splits sum.splits)

lemma keyed_all_performs:
  assumes "3 \<le> lo" "lo \<le> Suc s" "s \<le> 8" "at_stage s p" "rules_mint A p = Inr mint" "pg_keys p = Some keys"
  shows "keyed_all A keys mint [lo..<9] (lastly A keys mint) (w, p) =
    io_bind (perform_all A [Suc s..<9]) (\<lambda>_. afterStages A) (w, p)"
  using assms
proof (induction "9 - lo" arbitrary: lo s w p)
  case 0
  then have "[lo..<9] = []" "[Suc s..<9] = []" "s = 8" by auto
  with 0 show ?case
    by (simp add: keyed_all_def lastly_def afterStages_def io_bind_def [of "rulesMint A"] rulesMint_eq
        io_bind_def [of theKeys] theKeys_eq del: io_ret_simps)
next
  case (Suc d)
  obtain c where c: "st_rules (pg_state p) = Some c" "c_stage c = s"
    using Suc.prems(4) by (auto simp: at_stage_def)
  have lo: "[lo..<9] = lo # [Suc lo..<9]" using Suc.hyps(2) by (simp add: upt_conv_Cons)
  have unfold: "keyed_all A keys mint [lo..<9] k =
      io_bind (stage lo (keyed_task A lo keys mint)) (\<lambda>_. keyed_all A keys mint [Suc lo..<9] k)" for k
    by (simp add: keyed_all_def lo)
  show ?case
  proof (cases "lo \<le> s")
    case True
    have "keyed_all A keys mint [Suc lo..<9] (lastly A keys mint) (w, p) =
        io_bind (perform_all A [Suc s..<9]) (\<lambda>_. afterStages A) (w, p)"
      by (rule Suc.hyps(1)) (use Suc.hyps(2) Suc.prems True in auto)
    then show ?thesis
      using stage_skip [OF c(1), of lo "keyed_task A lo keys mint"] c(2) True by (simp add: unfold io_bind_def [of "stage lo x" for x])
  next
    case False
    then have lo_s: "lo = Suc s" using Suc.prems(2) by simp
    let ?m = "keyed_task A lo keys mint"
    have task: "stage_task A lo (w, p) = ?m (w, p)"
      using Suc.prems(1,5,6)
      by (simp add: stage_task_def io_bind_def [of "rulesMint A"] rulesMint_eq io_bind_def [of theKeys] theKeys_eq)
    have due: "stage lo ?m (w, p) = perform A lo (w, p)"
      using stage_due [OF c(1), of lo ?m] c(2) lo_s task by (simp add: perform_def io_bind_def)
    have rhs: "[Suc s..<9] = lo # [Suc lo..<9]" using lo lo_s by simp
    show ?thesis
    proof -
      obtain x w1 p1 where run: "?m (w, p) = (x, (w1, p1))" by (metis surj_pair)
      have p1: "p1 = p" by (rule keeps_localD [OF keeps_page_keyed run])
      have "keyed_all A keys mint [Suc lo..<9] (lastly A keys mint) (w1, mark lo p) =
          io_bind (perform_all A [Suc lo..<9]) (\<lambda>_. afterStages A) (w1, mark lo p)"
        by (rule Suc.hyps(1)) (use Suc.hyps(2) Suc.prems mark_at [of s p lo] mark_mint [of A lo p] lo_s in auto)
      then show ?thesis
        using perform_eq [OF task keeps_page_keyed] due run p1
        by (cases x) (simp_all add: unfold rhs io_bind_assoc io_bind_def [of "stage lo z" for z]
            io_bind_def [of "perform A lo"] del: io_ret_simps)
    qed
  qed
qed

lemma after_stage2:
  assumes "2 \<le> s" "s \<le> 8" "at_stage s p" "rules_mint A p = Inr mint"
  shows "io_bind theKeys (\<lambda>keys. keyed_all A keys mint [3..<9] (lastly A keys mint)) (w, p) =
    io_bind (perform_all A [Suc s..<9]) (\<lambda>_. afterStages A) (w, p)"
proof (cases "pg_keys p")
  case (Some keys)
  have "keyed_all A keys mint [3..<9] (lastly A keys mint) (w, p) =
      io_bind (perform_all A [Suc s..<9]) (\<lambda>_. afterStages A) (w, p)"
    by (rule keyed_all_performs) (use assms Some in auto)
  with Some show ?thesis by (simp add: io_bind_def [of theKeys] theKeys_eq)
next
  case None
  have task: "stage_task A n (w, p) = (Inl undefined_property, (w, p))" if "3 \<le> n" for n
    using that assms(4) None
    by (simp add: stage_task_def io_bind_def [of "rulesMint A"] rulesMint_eq io_bind_def [of theKeys] theKeys_eq)
  show ?thesis
  proof (cases "s = 8")
    case True
    with None assms(4) show ?thesis
      by (simp add: afterStages_def io_bind_def [of "rulesMint A"] rulesMint_eq io_bind_def [of theKeys] theKeys_eq)
  next
    case False
    then have "[Suc s..<9] = Suc s # [Suc (Suc s)..<9]" using assms(2) by (simp add: upt_conv_Cons)
    then show ?thesis
      using task [of "Suc s"] assms(1) None
      by (simp add: perform_def io_bind_assoc io_bind_def [of theKeys] theKeys_eq
          io_bind_def [of "stage_task A n" for n] del: io_ret_simps)
  qed
qed

lemma after_stage1:
  assumes "1 \<le> s" "s \<le> 8" "at_stage s p"
  shows "io_bind (rulesMint A) (\<lambda>mint. io_bind (stage 2 (installRules A mint)) (\<lambda>_.
      io_bind theKeys (\<lambda>keys. keyed_all A keys mint [3..<9] (lastly A keys mint)))) (w, p) =
    io_bind (perform_all A [Suc s..<9]) (\<lambda>_. afterStages A) (w, p)"
proof -
  obtain c where c: "st_rules (pg_state p) = Some c" "c_stage c = s"
    using assms(3) by (auto simp: at_stage_def)
  let ?rest = "\<lambda>mint. io_bind theKeys (\<lambda>keys. keyed_all A keys mint [3..<9] (lastly A keys mint))"
  show ?thesis
  proof (cases "rules_mint A p")
    case (Inl e)
    have task: "stage_task A n (w, p) = (Inl e, (w, p))" if "2 \<le> n" for n
      using that Inl by (simp add: stage_task_def io_bind_def [of "rulesMint A"] rulesMint_eq)
    have "io_bind (perform_all A [Suc s..<9]) (\<lambda>_. afterStages A) (w, p) = (Inl e, (w, p))"
    proof (cases "s = 8")
      case True
      with Inl show ?thesis by (simp add: afterStages_def io_bind_def [of "rulesMint A"] rulesMint_eq)
    next
      case False
      then have "[Suc s..<9] = Suc s # [Suc (Suc s)..<9]" using assms(2) by (simp add: upt_conv_Cons)
      then show ?thesis
        using task [of "Suc s"] assms(1)
        by (simp add: perform_def io_bind_assoc io_bind_def [of "stage_task A n" for n] del: io_ret_simps)
    qed
    then show ?thesis using Inl by (simp add: io_bind_def [of "rulesMint A"] rulesMint_eq)
  next
    case (Inr mint)
    show ?thesis
    proof (cases "2 \<le> s")
      case True
      then have "io_bind (stage 2 (installRules A mint)) (\<lambda>_. ?rest mint) (w, p) = ?rest mint (w, p)"
        using stage_skip [OF c(1), of 2 "installRules A mint"] c(2)
        by (simp add: io_bind_def [of "stage n x" for n x])
      then show ?thesis
        using after_stage2 [OF True assms(2,3) Inr] Inr by (simp add: io_bind_def [of "rulesMint A"] rulesMint_eq)
    next
      case False
      then have s: "s = 1" using assms(1) by simp
      have ns: "[Suc s..<9] = 2 # [Suc 2..<9]" using s by (simp add: upt_rec)
      obtain r w1 p1 where run: "installRules A mint (w, p) = (r, (w1, p1))" by (metis surj_pair)
      have due: "stage 2 (installRules A mint) (w, p) = perform A 2 (w, p)"
        using stage_due [OF c(1), of 2 "installRules A mint"] c(2) s Inr
        by (simp add: perform_def stage_task_def io_bind_assoc io_bind_def rulesMint_eq)
      have task: "stage_task A 2 (w, p) = (r, (w1, p1))"
        using Inr run by (simp add: stage_task_def io_bind_def rulesMint_eq)
      show ?thesis
      proof (cases r)
        case (Inl e)
        then show ?thesis
          using due task Inr
          by (simp add: ns io_bind_assoc io_bind_def [of "rulesMint A"] rulesMint_eq io_bind_def [of "stage 2 x" for x]
              io_bind_def [of "perform A 2"] perform_def io_bind_def [of "stage_task A 2"] del: io_ret_simps)
      next
        case r: (Inr u)
        then obtain sig where p1: "p1 = setRules (\<lambda>c. c\<lparr>c_rulesTx := Some sig\<rparr>) p"
          using installRules_page [OF run] by auto
        have at: "at_stage 2 (mark 2 p1)" using c(1) by (simp add: at_stage_def p1)
        have mint: "rules_mint A (mark 2 p1) = Inr mint"
          using Inr c(1) by (simp add: rules_mint_def p1)
        have done2: "perform A 2 (w, p) = (Inr (), (w1, mark 2 p1))"
          using task r by (simp add: perform_def io_bind_def)
        show ?thesis
          using due done2 after_stage2 [OF _ _ at mint, of w1] Inr
          by (simp add: ns io_bind_assoc io_bind_def [of "rulesMint A"] rulesMint_eq io_bind_def [of "stage 2 x" for x]
              io_bind_def [of "perform A 2"] del: io_ret_simps)
      qed
    qed
  qed
qed

lemma stages_resumed:
  assumes "at_stage s p" "s \<le> 8"
  shows "io_bind (stage 1 (createRuledMint A)) (\<lambda>_.
      io_bind (rulesMint A) (\<lambda>mint. io_bind (stage 2 (installRules A mint)) (\<lambda>_.
      io_bind theKeys (\<lambda>keys. keyed_all A keys mint [3..<9] (lastly A keys mint))))) (w, p) =
    io_bind (perform_all A [Suc s..<9]) (\<lambda>_. afterStages A) (w, p)"
proof -
  obtain c where c: "st_rules (pg_state p) = Some c" "c_stage c = s"
    using assms(1) by (auto simp: at_stage_def)
  show ?thesis
  proof (cases "1 \<le> s")
    case True
    then show ?thesis
      using stage_skip [OF c(1), of 1 "createRuledMint A"] c(2) after_stage1 [OF True assms(2,1)]
      by (simp add: io_bind_def [of "stage n x" for n x])
  next
    case False
    then have s: "s = 0" by simp
    have ns: "[Suc s..<9] = 1 # [Suc 1..<9]" using s by (simp add: upt_rec)
    obtain r w1 p1 where run: "createRuledMint A (w, p) = (r, (w1, p1))" by (metis surj_pair)
    have due: "stage 1 (createRuledMint A) (w, p) = perform A 1 (w, p)"
      using stage_due [OF c(1), of 1 "createRuledMint A"] c(2) s
      by (simp add: perform_def stage_task_def)
    show ?thesis
    proof (cases r)
      case (Inl e)
      then show ?thesis
        using due run
        by (simp add: ns io_bind_assoc io_bind_def [of "stage 1 x" for x] perform_def stage_task_def
            io_bind_def [of "createRuledMint A"] del: io_ret_simps)
    next
      case r: (Inr u)
      then obtain sig m where p1: "p1 = setRules (\<lambda>c. c\<lparr>c_createdTx := Some sig, c_mint := Some m\<rparr>) p"
        using createRuledMint_page [OF run] by auto
      have at: "at_stage 1 (mark 1 p1)" using c(1) by (simp add: at_stage_def p1)
      have done1: "perform A 1 (w, p) = (Inr (), (w1, mark 1 p1))"
        using run r by (simp add: perform_def stage_task_def io_bind_def)
      show ?thesis
        using due done1 after_stage1 [OF _ _ at, of A w1]
        by (simp add: ns io_bind_assoc io_bind_def [of "stage 1 x" for x] io_bind_def [of "perform A 1"]
            del: io_ret_simps)
    qed
  qed
qed

lemma rentCheck_page: "rentCheck A (w, p) = (r, (w', p')) \<Longrightarrow> p' = p"
  by (rule keeps_localD [OF keeps_page_parts(4)])

lemma beforeStages_page:
  "beforeStages A (w, p) = (r, (w', p')) \<Longrightarrow> p' = setState openRules p"
  by (auto simp: beforeStages_def io_bind_def dest: rentCheck_page)

lemma opened_at: "at_stage (stage_of p) (setState openRules p)"
  by (auto simp: at_stage_def stage_of_def openRules_def new_rules_def split: option.split)

text \<open>The guarded code is the reference: what a run of step 7 does is the missing stages.\<close>

lemma step7_resumed:
  assumes "stage_of p \<le> 8"
  shows "step7 A (w, p) = resumed A (stage_of p) (w, p)"
proof -
  obtain r w1 p1 where b: "beforeStages A (w, p) = (r, (w1, p1))" by (metis surj_pair)
  have "p1 = setState openRules p" by (rule beforeStages_page [OF b])
  then have "at_stage (stage_of p) p1" using opened_at by simp
  from stages_resumed [OF this assms, of A w1] b show ?thesis
    unfolding step7_parts resumed_def by (cases r) (simp_all only: io_bind_Inl io_bind_Inr)
qed

section \<open>What a try that fails leaves behind\<close>

lemma at_stage_of: "at_stage s p \<Longrightarrow> stage_of p = s"
  by (auto simp: at_stage_def stage_of_def)

lemma stage_task_page:
  assumes "stage_task A n (w, p) = (r, (w', p'))" and "at_stage s p"
  shows "at_stage s p'"
proof -
  have set_rules: "at_stage s (setRules f p)" if "\<And>c. c_stage (f c) = c_stage c" for f
    using assms(2) that by (auto simp: at_stage_def)
  show ?thesis
  proof (cases "n = 1")
    case True
    then have "createRuledMint A (w, p) = (r, (w', p'))" using assms(1) by (simp add: stage_task_def)
    from createRuledMint_page [OF this] show ?thesis using assms(2) set_rules by auto
  next
    case False
    then show ?thesis using assms
      by (auto simp: stage_task_def io_bind_def rulesMint_eq theKeys_eq dest!: installRules_page
          keeps_localD [OF keeps_page_keyed] intro: set_rules split: sum.splits if_splits option.splits)
  qed
qed

lemma perform_page:
  assumes "perform A n (w, p) = (r, (w', p'))" and "at_stage s p"
  shows "case r of Inl _ \<Rightarrow> at_stage s p' | Inr _ \<Rightarrow> at_stage n p'"
proof -
  obtain x w1 p1 where t: "stage_task A n (w, p) = (x, (w1, p1))" by (metis surj_pair)
  have "at_stage s p1" by (rule stage_task_page [OF t assms(2)])
  then show ?thesis
    using assms(1) t mark_at by (cases x) (auto simp: perform_def io_bind_def)
qed

text \<open>
  Performing stages \<open>s + 1\<close> to 8 in order stops at some stage \<open>t\<close>: everything up to \<open>t\<close> returned, one
  after the other, the page says \<open>t\<close>, and unless \<open>t\<close> is 8 the next stage threw.
\<close>

lemma perform_all_stops:
  assumes "at_stage s p" "s \<le> 8" "perform_all A [Suc s..<9] (w, p) = (r, (w', p'))"
  shows "\<exists>t w1 p1. s \<le> t \<and> t \<le> 8 \<and> at_stage t p' \<and> at_stage t p1 \<and>
    perform_all A [Suc s..<Suc t] (w, p) = (Inr (), (w1, p1)) \<and>
    (case r of Inr _ \<Rightarrow> t = 8 \<and> (w1, p1) = (w', p')
     | Inl e \<Rightarrow> t < 8 \<and> perform A (Suc t) (w1, p1) = (Inl e, (w', p')))"
  using assms
proof (induction "8 - s" arbitrary: s w p)
  case 0
  then have s: "s = 8" by simp
  with 0 have "r = Inr ()" "w' = w" "p' = p" by simp_all
  with 0 s show ?case by (intro exI [of _ 8]) simp
next
  case (Suc d)
  have ns: "[Suc s..<9] = Suc s # [Suc (Suc s)..<9]" using Suc.hyps(2) by (simp add: upt_conv_Cons)
  have less: "s < 8" using Suc.hyps(2) by simp
  obtain x w2 p2 where x: "perform A (Suc s) (w, p) = (x, (w2, p2))" by (metis surj_pair)
  note page = perform_page [OF x Suc.prems(1)]
  show ?case
  proof (cases x)
    case (Inl e)
    then have "r = Inl e" "w' = w2" "p' = p2" using Suc.prems(3) x by (simp_all add: ns)
    then show ?thesis
      using Inl x page Suc.prems(1) less
      by (intro exI [of _ s] exI [of _ w] exI [of _ p]) simp
  next
    case (Inr u)
    have rest: "perform_all A [Suc (Suc s)..<9] (w2, p2) = (r, (w', p'))"
      using Suc.prems(3) x Inr by (simp add: ns)
    have at: "at_stage (Suc s) p2" using page Inr by simp
    have d: "d = 8 - Suc s" using Suc.hyps(2) by simp
    obtain t w1 p1 where t: "Suc s \<le> t" "t \<le> 8" "at_stage t p'" "at_stage t p1"
        "perform_all A [Suc (Suc s)..<Suc t] (w2, p2) = (Inr (), (w1, p1))"
        "case r of Inr _ \<Rightarrow> t = 8 \<and> (w1, p1) = (w', p')
          | Inl e \<Rightarrow> t < 8 \<and> perform A (Suc t) (w1, p1) = (Inl e, (w', p'))"
      using Suc.hyps(1) [OF d at Suc_leI [OF less] rest] by blast
    have "[Suc s..<Suc t] = Suc s # [Suc (Suc s)..<Suc t]" using t(1) by (simp add: upt_conv_Cons)
    then have "perform_all A [Suc s..<Suc t] (w, p) = (Inr (), (w1, p1))" using x Inr t(5) by simp
    then show ?thesis using t by (intro exI [of _ t] exI [of _ w1] exI [of _ p1]) simp
  qed
qed

lemma step7_run:
  assumes "stage_of p \<le> 8" and "step7 A (w, p) = (r, (w', p'))"
  shows "step7 A (w, p) = resumed A (stage_of p) (w, p) \<and>
    stage_of p \<le> stage_of p' \<and> stage_of p' \<le> 8 \<and> (isl r \<or> stage_of p' = 8) \<and>
    (stage_of p' = stage_of p \<or>
     io_yields (io_bind (beforeStages A) (\<lambda>_. perform_all A [Suc (stage_of p)..<Suc (stage_of p')])) (w, p)
       (\<lambda>_ z. stage_of (snd z) = stage_of p'))"
proof -
  let ?s = "stage_of p"
  obtain b w1 p1 where b: "beforeStages A (w, p) = (b, (w1, p1))" by (metis surj_pair)
  have p1: "p1 = setState openRules p" by (rule beforeStages_page [OF b])
  have run: "resumed A ?s (w, p) = (r, (w', p'))" using step7_resumed [OF assms(1)] assms(2) by metis
  have at: "at_stage ?s p1" unfolding p1 by (rule opened_at)
  show ?thesis
  proof (cases b)
    case (Inl e)
    then have "r = Inl e" "p' = p1" using run b by (simp_all add: resumed_def)
    then show ?thesis using step7_resumed [OF assms(1)] at_stage_of [OF at] assms(1) by simp
  next
    case (Inr u)
    obtain x w2 p2 where x: "perform_all A [Suc ?s..<9] (w1, p1) = (x, (w2, p2))" by (metis surj_pair)
    obtain t w3 p3 where t: "?s \<le> t" "t \<le> 8" "at_stage t p2" "at_stage t p3"
        "perform_all A [Suc ?s..<Suc t] (w1, p1) = (Inr (), (w3, p3))"
        "case x of Inr _ \<Rightarrow> t = 8 \<and> (w3, p3) = (w2, p2)
          | Inl e \<Rightarrow> t < 8 \<and> perform A (Suc t) (w3, p3) = (Inl e, (w2, p2))"
      using perform_all_stops [OF at assms(1) x] by blast
    have ended: "stage_of p' = t \<and> (isl r \<or> t = 8)"
    proof (cases x)
      case (Inl e)
      then have "r = Inl e" "p' = p2" using run b Inr x by (simp_all add: resumed_def)
      then show ?thesis using at_stage_of [OF t(3)] by simp
    next
      case Inr2: (Inr v)
      then have fin: "afterStages A (w2, p2) = (r, (w', p'))"
        using run b Inr x by (simp add: resumed_def)
      have "at_stage t p'" using fin t(3)
        by (auto simp: afterStages_def io_bind_def rulesMint_eq theKeys_eq theRules_eq out_def at_stage_def
            dest!: keeps_localD [OF keeps_page_local_calls(1)] split: sum.splits prod.splits option.splits)
      then show ?thesis using at_stage_of t(6) Inr2 by auto
    qed
    have "io_yields (io_bind (beforeStages A) (\<lambda>_. perform_all A [Suc ?s..<Suc t])) (w, p)
        (\<lambda>_ z. stage_of (snd z) = t)"
      using b Inr t(5) at_stage_of [OF t(4)] by (simp add: io_yields_def)
    then show ?thesis using step7_resumed [OF assms(1)] ended t(1,2) by metis
  qed
qed

text \<open>C34: Step 7 resumes where it stopped. Whatever its stage is, a run does exactly the missing
  stages: either nothing beyond the rent check, or, from the page as it was, stages \<open>s + 1\<close> to \<open>t\<close>, each
  once and in this order, where \<open>t\<close> is the stage the page has afterwards; it returns only when the last
  of the eight was done, and an error leaves the page at the last stage that was done.\<close>

theorem step7_resumes:
  assumes "stage_of p \<le> 8" and "step7 A (w, p) = (r, (w', p'))"
  shows "step7 A (w, p) = resumed A (stage_of p) (w, p) \<and>
    stage_of p \<le> stage_of p' \<and> stage_of p' \<le> 8 \<and> (isl r \<or> stage_of p' = 8) \<and>
    (stage_of p' = stage_of p \<or>
     io_yields (io_bind (beforeStages A) (\<lambda>_. perform_all A [Suc (stage_of p)..<Suc (stage_of p')])) (w, p)
       (\<lambda>_ z. stage_of (snd z) = stage_of p'))"
  by (rule step7_run [OF assms])

section \<open>A stage that landed but was not saved\<close>

definition stage_owner :: "keyring \<Rightarrow> nat \<Rightarrow> signer" where
  "stage_owner keys n = (if n = 3 then kr_you keys else if n = 4 then kr_bob keys else kr_mallory keys)"

lemma configureOn_refused:
  assumes "ataOn A mint (sg_address owner) = Inr t"
    and "rpc_fetchMaybeToken (sv_rpc A) t w = (Inr (Some d), w1)" and "confidentialState d = Some ct"
  shows "\<exists>e. configureOn A keys owner mint (w, p) = (Inl e, (w1, p)) \<and>
     refused_with ACCOUNT_ALREADY_CONFIGURED ''configureAccount'' e"
proof -
  let ?input = "operation_input.extend (sdkInput A keys owner mint) (configure_input.fields None)"
  have "kit_findAssociatedTokenPda (sv_kit A) (sg_address (in_owner ?input)) (programOf ?input)
      (in_mint ?input) = Inr t"
    using assms(1) by (simp add: sdkInput_def programOf_def ataOn_def operation_input.defs)
  moreover have "rpc_fetchMaybeToken (in_rpc ?input) t w = (Inr (Some d), w1)"
    using assms(2) by (simp add: sdkInput_def operation_input.defs)
  ultimately obtain e where "configureAccount (sv_kit A) (sv_zk A) ?input w = (Inl e, w1)"
      "refused_with ACCOUNT_ALREADY_CONFIGURED ''configureAccount'' e"
    using configure_refused_when_configured [OF _ _ assms(3), where Z = "sv_zk A"] by blast
  then show ?thesis by (simp add: configureOn_def)
qed

lemma openRules_open: "st_rules (pg_state p) = Some c \<Longrightarrow> setState openRules p = p"
  by (simp add: setState_def openRules_def)

text \<open>C38: A stage that landed without being saved stops step 7 for good. When the page is at stage 2,
  3 or 4 and the account the next stage configures is configured on the chain already (the
  transaction landed, but the page was closed or the confirmation failed before the stage was
  stored), every run throws ACCOUNT\_ALREADY\_CONFIGURED after one read and leaves the page as it is,
  so pressing the button again never helps.\<close>

theorem unsaved_stage_blocks_step7:
  assumes "st_rules (pg_state p) = Some c" and "c_stage c \<in> {2, 3, 4}"
    and "br_address (sv_browser A) (c_mint c) = Inr mint" and "pg_keys p = Some keys"
    and "ataOn A mint (sg_address (stage_owner keys (Suc (c_stage c)))) = Inr t"
    and "rpc_fetchMaybeToken (sv_rpc A) t w = (Inr (Some d), w')" and "confidentialState d = Some ct"
  shows "\<exists>e. step7 A (w, p) = (Inl e, (w', p)) \<and>
     refused_with ACCOUNT_ALREADY_CONFIGURED ''configureAccount'' e"
proof -
  let ?n = "Suc (c_stage c)"
  obtain e where e: "configureOn A keys (stage_owner keys ?n) mint (w, p) = (Inl e, (w', p))"
      "refused_with ACCOUNT_ALREADY_CONFIGURED ''configureAccount'' e"
    using configureOn_refused [OF assms(5-7)] by blast
  have s: "stage_of p = c_stage c" using assms(1) by (simp add: stage_of_def)
  have "beforeStages A (w, p) = (Inr (), (w, p))"
    using assms(1,2) openRules_open [OF assms(1)]
    by (auto simp: beforeStages_def rentCheck_def io_bind_def theRules_eq)
  moreover have "[?n..<9] = ?n # [Suc ?n..<9]" using assms(2) by (auto simp: upt_conv_Cons)
  moreover have "stage_task A ?n (w, p) = (Inl e, (w', p))"
    using e(1) assms(1-4)
    by (auto simp: stage_task_def keyed_task_def stage_owner_def io_bind_def rulesMint_eq rules_mint_def
        theKeys_eq)
  ultimately have "resumed A (stage_of p) (w, p) = (Inl e, (w', p))"
    unfolding s by (simp add: resumed_def perform_def io_bind_def [of "stage_task A n" for n] io_bind_assoc
        del: io_ret_simps)
  then show ?thesis using step7_resumed [of p A w] s assms(2) e(2) by auto
qed

section \<open>Step 4, resumed\<close>

lemma step4_skips:
  assumes "\<not> unsent (st_sent (pg_state p))" and "st_bobMint (pg_state p) = st_mint (pg_state p)"
  shows "checkAvailable balance suffix amount (st_sent (pg_state p)) = io_return ()"
    "configureBob A keys (w, p) = (Inr (), (w, p))" "transferToBob A keys amount (w, p) = (Inr (), (w, p))"
  using assms by (simp_all add: checkAvailable_def configureBob_def transferToBob_def get_bind)

lemma apply_then_show:
  "io_bind (applyOn A keys s mint) (\<lambda>_. io_bind io_get (\<lambda>p. out n (g p))) (w, p) =
   io_bind (applyOn A keys s mint) (\<lambda>_. out n (g p)) (w, p)"
proof -
  obtain r w1 p1 where run: "applyOn A keys s mint (w, p) = (r, (w1, p1))" by (metis surj_pair)
  have "p1 = p" by (rule keeps_localD [OF keeps_page_local_calls(4) run])
  then show ?thesis using run by (cases r) (simp_all add: get_bind)
qed

text \<open>A retry of step 4 sends nothing twice. Once the transfer is saved as sent and Bob's account
  on this token as configured, step 4 is the check of the amount typed, Bob's applying, and showing
  the saved signatures: it configures nothing and transfers nothing.\<close>

theorem step4_sends_once:
  assumes "\<not> unsent (st_sent (pg_state p))" and "st_bobMint (pg_state p) = st_mint (pg_state p)"
  shows "step4 A (w, p) =
    io_bind (io_of (typedAmount (pg_amount p))) (\<lambda>_. io_bind theKeys (\<lambda>keys. io_bind (stateMint A) (\<lambda>mint.
      io_bind (applyOn A keys (kr_bob keys) mint) (\<lambda>_.
      out 4 (Shown_Transfer (st_signatures (pg_state p))))))) (w, p)"
proof (cases "typedAmount (pg_amount p)")
  case (Inl e)
  then show ?thesis by (simp add: step4_def get_bind io_bind_def [of "Pair (Inl e)"])
next
  case amount: (Inr amount)
  show ?thesis
  proof (cases "pg_keys p")
    case None
    then show ?thesis
      by (simp add: step4_def get_bind amount of_bind io_bind_def [of theKeys] theKeys_eq del: io_ret_simps)
  next
    case (Some keys)
    then show ?thesis
      by (cases "br_address (sv_browser A) (st_mint (pg_state p))")
        (simp_all add: step4_skips [OF assms] step4_def get_bind amount of_bind keys_bind apply_then_show
          io_bind_def [of "configureBob A keys"] io_bind_def [of "transferToBob A keys amount"]
          io_bind_def [of "stateMint A"] stateMint_eq del: io_ret_simps(3))
  qed
qed

section \<open>Step 8: Bob after Mallory\<close>

definition refused_by :: "('w, 'p) services \<Rightarrow> keyring \<Rightarrow> address \<Rightarrow> int \<Rightarrow> address \<Rightarrow> page \<Rightarrow> string \<times> string \<Rightarrow> bool"
where
  "refused_by A keys mint amount auditor p why \<longleftrightarrow>
     (\<exists>w err w'. transferOn A keys mint (kr_mallory keys) amount auditor (w, p) = (Inl err, (w', p)) \<and>
       refusal (sv_browser A) err = Some why)"

lemma payMallory_page:
  assumes "st_rules (pg_state p) = Some c" and "payMallory A keys mint amount auditor (w, p) = (r, (w', p'))"
  shows "(p' = p \<and> (isl r \<or> c_refused c \<noteq> None)) \<or>
    (\<exists>why. r = Inr () \<and> c_refused c = None \<and> refused_by A keys mint amount auditor p why \<and>
       p' = saved (setRules (\<lambda>c. c\<lparr>c_refused := Some why\<rparr>) p))"
proof (cases "c_refused c = None")
  case False
  then show ?thesis using assms by (auto simp: payMallory_def rules_bind)
next
  case True
  obtain x w1 p1 where t: "transferOn A keys mint (kr_mallory keys) amount auditor (w, p) = (x, (w1, p1))"
    by (metis surj_pair)
  have p1: "p1 = p" by (rule keeps_localD [OF keeps_page_local_calls(5) t])
  show ?thesis
  proof (cases x)
    case (Inr v)
    then show ?thesis using assms True t p1 by (auto simp: payMallory_def rules_bind)
  next
    case (Inl err)
    show ?thesis
    proof (cases "refusal (sv_browser A) err")
      case None
      then show ?thesis using assms True t p1 Inl by (auto simp: payMallory_def rules_bind)
    next
      case (Some why)
      then have "refused_by A keys mint amount auditor p why"
        using t p1 Inl unfolding refused_by_def by blast
      moreover have "r = Inr ()" "p' = saved (setRules (\<lambda>c. c\<lparr>c_refused := Some why\<rparr>) p)"
        using assms True t p1 Inl Some by (auto simp: payMallory_def rules_bind change_bind_save)
      ultimately show ?thesis using True by blast
    qed
  qed
qed

lemma cleanUp_page:
  assumes "st_rules (pg_state p) = Some c" and "cleanUp A (w, p) = (r, (w', p'))"
  shows "r = Inr () \<and> ((p' = p \<and> c_cleaned c) \<or>
    (\<exists>n. p' = saved (setRules (\<lambda>c. c\<lparr>c_closed := Some n, c_cleaned := True\<rparr>) p)))"
proof (cases "c_cleaned c")
  case True
  then show ?thesis using assms by (simp add: cleanUp_def rules_bind)
next
  case False
  obtain x w1 p1 where t: "closeLeftoverProofs A (w, p) = (x, (w1, p1))" by (metis surj_pair)
  have p1: "p1 = p" by (rule keeps_localD [OF keeps_page_parts(1) t])
  show ?thesis using assms False t p1
    by (cases x) (auto simp: cleanUp_def rules_bind change_bind_save
        io_bind_def [of "io_try (closeLeftoverProofs A) f h" for f h])
qed

lemma payBob_page:
  assumes "st_rules (pg_state p) = Some c" and "payBob A keys mint amount auditor (w, p) = (r, (w', p'))"
  shows "(p' = p \<and> (isl r \<or> \<not> unsent (c_sent c))) \<or>
    (\<exists>w1 result w2. r = Inr () \<and> unsent (c_sent c) \<and>
       transferOn A keys mint (kr_bob keys) amount auditor (w1, p) = (Inr result, (w2, p)) \<and>
       p' = saved (setRules (\<lambda>c. c\<lparr>c_signatures := fr_signatures (to_flow result),
         c_sent := Some (show_int amount)\<rparr>) p))"
proof (cases "unsent (c_sent c)")
  case False
  then show ?thesis using assms by (simp add: payBob_def rules_bind)
next
  case True
  obtain x w1 p1 where t: "transferOn A keys mint (kr_bob keys) amount auditor (w, p) = (x, (w1, p1))"
    by (metis surj_pair)
  have p1: "p1 = p" by (rule keeps_localD [OF keeps_page_local_calls(5) t])
  show ?thesis using assms True t p1
    by (cases x) (auto simp: payBob_def rules_bind change_bind_save)
qed

lemma applyBob_page:
  assumes "st_rules (pg_state p) = Some c" and "applyBob A keys mint (w, p) = (r, (w', p'))"
  shows "(p' = p \<and> (isl r \<or> c_applied c)) \<or>
    (r = Inr () \<and> p' = saved (setRules (\<lambda>c. c\<lparr>c_applied := True\<rparr>) p))"
proof (cases "c_applied c")
  case True
  then show ?thesis using assms by (simp add: applyBob_def rules_bind)
next
  case False
  obtain x w1 p1 where t: "applyOn A keys (kr_bob keys) mint (w, p) = (x, (w1, p1))" by (metis surj_pair)
  have p1: "p1 = p" by (rule keeps_localD [OF keeps_page_local_calls(4) t])
  show ?thesis using assms False t p1
    by (cases x) (auto simp: applyBob_def rules_bind change_bind_save)
qed

lemma showRuled_page:
  assumes "showRuled A keys mint (w, p) = (r, (w', p'))"
  shows "pg_state p' = pg_state p"
  using assms unfolding showRuled_def
  by (elim bind_keeps_localE) (auto simp: keeps_page_all out_def elim!: bind_keeps_localE split: option.splits)

definition step8_body ::
  "('w, 'p) services \<Rightarrow> keyring \<Rightarrow> address \<Rightarrow> int \<Rightarrow> address \<Rightarrow> ('w, unit) act" where
  "step8_body A keys mint amount auditor =
     io_bind (payMallory A keys mint amount auditor) (\<lambda>_.
     io_bind (cleanUp A) (\<lambda>_.
     io_bind (payBob A keys mint amount auditor) (\<lambda>_.
     io_bind (applyBob A keys mint) (\<lambda>_.
     showRuled A keys mint))))"

lemma step8_starts:
  assumes "step8 A (w, p) = (r, (w', p'))"
  shows "p' = p \<or> (\<exists>keys mint amount auditor w1. pg_keys p = Some keys \<and> rules_mint A p = Inr mint \<and>
    typedAmount (pg_amount2 p) = Inr amount \<and>
    step8_body A keys mint amount auditor (w1, p) = (r, (w', p')))"
proof -
  have check: "keeps_local (checkAvailable (balanceOn A keys s mint) suffix amount sent)" for keys s mint suffix amount sent
    by (rule keeps_page_check [OF keeps_page_local_calls(1)])
  have known: "rulesMint A (w1, p) = (Inr mint, (w2, p)) \<Longrightarrow> rules_mint A p = Inr mint"
      "theKeys (w1, p) = (Inr keys, (w2, p)) \<Longrightarrow> pg_keys p = Some keys"
      "io_get (w1, p) = (Inr q, (w2, p)) \<Longrightarrow> q = p"
      "io_of (typedAmount (pg_amount2 p)) (w1, p) = (Inr amount, (w2, p)) \<Longrightarrow>
        typedAmount (pg_amount2 p) = Inr amount"
    for mint keys amount q and w1 w2 :: 'a
    by (auto simp: rulesMint_eq theKeys_eq io_get_def split: option.splits)
  show ?thesis
    using assms unfolding step8_def step8_body_def [symmetric]
    by (elim bind_keeps_localE)
      (auto simp: check keeps_page_reads keeps_local_basic del: io_ret_simps dest!: known elim!: bind_keeps_localE)
qed

text \<open>The end of a body after the payment to Bob leaves the saved payment alone.\<close>

lemma after_payBob_page:
  assumes "io_bind (applyBob A keys mint) (\<lambda>_. showRuled A keys mint) (w, p) = (r, (w', p'))"
    and "st_rules (pg_state p) = Some c"
  shows "\<exists>c'. st_rules (pg_state p') = Some c' \<and> c_refused c' = c_refused c \<and> c_cleaned c' = c_cleaned c \<and>
    c_sent c' = c_sent c \<and> c_signatures c' = c_signatures c \<and> c_stage c' = c_stage c \<and> c_mint c' = c_mint c \<and>
    (isl r \<or> c_applied c')"
proof -
  obtain x w1 p1 where x: "applyBob A keys mint (w, p) = (x, (w1, p1))" by (metis surj_pair)
  note page = applyBob_page [OF assms(2) x]
  show ?thesis
  proof (cases x)
    case (Inl e)
    then have "p' = p1" "r = Inl e" using assms(1) x by simp_all
    then show ?thesis using page Inl assms(2) by auto
  next
    case (Inr u)
    then have "pg_state p' = pg_state p1" using assms(1) x showRuled_page by fastforce
    then show ?thesis using page Inr assms(2) by auto
  qed
qed

lemma cleaned_rules:
  assumes "cleanUp A (w, p) = (r, (w', p'))" and "st_rules (pg_state p) = Some c"
  shows "\<exists>c'. st_rules (pg_state p') = Some c' \<and> c_cleaned c' \<and> c_refused c' = c_refused c \<and> c_sent c' = c_sent c \<and>
    c_stage c' = c_stage c \<and> c_mint c' = c_mint c \<and> r = Inr ()"
  using cleanUp_page [OF assms(2,1)] assms(2) by auto


lemma step8_done:
  assumes "step8 A (w, p) = (Inr (), (w', p'))" and "st_rules (pg_state p) = Some c"
  shows "\<exists>c'. st_rules (pg_state p') = Some c' \<and> c_stage c' = c_stage c \<and> c_refused c' \<noteq> None \<and>
    c_cleaned c' \<and> \<not> unsent (c_sent c') \<and> c_applied c'"
proof -
  have check: "keeps_local (checkAvailable (balanceOn A keys s mint) suffix amount sent)" for keys s mint suffix amount sent
    by (rule keeps_page_check [OF keeps_page_local_calls(1)])
  obtain keys mint amount auditor w1 where body: "step8_body A keys mint amount auditor (w1, p) = (Inr (), (w', p'))"
    using assms(1) unfolding step8_def step8_body_def [symmetric]
    by (elim bind_keeps_localE) (auto simp: check keeps_page_reads keeps_local_basic elim!: bind_keeps_localE)
  obtain w2 p2 w3 p3 w4 p4 where run: "payMallory A keys mint amount auditor (w1, p) = (Inr (), (w2, p2))"
      "cleanUp A (w2, p2) = (Inr (), (w3, p3))" "payBob A keys mint amount auditor (w3, p3) = (Inr (), (w4, p4))"
      "io_bind (applyBob A keys mint) (\<lambda>_. showRuled A keys mint) (w4, p4) = (Inr (), (w', p'))"
    using body by (auto simp: step8_body_def io_bind_eq_Inr [of "payMallory A keys mint amount auditor"]
        io_bind_eq_Inr [of "cleanUp A"] io_bind_eq_Inr [of "payBob A keys mint amount auditor"])
  obtain c2 where c2: "st_rules (pg_state p2) = Some c2" "c_refused c2 \<noteq> None" "c_stage c2 = c_stage c"
    using payMallory_page [OF assms(2) run(1)] assms(2) by fastforce
  obtain c3 where c3: "st_rules (pg_state p3) = Some c3" "c_cleaned c3" "c_refused c3 \<noteq> None" "c_stage c3 = c_stage c"
    using cleaned_rules [OF run(2) c2(1)] c2 by auto
  have unsent: "\<not> unsent (Some (show_int amount))" by (simp add: unsent_def show_int_def)
  obtain c4 where c4: "st_rules (pg_state p4) = Some c4" "c_cleaned c4" "c_refused c4 \<noteq> None"
      "c_stage c4 = c_stage c" "\<not> unsent (c_sent c4)"
    using payBob_page [OF c3(1) run(3)] c3 unsent by fastforce
  show ?thesis using after_payBob_page [OF run(4) c4(1)] c4 by auto
qed

section \<open>Witnesses\<close>

theorem step7_resumes_witness:
  "step7 A0 (0, page_with (rules_at 7)) = resumed A0 7 (0, page_with (rules_at 7))"
proof -
  obtain r w' p' where run: "step7 A0 (0, page_with (rules_at 7)) = (r, (w', p'))" by (metis surj_pair)
  have "stage_of (page_with (rules_at 7)) = 7" by (simp add: stage_of_def)
  then show ?thesis using step7_resumes [OF _ run] by simp
qed

theorem unsaved_stage_blocks_step7_witness:
  "\<exists>e. step7 (page_services (Some (token_with 0 5))) (0, page_with (rules_at 2)) =
       (Inl e, (0, page_with (rules_at 2))) \<and>
     refused_with ACCOUNT_ALREADY_CONFIGURED ''configureAccount'' e"
  by (rule unsaved_stage_blocks_step7 [of _ "rules_at 2" _ "''mint''" page_keys "''key0/mint''" _ "token_with 0 5" _ "ct_with 5"])
    (simp_all add: page_services_def page_browser_def ataOn_def toy_kit_def idle_kit_def stage_owner_def
      page_keys_def page_signer_def op_rpc_def)

theorem step4_sends_once_witness:
  "step4 A0 (0, page_with (rules_at 0)) =
     io_bind (io_of (typedAmount ''25.00'')) (\<lambda>_. io_bind theKeys (\<lambda>keys. io_bind (stateMint A0) (\<lambda>mint.
       io_bind (applyOn A0 keys (kr_bob keys) mint) (\<lambda>_. out 4 (Shown_Transfer [''sig'']))))) (0, page_with (rules_at 0))"
  using step4_sends_once [of "page_with (rules_at 0)" A0 0] by (simp add: unsent_def saved_run_def)

text \<open>A page whose payment to Mallory was refused, and whose payment to Bob is due.\<close>

definition refused_rules :: rules where
  "refused_rules = (rules_at 8)\<lparr>c_refused := Some (''refused'', ''log''), c_cleaned := True\<rparr>"


end
