(* ===== verification/Playground_Page.thy ===== *)
theory Playground_Page
  imports Playground_Resume
begin

text \<open>
  The handlers of the playground page (\<open>src/playground/src/app.js\<close>, from \<open>say\<close> to the end): painting,
  running a step, watching for funds, starting over, and loading. A handler runs until its next
  \<open>await\<close>; the steps of the page are an inductive relation \<open>tab_step\<close> whose handlers interleave. The
  body of a step is taken as one transition: while it runs the page is busy, and no other handler
  writes what it uses. \<open>location.reload()\<close> ends the page at once.
\<close>

section \<open>Painting\<close>

definition paint :: "page \<Rightarrow> page" where
  "paint p =
     (let d = st_done (pg_state p) in
      p\<lparr>pg_look := (\<lambda>n. if n \<le> d then Look_Done else if n = d + 1 then Look_Ready else Look_Locked),
        pg_enabled := (\<lambda>n. \<not> (pg_busy p \<or> n \<noteq> d + 1)),
        pg_resetEnabled := \<not> pg_busy p,
        pg_finale := \<not> d < LAST\<rparr>)"

definition say :: "nat \<Rightarrow> said \<Rightarrow> page \<Rightarrow> page" where
  "say n what p = p\<lparr>pg_said := (pg_said p)(n := Some what)\<rparr>"

text \<open>The balances at the side: \<open>None\<close> is the dash for one that could not be read.\<close>

record side =
  si_sol :: "int option"
  si_rows :: "int option list"

definition dashed :: "('w, int) act \<Rightarrow> ('w, int option) act" where
  "dashed m = io_try m (\<lambda>v. io_return (Some v)) (\<lambda>_. io_return None)"

definition refreshSide :: "('w, 'p) services \<Rightarrow> ('w, side option) act" where
  "refreshSide A =
     io_bind io_get (\<lambda>p.
     case pg_keys p of
       None \<Rightarrow> io_return None
     | Some keys \<Rightarrow>
         io_bind (dashed (solBalance A)) (\<lambda>sol.
         io_bind io_get (\<lambda>p.
         if st_mint (pg_state p) = None \<or> st_done (pg_state p) < 2
         then io_return (Some \<lparr>si_sol = sol, si_rows = []\<rparr>)
         else
           io_bind (promise_all (kit_race (sv_kit A)) (map dashed
             [publicBalance A (sg_address (kr_you keys)), confidentialBalance A keys (kr_you keys),
              publicBalance A (sg_address (kr_bob keys)),
              (if 4 \<le> st_done (pg_state p) then confidentialBalance A keys (kr_bob keys)
               else io_return 0)])) (\<lambda>rows.
           io_return (Some \<lparr>si_sol = sol, si_rows = rows\<rparr>)))))"

section \<open>Running a step\<close>

text \<open>The start of \<open>run(n)\<close>, up to the call of the step; \<open>None\<close> when the page is busy.\<close>

definition runBegin :: "page \<Rightarrow> page option" where
  "runBegin p = (if pg_busy p then None else Some (paint (p\<lparr>pg_busy := True\<rparr>)))"

definition finished :: "nat \<Rightarrow> page \<Rightarrow> page" where
  "finished n p = say n Said_Done (saved (setState (\<lambda>s. s\<lparr>st_done := max (st_done s) n\<rparr>) p))"

definition released :: "page \<Rightarrow> page" where
  "released p = paint (p\<lparr>pg_busy := False\<rparr>)"

definition runEnd :: "('w, 'p) services \<Rightarrow> nat \<Rightarrow> ('w, unit) act" where
  "runEnd A n =
     io_bind
       (io_try (STEPS A n)
         (\<lambda>_. change (finished n))
         (\<lambda>err. change (say n (Said_Error (explain (sv_browser A) err)))))
       (\<lambda>_. change released)"

section \<open>Watching, starting over, loading\<close>

text \<open>What \<open>watchFunding\<close> does with an answer, and whether it goes on.\<close>

definition funded :: "page \<Rightarrow> page" where
  "funded p = paint (say 1 Said_Funded (saved (setState (\<lambda>s. s\<lparr>st_done := 1\<rparr>) p)))"

definition watchAnswer :: "('w, 'p) services \<Rightarrow> ('w, bool) act" where
  "watchAnswer A =
     io_try (solBalance A)
       (\<lambda>balance. io_bind io_get (\<lambda>p.
          if MIN_SOL \<le> balance \<and> \<not> pg_busy p
          then io_bind (change funded) (\<lambda>_. io_return False)
          else io_return True))
       (\<lambda>_. io_return True)"

definition resetState :: "'w browser \<Rightarrow> page \<Rightarrow> 'w \<Rightarrow> page \<times> 'w" where
  "resetState B p w =
     (case fresh B w of (s, w') \<Rightarrow>
      (saved (p\<lparr>pg_state := s\<lparr>st_seeds := (st_seeds s)\<lparr>sd_you := sd_you (st_seeds (pg_state p))\<rparr>\<rparr>\<rparr>), w'))"

definition restartState :: "'w browser \<Rightarrow> page \<Rightarrow> 'w \<Rightarrow> page \<times> 'w" where
  "restartState B p w = (case fresh B w of (s, w') \<Rightarrow> (saved (p\<lparr>pg_state := s\<rparr>), w'))"

definition blank_page :: "progress \<Rightarrow> progress option \<Rightarrow> bool \<Rightarrow> page" where
  "blank_page s stored storable =
     \<lparr>pg_state = s, pg_stored = stored, pg_storable = storable, pg_keys = None, pg_auditorKeypair = None,
      pg_busy = False, pg_amount = ''25'', pg_amount2 = ''25'', pg_out = (\<lambda>_. None), pg_said = (\<lambda>_. None),
      pg_look = (\<lambda>_. Look_Locked), pg_enabled = (\<lambda>_. False), pg_resetEnabled = True, pg_finale = False\<rparr>"

text \<open>The module from its first line to the first \<open>await\<close> of \<open>main\<close>.\<close>

definition openPage :: "'w browser \<Rightarrow> progress option \<Rightarrow> bool \<Rightarrow> 'w \<Rightarrow> page \<times> 'w" where
  "openPage B stored storable w =
     (case initialState B stored w of (s, w') \<Rightarrow> (paint (blank_page s stored storable), w'))"

text \<open>\<open>main\<close> from there to the wallets, and from the wallets to the end.\<close>

definition loadKeys :: "('w, 'p) services \<Rightarrow> ('w, unit) act" where
  "loadKeys A =
     io_bind (io_local (kit_generateKeyPairSigner (sv_kit A))) (\<lambda>_.
     io_bind (io_local (br_initConfidentialTransfers (sv_browser A))) (\<lambda>_.
     io_bind io_get (\<lambda>p.
     io_bind (io_local (signers (sv_kit A) (sv_browser A) (st_seeds (pg_state p)))) (\<lambda>keys.
     change (\<lambda>p. p\<lparr>pg_keys := Some keys\<rparr>)))))"

definition announce :: "page \<Rightarrow> page" where
  "announce p =
     (let d = st_done (pg_state p) in
      paint (p\<lparr>pg_said := (\<lambda>n.
        if n = 1 \<and> 1 \<le> d then Some Said_Funded
        else if 2 \<le> n \<and> n \<le> d then Some Said_Done else pg_said p n)\<rparr>))"

definition loadAuditor :: "('w, 'p) services \<Rightarrow> ('w, unit) act" where
  "loadAuditor A =
     io_bind theKeys (\<lambda>keys.
     io_bind (io_local (deriveAuditorElgamalKeypair (sv_kit A) (sv_zk A) (kr_auditor keys))) (\<lambda>keypair.
     change (\<lambda>p. announce (p\<lparr>pg_auditorKeypair := Some keypair\<rparr>))))"

section \<open>The tab\<close>

datatype watch = Not_Watching | Asking | Sleeping

datatype loading = Loading_Keys | Loading_Auditor | Loaded | Load_Failed

record 'w tab =
  tb_page :: page
  tb_world :: 'w
  tb_running :: "nat option"
  tb_watch :: watch
  tb_loading :: loading

definition opened :: "('w, 'p) services \<Rightarrow> progress option \<Rightarrow> bool \<Rightarrow> 'w \<Rightarrow> 'w tab" where
  "opened A stored storable w =
     (case openPage (sv_browser A) stored storable w of (p, w') \<Rightarrow>
      \<lparr>tb_page = p, tb_world = w', tb_running = None, tb_watch = Not_Watching, tb_loading = Loading_Keys\<rparr>)"

text \<open>\<open>while (state.done < 1)\<close>.\<close>

definition watching :: "page \<Rightarrow> watch" where
  "watching p = (if st_done (pg_state p) < 1 then Asking else Not_Watching)"

text \<open>
  The transitions: a click on an enabled button, the end of a step, the two halves of loading, the
  answer and the next round of the watcher, the two ways of starting over, a reload, typing, and
  anything else that happens in the world.
\<close>

inductive tab_step :: "('w, 'p) services \<Rightarrow> 'w tab \<Rightarrow> 'w tab \<Rightarrow> bool" for A where
  click: "pg_enabled (tb_page t) n \<Longrightarrow> n \<in> {1..LAST} \<Longrightarrow> runBegin (tb_page t) = Some p \<Longrightarrow>
    tab_step A t (t\<lparr>tb_page := p, tb_running := Some n\<rparr>)"
| finish: "tb_running t = Some n \<Longrightarrow> runEnd A n (tb_world t, tb_page t) = (r, (w, p)) \<Longrightarrow>
    tab_step A t (t\<lparr>tb_page := p, tb_world := w, tb_running := None\<rparr>)"
| load_keys: "tb_loading t = Loading_Keys \<Longrightarrow> loadKeys A (tb_world t, tb_page t) = (r, (w, p)) \<Longrightarrow>
    tab_step A t (t\<lparr>tb_page := p, tb_world := w,
      tb_loading := (if isl r then Load_Failed else Loading_Auditor)\<rparr>)"
| load_auditor: "tb_loading t = Loading_Auditor \<Longrightarrow> loadAuditor A (tb_world t, tb_page t) = (r, (w, p)) \<Longrightarrow>
    tab_step A t (t\<lparr>tb_page := p, tb_world := w,
      tb_loading := (if isl r then Load_Failed else Loaded),
      tb_watch := (if isl r then Not_Watching else watching p)\<rparr>)"
| answer: "tb_watch t = Asking \<Longrightarrow> watchAnswer A (tb_world t, tb_page t) = (r, (w, p)) \<Longrightarrow>
    tab_step A t (t\<lparr>tb_page := p, tb_world := w,
      tb_watch := (if r = Inr False then Not_Watching else Sleeping)\<rparr>)"
| wake: "tb_watch t = Sleeping \<Longrightarrow> tab_step A t (t\<lparr>tb_watch := watching (tb_page t)\<rparr>)"
| reset: "pg_resetEnabled (tb_page t) \<Longrightarrow> \<not> pg_busy (tb_page t) \<Longrightarrow>
    resetState (sv_browser A) (tb_page t) (tb_world t) = (p, w) \<Longrightarrow>
    tab_step A t (opened A (pg_stored p) (pg_storable p) w)"
| restart: "pg_resetEnabled (tb_page t) \<Longrightarrow> \<not> pg_busy (tb_page t) \<Longrightarrow>
    restartState (sv_browser A) (tb_page t) (tb_world t) = (p, w) \<Longrightarrow>
    tab_step A t (opened A (pg_stored p) (pg_storable p) w)"
| reload: "tab_step A t (opened A (pg_stored (tb_page t)) (pg_storable (tb_page t)) (tb_world t))"
| typing: "tab_step A t (t\<lparr>tb_page := (tb_page t)\<lparr>pg_amount := a, pg_amount2 := b\<rparr>\<rparr>)"
| world: "tab_step A t (t\<lparr>tb_world := w\<rparr>)"

text \<open>A tab whose storage is empty or holds a run of an earlier tab.\<close>

inductive reachable_tab :: "('w, 'p) services \<Rightarrow> 'w tab \<Rightarrow> bool" for A where
  first_visit: "reachable_tab A (opened A None storable w)"
| tab_stepped: "reachable_tab A t \<Longrightarrow> tab_step A t t' \<Longrightarrow> reachable_tab A t'"

section \<open>The invariant of the page\<close>

text \<open>What the number of finished steps means for the saved run.\<close>

definition rules_done :: "rules \<Rightarrow> bool" where
  "rules_done c \<longleftrightarrow> c_refused c \<noteq> None \<and> c_cleaned c \<and> \<not> unsent (c_sent c) \<and> c_applied c"

definition progress_ok :: "progress \<Rightarrow> bool" where
  "progress_ok s \<longleftrightarrow> st_done s \<le> LAST \<and>
     (2 \<le> st_done s \<longrightarrow> st_mint s \<noteq> None) \<and>
     (4 \<le> st_done s \<longrightarrow> \<not> unsent (st_sent s) \<and> st_bobMint s = st_mint s) \<and>
     (\<forall>c. st_rules s = Some c \<longrightarrow> c_stage c \<le> 8) \<and>
     (7 \<le> st_done s \<longrightarrow> (\<exists>c. st_rules s = Some c \<and> c_stage c = 8)) \<and>
     (8 \<le> st_done s \<longrightarrow> (\<exists>c. st_rules s = Some c \<and> rules_done c))"

definition stored_ok :: "page \<Rightarrow> bool" where
  "stored_ok p \<longleftrightarrow> (case pg_stored p of None \<Rightarrow> True | Some s \<Rightarrow> progress_ok s)"

text \<open>The part of the page no step touches.\<close>

definition no_progress :: progress where
  "no_progress = \<lparr>st_seeds = \<lparr>sd_you = [], sd_bob = [], sd_auditor = [], sd_mallory = None\<rparr>, st_done = 0,
     st_mint = None, st_bobMint = None, st_sent = None, st_signatures = [], st_rules = None\<rparr>"

definition shell :: "page \<Rightarrow> page" where
  "shell p = p\<lparr>pg_state := no_progress, pg_stored := None, pg_out := (\<lambda>_. None)\<rparr>"

definition tracked :: "nat \<Rightarrow> page \<Rightarrow> page \<Rightarrow> bool" where
  "tracked d q p \<longleftrightarrow> st_done (pg_state p) = d \<and> st_seeds (pg_state p) = st_seeds (pg_state q) \<and>
     shell p = shell q \<and> progress_ok (pg_state p) \<and> stored_ok p"

lemma shell_simps [simp]:
  "shell (setState f p) = shell p" "shell (setRules g p) = shell p" "shell (saved p) = shell p"
  "shell (p\<lparr>pg_out := v\<rparr>) = shell p"
  by (simp_all add: shell_def setState_def setRules_def saved_def)

lemma stored_ok_saved: "progress_ok (pg_state p) \<Longrightarrow> stored_ok p \<Longrightarrow> stored_ok (saved p)"
  by (simp add: stored_ok_def saved_def)

lemma tracked_saved: "tracked d q p \<Longrightarrow> tracked d q (saved p)"
  by (simp add: tracked_def stored_ok_saved)

lemma tracked_out: "tracked d q p \<Longrightarrow> tracked d q (p\<lparr>pg_out := v\<rparr>)"
  by (simp add: tracked_def stored_ok_def)

lemma tracked_setState:
  assumes "tracked d q p" and "st_done (f (pg_state p)) = d" and "st_seeds (f (pg_state p)) = st_seeds (pg_state p)"
    and "progress_ok (f (pg_state p))"
  shows "tracked d q (setState f p)"
  using assms by (simp add: tracked_def stored_ok_def setState_def shell_def)

lemma tracked_setRules:
  assumes "tracked d q p"
    and "\<And>c. c_stage c \<le> 8 \<Longrightarrow> c_stage (f c) \<le> 8 \<and> (7 \<le> d \<longrightarrow> c_stage c = 8 \<longrightarrow> c_stage (f c) = 8) \<and>
      (8 \<le> d \<longrightarrow> rules_done c \<longrightarrow> rules_done (f c))"
  shows "tracked d q (setRules f p)"
  unfolding setRules_def
  by (rule tracked_setState [OF assms(1)]) (use assms in \<open>auto simp: tracked_def progress_ok_def\<close>)

text \<open>A page condition is kept by what leaves the page alone, and by the writes that keep it.\<close>

lemma keeps_page_tracked: "keeps_local m \<Longrightarrow> io_keeps (\<lambda>x. tracked d q (snd x)) m"
  by (rule keeps_local_keeps)

lemma keeps_save: "io_keeps (\<lambda>x. tracked d q (snd x)) save"
  unfolding save_def by (rule keeps_change) (rule tracked_saved)

lemma keeps_out: "io_keeps (\<lambda>x. tracked d q (snd x)) (out n v)"
  unfolding out_def by (rule keeps_change) (rule tracked_out)

lemmas tracking = keeps_bind keeps_try keeps_prod keeps_option keeps_if keeps_save keeps_out

section \<open>What each step keeps\<close>

text \<open>The next step, from the page where it is the next one, keeps the invariant at every save.\<close>

lemma tracks_step2: "io_keeps (\<lambda>x. tracked 1 q (snd x)) (step2 A)"
  unfolding step2_def
  by (intro tracking keeps_change tracked_setState keeps_page_tracked keeps_page_all)
    (auto simp: tracked_def progress_ok_def)

lemma tracks_configureBob: "io_keeps (\<lambda>x. tracked 3 q (snd x)) (configureBob A keys)"
  unfolding configureBob_def
  by (intro tracking keeps_change tracked_setState keeps_page_tracked keeps_page_all keeps_local_basic)
    (auto simp: tracked_def progress_ok_def)

lemma tracks_transferToBob: "io_keeps (\<lambda>x. tracked 3 q (snd x)) (transferToBob A keys amount)"
  unfolding transferToBob_def
  by (intro tracking keeps_change tracked_setState keeps_page_tracked keeps_page_all keeps_local_basic)
    (auto simp: tracked_def progress_ok_def)

lemma tracks_step4: "io_keeps (\<lambda>x. tracked 3 q (snd x)) (step4 A)"
  unfolding step4_def
  by (intro tracking tracks_configureBob tracks_transferToBob keeps_page_tracked keeps_page_all
      keeps_local_basic keeps_page_check)

lemma keeps_page_steps: "keeps_local (io_bind theKeys f)" if "\<And>k. keeps_local (f k)"
  using that by (intro keeps_local_rules keeps_page_reads)

lemma tracks_step3: "io_keeps (\<lambda>x. tracked d q (snd x)) (step3 A)"
  unfolding step3_def
  by (intro tracking keeps_page_tracked keeps_page_all)

lemma tracks_step5: "io_keeps (\<lambda>x. tracked d q (snd x)) (step5 A)"
  unfolding step5_def
  by (intro tracking keeps_page_tracked keeps_page_all keeps_local_basic keeps_local_promise_all)
    (simp add: keeps_page_all)

lemma tracks_step6: "io_keeps (\<lambda>x. tracked d q (snd x)) (step6 A)"
  unfolding step6_def
  by (intro tracking keeps_page_tracked keeps_page_all keeps_local_basic)

lemma tracks_stage:
  assumes "io_keeps (\<lambda>x. tracked 6 q (snd x)) action" and "n \<le> 8"
  shows "io_keeps (\<lambda>x. tracked 6 q (snd x)) (stage n action)"
  unfolding stage_def
  by (intro tracking assms(1) keeps_change tracked_setRules keeps_page_tracked keeps_page_reads keeps_local_basic)
    (use assms(2) in auto)

lemma tracks_createRuledMint: "io_keeps (\<lambda>x. tracked 6 q (snd x)) (createRuledMint A)"
  unfolding createRuledMint_def Let_def
  by (intro tracking keeps_change tracked_setRules keeps_page_tracked keeps_page_all keeps_local_basic) auto

lemma tracks_installRules: "io_keeps (\<lambda>x. tracked 6 q (snd x)) (installRules A mint)"
  unfolding installRules_def
  by (intro tracking keeps_change tracked_setRules keeps_page_tracked keeps_page_all keeps_local_basic) auto

lemma tracks_openRules: "io_keeps (\<lambda>x. tracked 6 q (snd x)) (change (setState openRules))"
  by (intro keeps_change tracked_setState)
    (auto simp: tracked_def progress_ok_def openRules_def new_rules_def split: option.splits)

lemma tracks_step7: "io_keeps (\<lambda>x. tracked 6 q (snd x)) (step7 A)"
  unfolding step7_def
  by (intro tracking tracks_stage tracks_openRules tracks_createRuledMint tracks_installRules keeps_page_tracked
      keeps_page_all keeps_local_basic) simp_all

lemma tracks_payMallory: "io_keeps (\<lambda>x. tracked 7 q (snd x)) (payMallory A keys mint amount auditor)"
  unfolding payMallory_def
  by (intro tracking keeps_change tracked_setRules keeps_page_tracked keeps_page_all keeps_local_basic) auto

lemma tracks_cleanUp: "io_keeps (\<lambda>x. tracked 7 q (snd x)) (cleanUp A)"
  unfolding cleanUp_def
  by (intro tracking keeps_change tracked_setRules keeps_page_tracked keeps_page_all keeps_local_basic) auto

lemma tracks_payBob: "io_keeps (\<lambda>x. tracked 7 q (snd x)) (payBob A keys mint amount auditor)"
  unfolding payBob_def
  by (intro tracking keeps_change tracked_setRules keeps_page_tracked keeps_page_all keeps_local_basic) auto

lemma tracks_applyBob: "io_keeps (\<lambda>x. tracked 7 q (snd x)) (applyBob A keys mint)"
  unfolding applyBob_def
  by (intro tracking keeps_change tracked_setRules keeps_page_tracked keeps_page_all keeps_local_basic) auto

lemma tracks_step8: "io_keeps (\<lambda>x. tracked 7 q (snd x)) (step8 A)"
  unfolding step8_def showRuled_def
  by (intro tracking tracks_payMallory tracks_cleanUp tracks_payBob tracks_applyBob keeps_page_tracked
      keeps_page_all keeps_local_basic keeps_page_check)

lemma tracks_next:
  assumes "n \<in> {1..LAST}"
  shows "io_keeps (\<lambda>x. tracked (n - 1) q (snd x)) (STEPS A n)"
proof -
  have "n = 1 \<or> n = 2 \<or> n = 3 \<or> n = 4 \<or> n = 5 \<or> n = 6 \<or> n = 7 \<or> n = 8"
    using assms by (auto simp: LAST_def)
  then show ?thesis
    using keeps_page_tracked [OF keeps_page_parts(6)] tracks_step2 tracks_step3 tracks_step4 tracks_step5
      tracks_step6 tracks_step7 tracks_step8
    by (elim disjE) (simp_all add: STEPS_def)
qed

section \<open>What a finished step has done\<close>

lemma keeps_after:
  assumes "io_bind m f x = (Inr b, y)" and "\<And>a z. m x = (Inr a, z) \<Longrightarrow> P z" and "\<And>a. io_keeps P (f a)"
  shows "P y"
proof -
  obtain a z where "m x = (Inr a, z)" "f a z = (Inr b, y)" using assms(1) by (auto simp: io_bind_eq_Inr)
  then show ?thesis using assms(2,3) unfolding io_keeps_def by blast
qed

lemma out_state: "out n v (w, p) = (r, (w', p')) \<Longrightarrow> pg_state p' = pg_state p"
  by (auto simp: out_def)

lemma keeps_state_out: "io_keeps (\<lambda>x. P (pg_state (snd x))) (out n v)"
  unfolding out_def by (rule keeps_change) simp

lemma keeps_state_save: "io_keeps (\<lambda>x. P (pg_state (snd x))) save"
  unfolding save_def by (rule keeps_change) simp

lemma keeps_state_page: "keeps_local m \<Longrightarrow> io_keeps (\<lambda>x. P (pg_state (snd x))) m"
  by (rule keeps_local_keeps)

definition step2_body :: "('w, 'p) services \<Rightarrow> keyring \<Rightarrow> address \<Rightarrow> signature \<Rightarrow> ('w, unit) act" where
  "step2_body A keys mint created =
     io_bind (change (setState (\<lambda>s. s\<lparr>st_mint := Some mint\<rparr>))) (\<lambda>_. io_bind save (\<lambda>_.
     io_bind (configureOn A keys (kr_you keys) mint) (\<lambda>_.
     io_bind (ataOf A (sg_address (kr_you keys))) (\<lambda>token.
     io_bind (send A [build (sv_kit A) (MintTo mint token (sg_address (kr_you keys)) (1000 * UNIT))]) (\<lambda>_.
     out 2 (Shown_Mint mint created (sg_address (kr_auditor keys))))))))"

lemma step2_done:
  assumes "step2 A (w, p) = (Inr (), (w', p'))"
  shows "st_mint (pg_state p') \<noteq> None"
proof -
  obtain keys mint created w1 where run: "step2_body A keys mint created (w1, p) = (Inr (), (w', p'))"
    using assms unfolding step2_def step2_body_def [symmetric]
    by (elim bind_keeps_localE) (auto simp: keeps_page_all elim!: bind_keeps_localE)
  have "st_mint (pg_state (snd (w', p'))) \<noteq> None"
  proof (rule keeps_after [OF run [unfolded step2_body_def], where P = "\<lambda>x. st_mint (pg_state (snd x)) \<noteq> None"])
    fix a z assume "change (setState (\<lambda>s. s\<lparr>st_mint := Some mint\<rparr>)) (w1, p) = (Inr a, z)"
    then show "st_mint (pg_state (snd z)) \<noteq> None" by auto
  qed (intro keeps_bind keeps_state_save [where P = "\<lambda>s. st_mint s \<noteq> None"]
      keeps_state_page [where P = "\<lambda>s. st_mint s \<noteq> None"] keeps_state_out [where P = "\<lambda>s. st_mint s \<noteq> None"]
      keeps_page_all)
  then show ?thesis by simp
qed

lemma configureBob_done:
  assumes "configureBob A keys (w, p) = (Inr (), (w', p'))"
  shows "st_bobMint (pg_state p') = st_mint (pg_state p')"
proof (cases "st_bobMint (pg_state p) = st_mint (pg_state p)")
  case True
  then show ?thesis using assms by (auto simp: configureBob_def get_bind)
next
  case False
  then have "io_bind (stateMint A) (\<lambda>mint. io_bind (configureOn A keys (kr_bob keys) mint) (\<lambda>_.
      change (saved \<circ> setState (\<lambda>s. s\<lparr>st_bobMint := st_mint s\<rparr>)))) (w, p) = (Inr (), (w', p'))"
    using assms by (simp add: configureBob_def get_bind change_save)
  then show ?thesis
    by (elim bind_keeps_localE) (auto simp: keeps_page_all elim!: bind_keeps_localE)
qed

lemma transferToBob_done:
  assumes "transferToBob A keys amount (w, p) = (Inr (), (w', p'))"
    and "st_bobMint (pg_state p) = st_mint (pg_state p)"
  shows "\<not> unsent (st_sent (pg_state p')) \<and> st_bobMint (pg_state p') = st_mint (pg_state p')"
proof (cases "unsent (st_sent (pg_state p))")
  case False
  then show ?thesis using assms by (auto simp: transferToBob_def get_bind)
next
  case True
  have sent: "\<not> unsent (Some (show_int amount))" by (simp add: unsent_def show_int_def)
  have "io_bind (stateMint A) (\<lambda>mint. io_bind (auditorPubkey A) (\<lambda>auditor.
      io_bind (transferOn A keys mint (kr_bob keys) amount auditor) (\<lambda>result.
      change (saved \<circ> setState (\<lambda>s. s\<lparr>st_signatures := fr_signatures (to_flow result),
         st_sent := Some (show_int amount)\<rparr>))))) (w, p) = (Inr (), (w', p'))"
    using assms True by (simp add: transferToBob_def get_bind change_save)
  then show ?thesis
    by (elim bind_keeps_localE) (auto simp: keeps_page_all assms(2) sent elim!: bind_keeps_localE)
qed

definition step4_body :: "('w, 'p) services \<Rightarrow> keyring \<Rightarrow> int \<Rightarrow> ('w, unit) act" where
  "step4_body A keys amount =
     io_bind (configureBob A keys) (\<lambda>_. io_bind (transferToBob A keys amount) (\<lambda>_.
     io_bind (stateMint A) (\<lambda>mint. io_bind (applyOn A keys (kr_bob keys) mint) (\<lambda>_.
     io_bind io_get (\<lambda>p. out 4 (Shown_Transfer (st_signatures (pg_state p))))))))"

lemma step4_done:
  assumes "step4 A (w, p) = (Inr (), (w', p'))"
  shows "\<not> unsent (st_sent (pg_state p')) \<and> st_bobMint (pg_state p') = st_mint (pg_state p')"
proof -
  let ?rest = "\<lambda>keys. io_bind (stateMint A) (\<lambda>mint. io_bind (applyOn A keys (kr_bob keys) mint) (\<lambda>_.
      io_bind io_get (\<lambda>p. out 4 (Shown_Transfer (st_signatures (pg_state p))))))"
  have check: "keeps_local (checkAvailable (confidentialBalance A keys s) suffix amount sent)"
    for keys s suffix amount sent
    by (rule keeps_page_check [OF keeps_page_balances(2)])
  obtain keys amount w1 where run: "step4_body A keys amount (w1, p) = (Inr (), (w', p'))"
    using assms unfolding step4_def step4_body_def [symmetric]
    by (elim bind_keeps_localE) (auto simp: check keeps_page_reads keeps_local_basic elim!: bind_keeps_localE)
  obtain w2 p2 w3 p3 where parts: "configureBob A keys (w1, p) = (Inr (), (w2, p2))"
      "transferToBob A keys amount (w2, p2) = (Inr (), (w3, p3))" "?rest keys (w3, p3) = (Inr (), (w', p'))"
    using run by (auto simp: step4_body_def io_bind_eq_Inr [of "configureBob A keys"]
        io_bind_eq_Inr [of "transferToBob A keys amount"])
  let ?P = "\<lambda>s. \<not> unsent (st_sent s) \<and> st_bobMint s = st_mint s"
  have "?P (pg_state p3)" using transferToBob_done [OF parts(2) configureBob_done [OF parts(1)]] by simp
  moreover have "io_keeps (\<lambda>x. ?P (pg_state (snd x))) (?rest keys)"
    by (intro keeps_bind keeps_state_page [where P = ?P] keeps_state_out [where P = ?P] keeps_page_all keeps_local_basic)
  ultimately have "?P (pg_state (snd (w', p')))" using parts(3) unfolding io_keeps_def by (metis snd_conv)
  then show ?thesis by simp
qed

lemma step7_done:
  assumes "step7 A (w, p) = (Inr (), (w', p'))" and "stage_of p \<le> 8"
  shows "\<exists>c. st_rules (pg_state p') = Some c \<and> c_stage c = 8"
  using step7_run [OF assms(2,1)] by (auto simp: stage_of_def split: option.splits)

lemma progress_stage: "progress_ok (pg_state p) \<Longrightarrow> stage_of p \<le> 8"
  by (auto simp: progress_ok_def stage_of_def split: option.splits)

text \<open>A step that finished while it was the next one has earned its mark.\<close>

lemma finished_next:
  assumes "n \<in> {1..LAST}" and "STEPS A n (w, p) = (Inr (), (w', p'))" and "tracked (n - 1) q p"
  shows "progress_ok ((pg_state p')\<lparr>st_done := n\<rparr>)"
proof -
  have kept: "tracked (n - 1) q p'"
    using tracks_next [OF assms(1), of q A] assms(2,3) unfolding io_keeps_def by fastforce
  have ok: "progress_ok (pg_state p')" "st_done (pg_state p') = n - 1" using kept by (simp_all add: tracked_def)
  have p: "progress_ok (pg_state p)" "st_done (pg_state p) = n - 1" using assms(3) by (simp_all add: tracked_def)
  consider "n = 2" | "n = 4" | "n = 7" | "n = 8" | "n \<in> {1, 3, 5, 6}"
    using assms(1) by (fastforce simp: LAST_def)
  then show ?thesis
  proof cases
    case 1
    then have "st_mint (pg_state p') \<noteq> None" using assms(2) step2_done by (auto simp: STEPS_def)
    then show ?thesis using ok 1 by (auto simp: progress_ok_def LAST_def)
  next
    case 2
    then have "step4 A (w, p) = (Inr (), (w', p'))" using assms(2) by (simp add: STEPS_def)
    from step4_done [OF this] show ?thesis using ok 2 by (auto simp: progress_ok_def LAST_def)
  next
    case 3
    then have "step7 A (w, p) = (Inr (), (w', p'))" using assms(2) by (simp add: STEPS_def)
    from step7_done [OF this progress_stage [OF p(1)]] show ?thesis
      using ok 3 by (auto simp: progress_ok_def LAST_def)
  next
    case 4
    then have run: "step8 A (w, p) = (Inr (), (w', p'))" using assms(2) by (simp add: STEPS_def)
    obtain c where "st_rules (pg_state p) = Some c" "c_stage c = 8" using p 4 by (auto simp: progress_ok_def)
    from step8_done [OF run this(1)] this(2) show ?thesis
      using ok 4 by (auto simp: progress_ok_def rules_done_def LAST_def)
  next
    case 5
    then show ?thesis using ok by (auto simp: progress_ok_def LAST_def)
  qed
qed

section \<open>The invariant of the tab\<close>

definition tab_inv :: "'w tab \<Rightarrow> bool" where
  "tab_inv t \<longleftrightarrow>
     (let p = tb_page t; d = st_done (pg_state p) in
      (pg_busy p \<longleftrightarrow> tb_running t \<noteq> None) \<and>
      (\<forall>n. tb_running t = Some n \<longrightarrow> n = Suc d \<and> n \<in> {1..LAST}) \<and>
      (\<forall>n. pg_enabled p n \<longleftrightarrow> \<not> pg_busy p \<and> n = Suc d) \<and>
      progress_ok (pg_state p) \<and> stored_ok p)"

lemma paint_simps [simp]:
  "pg_state (paint p) = pg_state p" "pg_busy (paint p) = pg_busy p" "pg_stored (paint p) = pg_stored p"
  "pg_enabled (paint p) n \<longleftrightarrow> \<not> pg_busy p \<and> n = Suc (st_done (pg_state p))" "pg_keys (paint p) = pg_keys p"
  "pg_storable (paint p) = pg_storable p" "stored_ok (paint p) = stored_ok p"
  by (auto simp: paint_def Let_def stored_ok_def)

lemma say_simps [simp]:
  "pg_state (say n v p) = pg_state p" "pg_busy (say n v p) = pg_busy p" "pg_stored (say n v p) = pg_stored p"
  "stored_ok (say n v p) = stored_ok p" "shell (say n v p) = say n v (shell p)"
  by (simp_all add: say_def stored_ok_def shell_def)

lemma busy_simps [simp]: "pg_busy (saved p) = pg_busy p" "pg_busy (setState f p) = pg_busy p"
  by (simp_all add: saved_def setState_def)

lemma fresh_ok: "fresh B w = (s, w') \<Longrightarrow> progress_ok s \<and> st_done s = 0"
  by (auto simp: fresh_def progress_ok_def split: prod.splits)

lemma seeds_ok: "progress_ok (s\<lparr>st_seeds := x\<rparr>) = progress_ok s"
  by (simp add: progress_ok_def)

lemma initialState_ok:
  "initialState B loaded w = (s, w') \<Longrightarrow> (\<And>s. loaded = Some s \<Longrightarrow> progress_ok s) \<Longrightarrow> progress_ok s"
  by (auto simp: initialState_def seeds_ok dest: fresh_ok split: prod.splits option.splits)

lemma opened_inv:
  assumes "\<And>s. stored = Some s \<Longrightarrow> progress_ok s"
  shows "tab_inv (opened A stored storable w)"
proof -
  obtain s w' where s: "initialState (sv_browser A) stored w = (s, w')" by force
  have "progress_ok s" by (rule initialState_ok [OF s assms])
  then show ?thesis
    using s assms by (simp add: opened_def openPage_def tab_inv_def blank_page_def stored_ok_def Let_def
        split: option.split)
qed

lemma runEnd_page:
  assumes "runEnd A n (w, p) = (r, (w', p'))"
  obtains (returned) w1 p1 where "STEPS A n (w, p) = (Inr (), (w1, p1))" "p' = released (finished n p1)"
  | (threw) e w1 p1 where "STEPS A n (w, p) = (Inl e, (w1, p1))"
      "p' = released (say n (Said_Error (explain (sv_browser A) e)) p1)"
proof -
  obtain x w1 p1 where run: "STEPS A n (w, p) = (x, (w1, p1))" by (metis surj_pair)
  show ?thesis
  proof (cases x)
    case (Inl e)
    then show ?thesis using assms run threw by (simp add: runEnd_def io_bind_def)
  next
    case (Inr u)
    then show ?thesis using assms run returned by (simp add: runEnd_def io_bind_def)
  qed
qed

lemma released_simps [simp]:
  "pg_state (released p) = pg_state p" "pg_busy (released p) \<longleftrightarrow> False" "stored_ok (released p) = stored_ok p"
  "pg_enabled (released p) n \<longleftrightarrow> n = Suc (st_done (pg_state p))"
  by (simp_all add: released_def stored_ok_def)

lemma shell_facts:
  assumes "shell p = shell q"
  shows "pg_busy p = pg_busy q" "pg_enabled p = pg_enabled q" "pg_keys p = pg_keys q"
    "pg_auditorKeypair p = pg_auditorKeypair q" "pg_storable p = pg_storable q"
  using assms by (auto simp: shell_def dest: arg_cong [where f = pg_busy] arg_cong [where f = pg_enabled]
      arg_cong [where f = pg_keys] arg_cong [where f = pg_auditorKeypair] arg_cong [where f = pg_storable])

lemma finish_inv:
  assumes "tab_inv t" and "tb_running t = Some n" and "runEnd A n (tb_world t, tb_page t) = (r, (w, p))"
  shows "tab_inv (t\<lparr>tb_page := p, tb_world := w, tb_running := None\<rparr>)"
proof -
  let ?q = "tb_page t"
  have n: "n \<in> {1..LAST}" "n - 1 = st_done (pg_state ?q)" using assms(1,2) by (auto simp: tab_inv_def Let_def)
  have start: "tracked (n - 1) ?q ?q" using assms(1) n(2) by (simp add: tracked_def tab_inv_def Let_def)
  have kept: "tracked (n - 1) ?q p1" if "STEPS A n (tb_world t, ?q) = (x, (w1, p1))" for x w1 p1
    using tracks_next [OF n(1), of ?q A] that start unfolding io_keeps_def by fastforce
  show ?thesis
    using assms(3)
  proof (cases rule: runEnd_page)
    case (returned w1 p1)
    note k = kept [OF returned(1)]
    have ok: "progress_ok ((pg_state p1)\<lparr>st_done := n\<rparr>)" by (rule finished_next [OF n(1) returned(1) start])
    have "max (st_done (pg_state p1)) n = n" using k by (simp add: tracked_def)
    then have state: "pg_state p = (pg_state p1)\<lparr>st_done := n\<rparr>" by (simp add: returned(2) finished_def)
    moreover have "stored_ok (setState (\<lambda>s. s\<lparr>st_done := max (st_done s) n\<rparr>) p1)"
      using k by (simp add: tracked_def stored_ok_def setState_def)
    then have "stored_ok p"
      using ok state by (simp add: returned(2) finished_def stored_ok_saved)
    ultimately show ?thesis using ok by (simp add: tab_inv_def Let_def returned(2))
  next
    case (threw e w1 p1)
    note k = kept [OF threw(1)]
    then show ?thesis by (simp add: tab_inv_def Let_def threw(2) tracked_def)
  qed
qed

lemma click_inv:
  assumes "tab_inv t" and "pg_enabled (tb_page t) n" and "n \<in> {1..LAST}" and "runBegin (tb_page t) = Some p"
  shows "tab_inv (t\<lparr>tb_page := p, tb_running := Some n\<rparr>)"
proof -
  have "\<not> pg_busy (tb_page t)" "n = Suc (st_done (pg_state (tb_page t)))"
    using assms(1,2) by (simp_all add: tab_inv_def Let_def)
  moreover from this have "p = paint ((tb_page t)\<lparr>pg_busy := True\<rparr>)" using assms(4) by (simp add: runBegin_def)
  ultimately show ?thesis using assms(1,3) by (simp add: tab_inv_def Let_def stored_ok_def)
qed

lemma answer_page:
  assumes "watchAnswer A (w, p) = (r, (w', p'))"
  shows "p' = p \<or> (\<not> pg_busy p \<and> p' = funded p)"
proof -
  obtain x w1 p1 where run: "solBalance A (w, p) = (x, (w1, p1))" by (metis surj_pair)
  have "p1 = p" by (rule keeps_localD [OF keeps_page_balances(3) run])
  then show ?thesis
    using assms run by (cases x) (auto simp: watchAnswer_def get_bind io_bind_def [of "change f" for f] split: if_splits)
qed

lemma funded_inv:
  assumes "tab_inv t" and "\<not> pg_busy (tb_page t)"
  shows "tab_inv (t\<lparr>tb_page := funded (tb_page t), tb_world := w, tb_watch := v\<rparr>)"
proof -
  let ?p = "tb_page t"
  have ok: "progress_ok ((pg_state ?p)\<lparr>st_done := 1\<rparr>)"
    using assms(1) by (auto simp: tab_inv_def Let_def progress_ok_def LAST_def)
  have "stored_ok (setState (\<lambda>s. s\<lparr>st_done := 1\<rparr>) ?p)"
    using assms(1) by (simp add: tab_inv_def Let_def stored_ok_def setState_def)
  then have "stored_ok (funded ?p)" using ok by (simp add: funded_def stored_ok_saved)
  then show ?thesis using assms ok by (auto simp: tab_inv_def Let_def funded_def)
qed

lemma loadKeys_page:
  assumes "loadKeys A (w, p) = (r, (w', p'))"
  shows "p' = p \<or> (\<exists>keys. p' = p\<lparr>pg_keys := Some keys\<rparr>)"
  using assms unfolding loadKeys_def
  by (elim bind_keeps_localE) (auto simp: keeps_local_basic elim!: bind_keeps_localE)

lemma loadAuditor_page:
  assumes "loadAuditor A (w, p) = (r, (w', p'))"
  shows "p' = p \<or> (\<exists>keypair. p' = announce (p\<lparr>pg_auditorKeypair := Some keypair\<rparr>))"
  using assms unfolding loadAuditor_def
  by (elim bind_keeps_localE) (auto simp: keeps_local_basic keeps_page_reads elim!: bind_keeps_localE)

lemma reset_stored:
  assumes "tab_inv t"
  shows "resetState B (tb_page t) w = (p, w') \<Longrightarrow> pg_stored p = Some s \<Longrightarrow> progress_ok s"
    and "restartState B (tb_page t) w = (p, w') \<Longrightarrow> pg_stored p = Some s \<Longrightarrow> progress_ok s"
proof -
  obtain s0 w0 where f: "fresh B w = (s0, w0)" by force
  note ok = fresh_ok [OF f]
  have stored: "pg_stored (tb_page t) = Some s \<Longrightarrow> progress_ok s" for s
    using assms by (simp add: tab_inv_def Let_def stored_ok_def)
  show "resetState B (tb_page t) w = (p, w') \<Longrightarrow> pg_stored p = Some s \<Longrightarrow> progress_ok s"
    and "restartState B (tb_page t) w = (p, w') \<Longrightarrow> pg_stored p = Some s \<Longrightarrow> progress_ok s"
    using f ok stored by (auto simp: resetState_def restartState_def saved_def seeds_ok split: if_splits)
qed

lemma tab_step_inv: "tab_step A t t' \<Longrightarrow> tab_inv t \<Longrightarrow> tab_inv t'"
proof (induction rule: tab_step.induct)
  case (click t n p)
  then show ?case by (intro click_inv)
next
  case (finish t n r w p)
  then show ?case by (intro finish_inv)
next
  case (load_keys t r w p)
  then show ?case using loadKeys_page [OF load_keys(2)] by (auto simp: tab_inv_def Let_def stored_ok_def)
next
  case (load_auditor t r w p)
  then show ?case
    using loadAuditor_page [OF load_auditor(2)]
    by (auto simp: tab_inv_def Let_def stored_ok_def announce_def)
next
  case (answer t r w p)
  then show ?case using answer_page [OF answer(2)] funded_inv by (auto simp: tab_inv_def Let_def)
next
  case (reset t p w)
  show ?case by (rule opened_inv) (rule reset_stored(1) [OF reset(4,3)])
next
  case (restart t p w)
  show ?case by (rule opened_inv) (rule reset_stored(2) [OF restart(4,3)])
next
  case (reload t)
  then show ?case by (intro opened_inv) (simp add: tab_inv_def Let_def stored_ok_def)
next
  case (typing t a b)
  then show ?case by (simp add: tab_inv_def Let_def stored_ok_def)
qed (simp_all add: tab_inv_def Let_def)

interpretation tab: step_invariant "tab_step A" tab_inv for A
  by unfold_locales (rule tab_step_inv)

lemma reachable_inv: "reachable_tab A t \<Longrightarrow> tab_inv t"
  by (induction rule: reachable_tab.induct) (auto intro: opened_inv tab.step_inv)

section \<open>Properties of the page\<close>


text \<open>C37: A late answer to the watcher undoes finished steps. Whenever the watcher still waits for an
  answer while no step runs, an answer with enough SOL sets the number of finished steps to 1, however
  many were finished, saves this, and offers step 2 again.\<close>

theorem late_answer_undoes_steps:
  assumes "tb_watch t = Asking" and "\<not> pg_busy (tb_page t)"
    and "solBalance A (tb_world t, tb_page t) = (Inr balance, (w, tb_page t))" and "MIN_SOL \<le> balance"
  shows "\<exists>t'. tab_step A t t' \<and> st_done (pg_state (tb_page t')) = 1 \<and> pg_enabled (tb_page t') 2 \<and>
    (\<not> pg_storable (tb_page t) \<or> pg_stored (tb_page t') = Some (pg_state (tb_page t')))"
proof -
  let ?p = "funded (tb_page t)"
  have "watchAnswer A (tb_world t, tb_page t) = (Inr False, (w, ?p))"
    using assms by (simp add: watchAnswer_def get_bind io_bind_def [of "change f" for f])
  from tab_step.answer [OF assms(1) this]
  have "tab_step A t (t\<lparr>tb_page := ?p, tb_world := w, tb_watch := Not_Watching\<rparr>)" by simp
  moreover have "st_done (pg_state ?p) = 1" "pg_enabled ?p 2"
    using assms(2) by (simp_all add: funded_def)
  moreover have "\<not> pg_storable (tb_page t) \<or> pg_stored ?p = Some (pg_state ?p)"
    by (simp add: funded_def saved_def setState_def)
  ultimately show ?thesis by (intro exI [of _ "t\<lparr>tb_page := ?p, tb_world := w, tb_watch := Not_Watching\<rparr>"]) simp
qed

section \<open>A tab that reaches step 3\<close>

lemma load0:
  assumes "st_seeds (pg_state p) = \<lparr>sd_you = hex [0], sd_bob = hex [1], sd_auditor = hex [2], sd_mallory = Some (hex [3])\<rparr>"
  shows "loadKeys A0 (w, p) = (Inr (), (Suc w, p\<lparr>pg_keys := Some page_keys\<rparr>))"
  using assms
  by (simp add: loadKeys_def io_bind_def [of "io_local m" for m] parts0 get_bind signers0)

lemma auditor0: "pg_keys p = Some page_keys \<Longrightarrow> loadAuditor A0 (w, p) = (Inr (), (w, announce (p\<lparr>pg_auditorKeypair := Some some_keypair\<rparr>)))"
  by (simp add: loadAuditor_def keys_bind parts0 io_bind_def [of "io_local m" for m] page_keys_def deriv)

lemma STEPS_keeps:
  assumes "n \<in> {1..LAST}" "STEPS A n (w, p) = (r, (w', p'))" "tracked (n - 1) p p"
  shows "shell p' = shell p \<and> st_done (pg_state p') = n - 1"
proof -
  have "io_keeps (\<lambda>x. tracked (n - 1) p (snd x)) (STEPS A n)" by (rule tracks_next [OF assms(1)])
  then have "tracked (n - 1) p (snd (w', p'))" using assms(2,3) unfolding io_keeps_def by (metis snd_conv)
  then show ?thesis by (simp add: tracked_def)
qed

text \<open>From a reachable tab that waits, a step that returns leads to a reachable tab that waits.\<close>

lemma run_reaches:
  assumes "reachable_tab A t" and "tb_running t = None" and "n = Suc (st_done (pg_state (tb_page t)))" and "n \<le> LAST"
    and "\<And>p. pg_keys p = pg_keys (tb_page t) \<Longrightarrow> pg_auditorKeypair p = pg_auditorKeypair (tb_page t) \<Longrightarrow>
      \<exists>x. STEPS A n (tb_world t, p) = (Inr (), x)"
  shows "\<exists>p w. reachable_tab A (t\<lparr>tb_page := p, tb_world := w, tb_running := None\<rparr>) \<and> st_done (pg_state p) = n \<and>
    pg_keys p = pg_keys (tb_page t) \<and> pg_auditorKeypair p = pg_auditorKeypair (tb_page t) \<and> \<not> pg_busy p"
proof -
  note inv = reachable_inv [OF assms(1)]
  let ?p = "paint ((tb_page t)\<lparr>pg_busy := True\<rparr>)"
  let ?t = "t\<lparr>tb_page := ?p, tb_running := Some n\<rparr>"
  have idle: "\<not> pg_busy (tb_page t)" using inv assms(2) by (simp add: tab_inv_def Let_def)
  have n: "n \<in> {1..LAST}" using assms(3,4) by simp
  have "pg_enabled (tb_page t) n" using inv idle assms(3) by (simp add: tab_inv_def Let_def)
  moreover have "runBegin (tb_page t) = Some ?p" using idle by (simp add: runBegin_def)
  ultimately have "tab_step A t ?t" using n by (intro tab_step.click)
  then have reach: "reachable_tab A ?t" by (rule reachable_tab.tab_stepped [OF assms(1)])
  have same: "pg_keys ?p = pg_keys (tb_page t)" "pg_auditorKeypair ?p = pg_auditorKeypair (tb_page t)"
    by (simp_all add: paint_def Let_def)
  obtain w1 p1 where run: "STEPS A n (tb_world t, ?p) = (Inr (), (w1, p1))" using assms(5) [OF same] by auto
  have "tracked (n - 1) ?p ?p" using reachable_inv [OF reach] assms(3) by (simp add: tracked_def tab_inv_def Let_def)
  from STEPS_keeps [OF n run this] have kept: "shell p1 = shell ?p" "st_done (pg_state p1) = n - 1" by simp_all
  let ?p2 = "released (finished n p1)"
  have "runEnd A n (tb_world ?t, tb_page ?t) = (Inr (), (w1, ?p2))"
    using run by (simp add: runEnd_def io_bind_def)
  from tab_step.finish [OF _ this] have "tab_step A ?t (t\<lparr>tb_page := ?p2, tb_world := w1, tb_running := None\<rparr>)" by simp
  then have "reachable_tab A (t\<lparr>tb_page := ?p2, tb_world := w1, tb_running := None\<rparr>)"
    by (rule reachable_tab.tab_stepped [OF reach])
  moreover have "st_done (pg_state ?p2) = n" using kept by (simp add: finished_def)
  moreover have "pg_keys ?p2 = pg_keys p1" "pg_auditorKeypair ?p2 = pg_auditorKeypair p1"
    by (simp_all add: released_def finished_def paint_def say_def Let_def)
  ultimately show ?thesis using shell_facts [OF kept(1)] same by (intro exI [of _ ?p2] exI [of _ w1]) simp
qed

lemma late_reachable:
  "\<exists>t. reachable_tab A0 t \<and> tb_watch t = Asking \<and> \<not> pg_busy (tb_page t) \<and>
     st_done (pg_state (tb_page t)) = 2 \<and> pg_keys (tb_page t) = Some page_keys"
proof -
  let ?t0 = "opened A0 None True (0 :: nat)"
  have r0: "reachable_tab A0 ?t0" by (rule reachable_tab.first_visit)
  have t0: "tb_world ?t0 = 4" "pg_state (tb_page ?t0) = fst (fresh page_browser 0)"
      "tb_loading ?t0 = Loading_Keys" "tb_running ?t0 = None"
    by (simp_all add: opened_def openPage_def initialState_def parts0 fresh0 blank_page_def)
  let ?p1 = "(tb_page ?t0)\<lparr>pg_keys := Some page_keys\<rparr>"
  have "loadKeys A0 (tb_world ?t0, tb_page ?t0) = (Inr (), (5, ?p1))"
    using load0 [of "tb_page ?t0" 4] by (simp add: t0 fresh0)
  from tab_step.load_keys [OF t0(3) this] have r1:
    "reachable_tab A0 (?t0\<lparr>tb_page := ?p1, tb_world := 5, tb_loading := Loading_Auditor\<rparr>)" (is "reachable_tab _ ?t1")
    using reachable_tab.tab_stepped [OF r0] by simp
  let ?p2 = "announce (?p1\<lparr>pg_auditorKeypair := Some some_keypair\<rparr>)"
  have "loadAuditor A0 (tb_world ?t1, tb_page ?t1) = (Inr (), (5, ?p2))"
    using auditor0 [of "tb_page ?t1" 5] by simp
  moreover have "watching ?p2 = Asking" by (simp add: watching_def announce_def Let_def t0(2) fresh0)
  ultimately have "tab_step A0 ?t1 (?t1\<lparr>tb_page := ?p2, tb_world := 5, tb_loading := Loaded, tb_watch := Asking\<rparr>)"
    using tab_step.load_auditor [of ?t1 A0 "Inr ()" 5 ?p2] by simp
  then have r2: "reachable_tab A0 (?t1\<lparr>tb_page := ?p2, tb_world := 5, tb_loading := Loaded, tb_watch := Asking\<rparr>)"
    (is "reachable_tab _ ?t2") by (rule reachable_tab.tab_stepped [OF r1])
  have t2: "tb_running ?t2 = None" "tb_world ?t2 = 5" "pg_keys (tb_page ?t2) = Some page_keys"
      "pg_auditorKeypair (tb_page ?t2) = Some some_keypair" "st_done (pg_state (tb_page ?t2)) = 0"
    by (simp_all add: t0 fresh0 announce_def paint_def Let_def)
  have "\<exists>p w. reachable_tab A0 (?t2\<lparr>tb_page := p, tb_world := w, tb_running := None\<rparr>) \<and> st_done (pg_state p) = 1 \<and>
    pg_keys p = pg_keys (tb_page ?t2) \<and> pg_auditorKeypair p = pg_auditorKeypair (tb_page ?t2) \<and> \<not> pg_busy p"
    by (rule run_reaches [OF r2 t2(1)]) (use t2 step1_0 in \<open>simp_all add: LAST_def\<close>)
  then obtain p3 w3 where p3: "reachable_tab A0 (?t2\<lparr>tb_page := p3, tb_world := w3, tb_running := None\<rparr>)"
      "st_done (pg_state p3) = 1" "pg_keys p3 = Some page_keys" "pg_auditorKeypair p3 = Some some_keypair"
    using t2 by auto
  let ?t3 = "(?t2\<lparr>tb_page := p3, tb_world := w3, tb_running := None\<rparr>)\<lparr>tb_world := 5\<rparr>"
  have r3: "reachable_tab A0 ?t3"
    by (rule reachable_tab.tab_stepped [OF p3(1) tab_step.world])
  have "\<exists>p w. reachable_tab A0 (?t3\<lparr>tb_page := p, tb_world := w, tb_running := None\<rparr>) \<and> st_done (pg_state p) = 2 \<and>
    pg_keys p = pg_keys (tb_page ?t3) \<and> pg_auditorKeypair p = pg_auditorKeypair (tb_page ?t3) \<and> \<not> pg_busy p"
    by (rule run_reaches [OF r3]) (use p3 step2_0 in \<open>simp_all add: LAST_def\<close>)
  then obtain p4 w4 where p4: "reachable_tab A0 (?t3\<lparr>tb_page := p4, tb_world := w4, tb_running := None\<rparr>)"
      "st_done (pg_state p4) = 2" "pg_keys p4 = Some page_keys" "\<not> pg_busy p4"
    using p3 by auto
  then show ?thesis by (intro exI [of _ "?t3\<lparr>tb_page := p4, tb_world := w4, tb_running := None\<rparr>"]) simp
qed

theorem late_answer_undoes_steps_witness:
  "\<exists>t t'. reachable_tab A0 t \<and> st_done (pg_state (tb_page t)) = 2 \<and> tab_step A0 t t' \<and>
     st_done (pg_state (tb_page t')) = 1 \<and> pg_enabled (tb_page t') 2"
proof -
  obtain t where t: "reachable_tab A0 t" "tb_watch t = Asking" "\<not> pg_busy (tb_page t)"
      "st_done (pg_state (tb_page t)) = 2" "pg_keys (tb_page t) = Some page_keys"
    using late_reachable by blast
  have "MIN_SOL \<le> 1000000000" by (simp add: MIN_SOL_def)
  from late_answer_undoes_steps [OF t(2,3) sol0 [OF t(5)] this] t(1,4) show ?thesis by blast
qed

end
