(* ===== verification/Playground_Net.thy ===== *)
theory Playground_Net
  imports Playground_Errors
begin

text \<open>
  How the playground talks to the node: the subscriptions that \<open>src/playground/src/polling.js\<close> answers by
  asking over HTTP, and the wrapper of \<open>fetch\<close> in \<open>app.js\<close>. An asynchronous generator is the computation
  of its next value, from where it stopped: \<open>None\<close> is the end of the sequence, and a computation that
  never gets there has no value, since the loops are partial functions.
\<close>

section \<open>Loops that ask again\<close>

text \<open>A round ends the loop with a result, or leaves the world in which the next round starts.\<close>

definition goes_on :: "('w \<Rightarrow> 'r + 'w) \<Rightarrow> 'w \<Rightarrow> 'w \<Rightarrow> bool" where
  "goes_on round w w' \<longleftrightarrow> round w = Inr w'"

locale polling_loop =
  fixes round :: "'w \<Rightarrow> 'r + 'w" and loop :: "'w \<Rightarrow> 'r option"
  assumes unfold: "loop w = (case round w of Inl r \<Rightarrow> Some r | Inr w' \<Rightarrow> loop w')"
    and reached: "loop w = Some r \<Longrightarrow> \<exists>n v. (goes_on round ^^ n) w v \<and> round v = Inl r"
begin

lemma loop_after: "(goes_on round ^^ n) w v \<Longrightarrow> loop w = loop v"
proof (induction n arbitrary: w)
  case (Suc n)
  then obtain u where u: "goes_on round w u" "(goes_on round ^^ n) u v" by (blast dest: relpowp_Suc_D2)
  have "loop w = loop u" using u(1) unfold [of w] by (simp add: goes_on_def)
  then show ?case using Suc.IH [OF u(2)] by simp
qed simp

lemma loop_iff: "loop w = Some r \<longleftrightarrow> (\<exists>n v. (goes_on round ^^ n) w v \<and> round v = Inl r)"
proof
  assume "\<exists>n v. (goes_on round ^^ n) w v \<and> round v = Inl r"
  then obtain n v where "(goes_on round ^^ n) w v" "round v = Inl r" by blast
  then show "loop w = Some r" using loop_after unfold [of v] by simp
qed (rule reached)

lemma loop_forever: "loop w = None \<Longrightarrow> \<exists>v. (goes_on round ^^ n) w v"
proof (induction n)
  case (Suc n)
  then obtain v where v: "(goes_on round ^^ n) w v" by blast
  then have "loop v = None" using loop_after Suc.prems by simp
  then obtain u where "goes_on round v u" using unfold [of v] by (auto simp: goes_on_def split: sum.splits)
  with v show ?case by (auto intro: relpowp_Suc_I)
qed simp

end

section \<open>Polling\<close>

record signature_status =
  ss_slot :: int
  ss_err :: "string option"
  ss_confirmationStatus :: "string option"

record notification =
  nt_slot :: int
  nt_err :: "string option"

record slot_notification =
  sl_parent :: int
  sl_root :: int
  sl_slot :: int

text \<open>
  The node as polling uses it, the timer, and the signal to stop, which the surroundings may set at any
  time: it is read off the world.
\<close>

record 'w polling =
  po_getSignatureStatuses :: "signature list \<Rightarrow> ('w, signature_status option list) task"
  po_getSlot :: "('w, int) task"
  po_sleep :: "nat \<Rightarrow> 'w \<Rightarrow> 'w"
  po_aborted :: "'w \<Rightarrow> bool"

definition intervalOf :: "nat option \<Rightarrow> nat" where
  "intervalOf intervalMs = (case intervalMs of Some n \<Rightarrow> n | None \<Rightarrow> 1000)"

fun ORDER :: "string \<Rightarrow> nat option" where
  "ORDER s = (if s = ''processed'' then Some 0 else if s = ''confirmed'' then Some 1
     else if s = ''finalized'' then Some 2 else None)"

declare ORDER.simps [simp del]

text \<open>A comparison with \<open>undefined\<close> is false.\<close>

definition atLeast :: "string option \<Rightarrow> string \<Rightarrow> bool" where
  "atLeast status commitment \<longleftrightarrow>
     (case (Option.bind status ORDER, ORDER commitment) of (Some m, Some n) \<Rightarrow> n \<le> m | _ \<Rightarrow> False)"

definition settledStatus :: "string \<Rightarrow> signature_status option list \<Rightarrow> signature_status option" where
  "settledStatus commitment statuses =
     (case item statuses 0 of
        Some (Some status) \<Rightarrow>
          if ss_err status \<noteq> None \<or> atLeast (ss_confirmationStatus status) commitment then Some status else None
      | _ \<Rightarrow> None)"

definition notificationOf :: "signature_status \<Rightarrow> notification" where
  "notificationOf status = \<lparr>nt_slot = ss_slot status, nt_err = ss_err status\<rparr>"

partial_function (option) awaitSignature ::
  "'w polling \<Rightarrow> nat \<Rightarrow> signature \<Rightarrow> string \<Rightarrow> 'w \<Rightarrow> (notification option \<times> 'w) option" where
  "awaitSignature P intervalMs sig commitment w =
     (if po_aborted P w then Some (None, w)
      else case po_getSignatureStatuses P [sig] w of
          (Inl err, w1) \<Rightarrow>
            if po_aborted P w1 then Some (None, w1)
            else awaitSignature P intervalMs sig commitment (po_sleep P intervalMs w1)
        | (Inr statuses, w1) \<Rightarrow>
            (case settledStatus commitment statuses of
               Some status \<Rightarrow> Some (Some (notificationOf status), w1)
             | None \<Rightarrow> awaitSignature P intervalMs sig commitment (po_sleep P intervalMs w1)))"

partial_function (option) awaitSlot ::
  "'w polling \<Rightarrow> nat \<Rightarrow> 'w \<Rightarrow> (slot_notification option \<times> 'w) option" where
  "awaitSlot P intervalMs w =
     (if po_aborted P w then Some (None, w)
      else case po_getSlot P w of
          (Inl err, w1) \<Rightarrow>
            if po_aborted P w1 then Some (None, w1)
            else awaitSlot P intervalMs (po_sleep P (intervalMs * 2) w1)
        | (Inr slot, w1) \<Rightarrow>
            Some (Some \<lparr>sl_parent = slot - 1, sl_root = slot, sl_slot = slot\<rparr>, w1))"

text \<open>Where a generator stands between two of its values.\<close>

datatype generator = Fresh | Yielded | Ended

text \<open>The next value of a subscription, and where it stands after it.\<close>

definition nextSignature ::
  "'w polling \<Rightarrow> nat option \<Rightarrow> signature \<Rightarrow> string option \<Rightarrow> generator \<Rightarrow> 'w \<Rightarrow>
     ((notification option \<times> generator) \<times> 'w) option" where
  "nextSignature P intervalMs sig commitment g w =
     (case g of
        Fresh \<Rightarrow>
          map_option (\<lambda>(n, w'). ((n, if n = None then Ended else Yielded), w'))
            (awaitSignature P (intervalOf intervalMs) sig
              (case commitment of Some c \<Rightarrow> c | None \<Rightarrow> ''confirmed'') w)
      | _ \<Rightarrow> Some ((None, Ended), w))"

definition nextSlot ::
  "'w polling \<Rightarrow> nat option \<Rightarrow> generator \<Rightarrow> 'w \<Rightarrow> ((slot_notification option \<times> generator) \<times> 'w) option" where
  "nextSlot P intervalMs g w =
     (case g of
        Ended \<Rightarrow> Some ((None, Ended), w)
      | _ \<Rightarrow>
          map_option (\<lambda>(n, w'). ((n, if n = None then Ended else Yielded), w'))
            (awaitSlot P (intervalOf intervalMs)
              (if g = Yielded then po_sleep P (intervalOf intervalMs * 2) w else w)))"

section \<open>fetch\<close>

record request =
  rq_url :: string
  rq_body :: "string option"

record response =
  rs_status :: int
  rs_retryAfter :: "string option"
  rs_body :: string

record 'w network =
  nw_realFetch :: "request \<Rightarrow> ('w, response) task"
  nw_wait :: "js_number \<Rightarrow> 'w \<Rightarrow> 'w"

definition isAirdrop :: "request \<Rightarrow> bool" where
  "isAirdrop req \<longleftrightarrow>
     (case rq_body req of None \<Rightarrow> False | Some body \<Rightarrow> has_text (dquote @ ''requestAirdrop'' @ dquote) body)"

definition waitOf :: "response \<Rightarrow> nat \<Rightarrow> js_number" where
  "waitOf res attempt =
     js_times (js_plus (case rs_retryAfter res of Some s \<Rightarrow> number_of_text s | None \<Rightarrow> js_int 2)
       (js_int (int attempt))) (js_int 1000)"

definition waited :: "'w network \<Rightarrow> js_number \<Rightarrow> ('w, unit) task" where
  "waited N ms w = (Inr (), nw_wait N ms w)"

function fetchFrom :: "'w network \<Rightarrow> nat \<Rightarrow> bool \<Rightarrow> request \<Rightarrow> nat \<Rightarrow> ('w, response) task" where
  "fetchFrom N limit airdrop req attempt =
     io_bind (nw_realFetch N req) (\<lambda>res.
     if rs_status res \<noteq> 429 \<or> airdrop \<or> limit \<le> attempt then io_return res
     else io_bind (waited N (waitOf res attempt)) (\<lambda>_. fetchFrom N limit airdrop req (attempt + 1)))"
  by pat_completeness auto
termination
  by (relation "measure (\<lambda>(_, limit, _, _, attempt). limit - attempt)") auto

declare fetchFrom.simps [simp del]

definition playgroundFetch :: "'w network \<Rightarrow> request \<Rightarrow> ('w, response) task" where
  "playgroundFetch N req = fetchFrom N 6 (isAirdrop req) req 0"

text \<open>The wrapper of \<open>src/examples/devnet.ts\<close>.\<close>

definition devnetFetch :: "'w network \<Rightarrow> request \<Rightarrow> ('w, response) task" where
  "devnetFetch N req = fetchFrom N 8 False req 0"

section \<open>The loops are polling loops\<close>

text \<open>One round of a subscription to a signature, and of one to slots.\<close>

definition signatureRound ::
  "'w polling \<Rightarrow> nat \<Rightarrow> signature \<Rightarrow> string \<Rightarrow> 'w \<Rightarrow> (notification option \<times> 'w) + 'w" where
  "signatureRound P ms sig commitment w =
     (if po_aborted P w then Inl (None, w)
      else case po_getSignatureStatuses P [sig] w of
          (Inl err, w1) \<Rightarrow> if po_aborted P w1 then Inl (None, w1) else Inr (po_sleep P ms w1)
        | (Inr statuses, w1) \<Rightarrow>
            (case settledStatus commitment statuses of
               Some status \<Rightarrow> Inl (Some (notificationOf status), w1) | None \<Rightarrow> Inr (po_sleep P ms w1)))"

definition slotRound :: "'w polling \<Rightarrow> nat \<Rightarrow> 'w \<Rightarrow> (slot_notification option \<times> 'w) + 'w" where
  "slotRound P ms w =
     (if po_aborted P w then Inl (None, w)
      else case po_getSlot P w of
          (Inl err, w1) \<Rightarrow> if po_aborted P w1 then Inl (None, w1) else Inr (po_sleep P (ms * 2) w1)
        | (Inr slot, w1) \<Rightarrow> Inl (Some \<lparr>sl_parent = slot - 1, sl_root = slot, sl_slot = slot\<rparr>, w1))"

lemma signature_body:
  "(if po_aborted P w then Some (None, w)
    else case po_getSignatureStatuses P [sig] w of
        (Inl err, w1) \<Rightarrow> if po_aborted P w1 then Some (None, w1) else loop (po_sleep P ms w1)
      | (Inr statuses, w1) \<Rightarrow>
          (case settledStatus c statuses of
             Some status \<Rightarrow> Some (Some (notificationOf status), w1) | None \<Rightarrow> loop (po_sleep P ms w1))) =
   (case signatureRound P ms sig c w of Inl r \<Rightarrow> Some r | Inr u \<Rightarrow> loop u)"
  by (simp add: signatureRound_def split: prod.splits sum.splits option.splits)

lemma slot_body:
  "(if po_aborted P w then Some (None, w)
    else case po_getSlot P w of
        (Inl err, w1) \<Rightarrow> if po_aborted P w1 then Some (None, w1) else loop (po_sleep P (ms * 2) w1)
      | (Inr slot, w1) \<Rightarrow> Some (Some \<lparr>sl_parent = slot - 1, sl_root = slot, sl_slot = slot\<rparr>, w1)) =
   (case slotRound P ms w of Inl r \<Rightarrow> Some r | Inr u \<Rightarrow> loop u)"
  by (simp add: slotRound_def split: prod.splits sum.splits)

text \<open>A loop that has a value reached it after finitely many rounds.\<close>

lemma rounds_reached:
  assumes "case round w of Inl a \<Rightarrow> a = r
    | Inr u \<Rightarrow> \<exists>n v. (goes_on round ^^ n) u v \<and> round v = Inl r"
  shows "\<exists>n v. (goes_on round ^^ n) w v \<and> round v = Inl r"
proof (cases "round w")
  case (Inl a)
  then show ?thesis using assms by (intro exI [of _ "0 :: nat"] exI [of _ w]) simp
next
  case (Inr u)
  then obtain n v where "(goes_on round ^^ n) u v" "round v = Inl r" using assms by auto
  moreover have "goes_on round w u" using Inr by (simp add: goes_on_def)
  ultimately show ?thesis by (blast intro: relpowp_Suc_I2)
qed

lemma awaitSignature_reached:
  assumes "awaitSignature P ms sig c w = Some r"
  shows "\<exists>n v. (goes_on (signatureRound P ms sig c) ^^ n) w v \<and> signatureRound P ms sig c v = Inl r"
proof -
  let ?Q = "\<lambda>((((P, ms), sig), c), w) r.
    \<exists>n v. (goes_on (signatureRound P ms sig c) ^^ n) w v \<and> signatureRound P ms sig c v = Inl r"
  have "?Q ((((P, ms), sig), c), w) r"
  proof (rule awaitSignature.raw_induct [where Pa = ?Q, OF _ assms])
    fix loop :: "'a polling \<Rightarrow> nat \<Rightarrow> signature \<Rightarrow> string \<Rightarrow> 'a \<Rightarrow> (notification option \<times> 'a) option"
    fix P ms sig c w r
    assume IH: "\<And>P ms sig c w y. loop P ms sig c w = Some y \<Longrightarrow> ?Q ((((P, ms), sig), c), w) y"
      and run: "(if po_aborted P w then Some (None, w)
        else case po_getSignatureStatuses P [sig] w of
            (Inl err, w1) \<Rightarrow> if po_aborted P w1 then Some (None, w1) else loop P ms sig c (po_sleep P ms w1)
          | (Inr statuses, w1) \<Rightarrow>
              (case settledStatus c statuses of
                 Some status \<Rightarrow> Some (Some (notificationOf status), w1)
               | None \<Rightarrow> loop P ms sig c (po_sleep P ms w1))) = Some r"
    have "(case signatureRound P ms sig c w of Inl r \<Rightarrow> Some r | Inr u \<Rightarrow> loop P ms sig c u) = Some r"
      by (rule trans [OF signature_body [symmetric] run])
    then show "?Q ((((P, ms), sig), c), w) r"
      unfolding split_conv by (intro rounds_reached) (use IH in \<open>auto split: sum.splits\<close>)
  qed
  then show ?thesis by simp
qed

lemma awaitSlot_reached:
  assumes "awaitSlot P ms w = Some r"
  shows "\<exists>n v. (goes_on (slotRound P ms) ^^ n) w v \<and> slotRound P ms v = Inl r"
proof -
  let ?Q = "\<lambda>((P, ms), w) r. \<exists>n v. (goes_on (slotRound P ms) ^^ n) w v \<and> slotRound P ms v = Inl r"
  have "?Q ((P, ms), w) r"
  proof (rule awaitSlot.raw_induct [where Pa = ?Q, OF _ assms])
    fix loop :: "'a polling \<Rightarrow> nat \<Rightarrow> 'a \<Rightarrow> (slot_notification option \<times> 'a) option" and P ms w r
    assume IH: "\<And>P ms w y. loop P ms w = Some y \<Longrightarrow> ?Q ((P, ms), w) y"
      and run: "(if po_aborted P w then Some (None, w)
        else case po_getSlot P w of
            (Inl err, w1) \<Rightarrow> if po_aborted P w1 then Some (None, w1) else loop P ms (po_sleep P (ms * 2) w1)
          | (Inr slot, w1) \<Rightarrow> Some (Some \<lparr>sl_parent = slot - 1, sl_root = slot, sl_slot = slot\<rparr>, w1)) = Some r"
    have "(case slotRound P ms w of Inl r \<Rightarrow> Some r | Inr u \<Rightarrow> loop P ms u) = Some r"
      by (rule trans [OF slot_body [symmetric] run])
    then show "?Q ((P, ms), w) r"
      unfolding split_conv by (intro rounds_reached) (use IH in \<open>auto split: sum.splits\<close>)
  qed
  then show ?thesis by simp
qed

interpretation signature_loop: polling_loop "signatureRound P ms sig c" "awaitSignature P ms sig c" for P ms sig c
proof
  fix w show "awaitSignature P ms sig c w =
      (case signatureRound P ms sig c w of Inl r \<Rightarrow> Some r | Inr u \<Rightarrow> awaitSignature P ms sig c u)"
    by (subst awaitSignature.simps) (rule signature_body)
qed (rule awaitSignature_reached)

interpretation slot_loop: polling_loop "slotRound P ms" "awaitSlot P ms" for P ms
proof
  fix w show "awaitSlot P ms w = (case slotRound P ms w of Inl r \<Rightarrow> Some r | Inr u \<Rightarrow> awaitSlot P ms u)"
    by (subst awaitSlot.simps) (rule slot_body)
qed (rule awaitSlot_reached)

section \<open>Confirmations\<close>

text \<open>
  A request in vain: the signal is not set, and the request failed, without the signal being set then, or its
  answer does not hold a status that is settled. The next one is sent after the interval.
\<close>

definition in_vain :: "'w polling \<Rightarrow> nat \<Rightarrow> signature \<Rightarrow> string \<Rightarrow> 'w \<Rightarrow> 'w \<Rightarrow> bool" where
  "in_vain P ms sig c w w' \<longleftrightarrow> \<not> po_aborted P w \<and>
     (\<exists>r w1. po_getSignatureStatuses P [sig] w = (r, w1) \<and> w' = po_sleep P ms w1 \<and>
        (case r of Inl e \<Rightarrow> \<not> po_aborted P w1 | Inr statuses \<Rightarrow> settledStatus c statuses = None))"

lemma goes_on_signature: "goes_on (signatureRound P ms sig c) = in_vain P ms sig c"
  by (intro ext) (auto simp: goes_on_def signatureRound_def in_vain_def split: prod.splits sum.splits option.splits)

lemma signatureRound_notifies:
  "signatureRound P ms sig c v = Inl (Some n, w') \<longleftrightarrow>
     \<not> po_aborted P v \<and> (\<exists>statuses status. po_getSignatureStatuses P [sig] v = (Inr statuses, w') \<and>
       settledStatus c statuses = Some status \<and> n = notificationOf status)"
  by (auto simp: signatureRound_def split: prod.splits sum.splits option.splits)

lemma settledStatus_Some:
  "settledStatus c statuses = Some st \<longleftrightarrow> item statuses 0 = Some (Some st) \<and>
     ((\<exists>e. ss_err st = Some e) \<or> (\<exists>s m n. ss_confirmationStatus st = Some s \<and> ORDER s = Some m \<and> ORDER c = Some n \<and> n \<le> m))"
  by (auto simp: settledStatus_def atLeast_def split: option.splits bind_splits)

text \<open>C23: A confirmation is notified as soon as a request sees it, and never otherwise. The subscription to a
  signature gives a notification exactly when, after finitely many requests in vain, a request is answered
  with a status of the transaction that has an error or has reached the commitment; the notification is
  that status. Failed requests do not end it, and it ends after the one notification.\<close>

theorem confirmation_notified_exactly:
  "nextSignature P ms sig commitment Fresh w = Some ((Some n, g), w') \<longleftrightarrow>
     g = Yielded \<and>
     (\<exists>k v statuses st. (in_vain P (intervalOf ms) sig (case commitment of Some c \<Rightarrow> c | None \<Rightarrow> ''confirmed'') ^^ k) w v \<and>
        \<not> po_aborted P v \<and> po_getSignatureStatuses P [sig] v = (Inr statuses, w') \<and>
        item statuses 0 = Some (Some st) \<and> n = \<lparr>nt_slot = ss_slot st, nt_err = ss_err st\<rparr> \<and>
        ((\<exists>e. ss_err st = Some e) \<or> (\<exists>s reached wanted. ss_confirmationStatus st = Some s \<and> ORDER s = Some reached \<and>
          ORDER (case commitment of Some c \<Rightarrow> c | None \<Rightarrow> ''confirmed'') = Some wanted \<and> wanted \<le> reached))) \<and>
     nextSignature P ms sig commitment Yielded w' = Some ((None, Ended), w')"
proof -
  let ?c = "case commitment of Some c \<Rightarrow> c | None \<Rightarrow> ''confirmed''"
  have "nextSignature P ms sig commitment Fresh w = Some ((Some n, g), w') \<longleftrightarrow>
      g = Yielded \<and> awaitSignature P (intervalOf ms) sig ?c w = Some (Some n, w')"
    by (auto simp: nextSignature_def)
  then show ?thesis
    unfolding signature_loop.loop_iff goes_on_signature signatureRound_notifies settledStatus_Some
    by (simp add: nextSignature_def notificationOf_def) blast
qed

section \<open>Requests that are repeated\<close>

text \<open>The world after \<open>k\<close> answers of 429, each waited for.\<close>

primrec tried :: "'w network \<Rightarrow> request \<Rightarrow> nat \<Rightarrow> 'w \<Rightarrow> 'w \<Rightarrow> bool" where
  "tried N req 0 w v \<longleftrightarrow> v = w"
| "tried N req (Suc k) w v \<longleftrightarrow> (\<exists>u res u1. tried N req k w u \<and> nw_realFetch N req u = (Inr res, u1) \<and>
     rs_status res = 429 \<and> v = nw_wait N (waitOf res k) u1)"

lemma fetchFrom_tried:
  "attempt \<le> bound \<Longrightarrow> bound = (if airdrop then attempt else max limit attempt) \<Longrightarrow> tried N req attempt w0 w \<Longrightarrow>
   fetchFrom N limit airdrop req attempt w = (r, w') \<Longrightarrow>
   \<exists>k v. attempt \<le> k \<and> k \<le> bound \<and> tried N req k w0 v \<and> nw_realFetch N req v = (r, w') \<and>
     (\<forall>res. r = Inr res \<longrightarrow> rs_status res \<noteq> 429 \<or> k = bound)"
proof (induction N limit airdrop req attempt arbitrary: w rule: fetchFrom.induct)
  case (1 N limit airdrop req attempt)
  obtain x w1 where ask: "nw_realFetch N req w = (x, w1)" by force
  show ?case
  proof (cases "\<exists>res. x = Inr res \<and> rs_status res = 429 \<and> \<not> airdrop \<and> \<not> limit \<le> attempt")
    case True
    then obtain res where res: "x = Inr res" "rs_status res = 429" "\<not> airdrop" "\<not> limit \<le> attempt" by blast
    let ?u = "nw_wait N (waitOf res attempt) w1"
    have "fetchFrom N limit airdrop req attempt w = fetchFrom N limit airdrop req (attempt + 1) ?u"
      by (subst fetchFrom.simps) (simp add: ask res waited_def)
    then have run: "fetchFrom N limit airdrop req (attempt + 1) ?u = (r, w')" using "1.prems"(4) by simp
    have tried: "tried N req (attempt + 1) w0 ?u"
      using "1.prems"(3) ask res by auto
    have "attempt + 1 \<le> bound" "bound = (if airdrop then attempt + 1 else max limit (attempt + 1))"
      using "1.prems"(1,2) res by (auto simp: max_def)
    from "1.IH" [of res ?u, OF _ this tried run] res
    obtain k v where "attempt + 1 \<le> k" "k \<le> bound" "tried N req k w0 v"
        "nw_realFetch N req v = (r, w')" "\<forall>res. r = Inr res \<longrightarrow> rs_status res \<noteq> 429 \<or> k = bound"
      by auto
    then show ?thesis by (intro exI [of _ k] exI [of _ v]) simp
  next
    case False
    then have "(r, w') = (x, w1)"
      using "1.prems"(4) ask by (cases x) (auto simp: fetchFrom.simps [of N limit airdrop req attempt])
    then show ?thesis
      using False ask "1.prems" by (intro exI [of _ attempt] exI [of _ w]) (auto simp: max_def split: if_splits)
  qed
qed


lemma devnet_tried:
  assumes "devnetFetch N req w = (r, w')"
  shows "\<exists>k v. k \<le> 8 \<and> tried N req k w v \<and> nw_realFetch N req v = (r, w') \<and>
     (\<forall>res. r = Inr res \<longrightarrow> rs_status res \<noteq> 429 \<or> k = 8)"
  using fetchFrom_tried [of 0 8 False 8 N req w w r w'] assms by (simp add: devnetFetch_def)

text \<open>A node that is always busy; the world counts the requests.\<close>

definition busy_network :: "nat network" where
  "busy_network = \<lparr>nw_realFetch = (\<lambda>_ n. (Inr \<lparr>rs_status = 429, rs_retryAfter = Some ''1'', rs_body = []\<rparr>, Suc n)),
     nw_wait = (\<lambda>_ n. n)\<rparr>"

definition some_request :: request where
  "some_request = \<lparr>rq_url = ''https://api.devnet.solana.com'', rq_body = Some ''getBalance''\<rparr>"

lemma busy_tried: "tried busy_network req k 0 v \<longleftrightarrow> v = k"
  by (induction k arbitrary: v) (auto simp: busy_network_def)


text \<open>A date in the header, which the protocol allows, is not a number, and the wait is none.\<close>

lemma date_not_waited:
  "waitOf \<lparr>rs_status = 429, rs_retryAfter = Some ''Wed, 21 Oct 2026 07:28:00 GMT'', rs_body = []\<rparr> n = NaN"
proof -
  have "number_of_text ''Wed, 21 Oct 2026 07:28:00 GMT'' = NaN" by code_simp
  then show ?thesis by (simp add: waitOf_def js_int_def)
qed

end
