(* ===== verification/Wallet_Units.thy ===== *)
theory Wallet_Units
  imports Csv Doubles
begin

text \<open>
  The amounts of the wallet application (\<open>toBaseUnits\<close> and \<open>fromBaseUnits\<close> of
  \<open>src/examples/vite/src/main.ts\<close>): an amount typed in tokens is turned into base units, and base
  units are shown in tokens.
\<close>

section \<open>Amounts as text\<close>

text \<open>The match of \<open>/^(\d+)(?:\.(\d+))?$/\<close>: the digits before and after the point.\<close>

definition amountMatch :: "string \<Rightarrow> (string \<times> string option) option" where
  "amountMatch s =
     (let whole = takeWhile (digit_in 10) s in
      if whole = [] then None
      else case dropWhile (digit_in 10) s of
          [] \<Rightarrow> Some (whole, None)
        | c # fraction \<Rightarrow>
            if c = CHR ''.'' \<and> fraction \<noteq> [] \<and> list_all (digit_in 10) fraction
            then Some (whole, Some fraction) else None)"

definition padEnd :: "nat \<Rightarrow> char \<Rightarrow> string \<Rightarrow> string" where
  "padEnd n c s = s @ replicate (n - length s) c"

definition toBaseUnits :: "string \<Rightarrow> nat \<Rightarrow> exn + int" where
  "toBaseUnits s decimals =
     (let wrong = Js_Error ''Error'' (''Enter an amount with at most '' @ show_nat decimals @ '' decimals.'') in
      case amountMatch s of
        None \<Rightarrow> Inl wrong
      | Some (whole, fraction) \<Rightarrow>
          if decimals < (case fraction of None \<Rightarrow> 0 | Some f \<Rightarrow> length f) then Inl wrong
          else result_bind
            (bigint_of_text (whole @ padEnd decimals (CHR ''0'') (case fraction of None \<Rightarrow> [] | Some f \<Rightarrow> f)))
            (\<lambda>amount. if amount = 0 then Inl (Js_Error ''Error'' ''Enter an amount above zero.'') else Inr amount))"

definition fromBaseUnits :: "int \<Rightarrow> nat \<Rightarrow> string" where
  "fromBaseUnits amount decimals =
     (if decimals = 0 then show_int amount
      else
        let s = padStart (decimals + 1) (CHR ''0'') (show_int amount); n = length s - decimals in
        take n s @ ''.'' @ drop n s)"

section \<open>Digits\<close>

lemma digit_digits: "d < 10 \<Longrightarrow> digit_in 10 (digit d) \<and> digit_value (digit d) = Some d"
proof -
  have "list_all (\<lambda>d. digit_in 10 (digit d) \<and> digit_value (digit d) = Some d) [0..<10]" by code_simp
  then show "d < 10 \<Longrightarrow> ?thesis" by (simp add: list_all_iff)
qed

lemma show_nat_digits: "list_all (digit_in 10) (show_nat n)"
proof (induction n rule: show_nat.induct)
  case (1 n)
  then show ?case by (subst show_nat.simps) (simp add: digit_digits)
qed

lemma read_base_step: "foldl (\<lambda>a c. a * b + (case digit_value c of Some v \<Rightarrow> v | None \<Rightarrow> 0)) k s =
    k * b ^ length s + read_base b s"
proof (induction s rule: rev_induct)
  case (snoc c s)
  then show ?case by (simp add: read_base_def algebra_simps)
qed (simp add: read_base_def)

lemma read_base_parts: "read_base b (s @ t) = read_base b s * b ^ length t + read_base b t"
proof -
  have "read_base b (s @ t) =
      foldl (\<lambda>a c. a * b + (case digit_value c of Some v \<Rightarrow> v | None \<Rightarrow> 0)) (read_base b s) t"
    by (simp add: read_base_def)
  then show ?thesis by (simp only: read_base_step)
qed

lemma zero_digit: "digit_in 10 (CHR ''0'')" "digit_value (CHR ''0'') = Some 0"
  by code_simp+

lemma zeros_digits [simp]: "list_all (digit_in 10) (replicate n (CHR ''0''))"
  by (induction n) (simp_all add: zero_digit)

lemma read_base_zeros: "read_base 10 (replicate n (CHR ''0'')) = 0"
proof (induction n)
  case (Suc n)
  then show ?case
    using read_base_parts [of 10 "[CHR ''0'']" "replicate n (CHR ''0'')"]
    by (simp add: read_base_def zero_digit)
qed (simp add: read_base_def)

lemma read_base_show: "read_base 10 (show_nat n) = n"
proof (induction n rule: show_nat.induct)
  case (1 n)
  then show ?case
    by (subst show_nat.simps) (simp add: read_base_parts, simp add: read_base_def digit_digits)
qed

lemma bigint_digits:
  assumes "list_all (digit_in 10) s" and "s \<noteq> []"
  shows "bigint_of_text s = Inr (int (read_base 10 s))"
proof -
  obtain c t where s: "s = c # t" using assms(2) by (cases s) auto
  have c: "digit_in 10 c" using assms(1) s by simp
  have "digit_in 10 (last s)" using assms by (simp add: list_all_iff)
  then have "trim s = s"
    using assms(2) s c digit_not_white by (intro trim_tight) auto
  moreover have "prefixed s = None"
    by (cases t) (use s assms(1) digit_not_prefix in \<open>auto\<close>)
  ultimately show ?thesis
    using assms s split_sign_digits [OF c] by (simp add: bigint_of_text_def digits_only_def)
qed

section \<open>What is typed and what is shown\<close>

text \<open>The reference: digits, and after a point more digits.\<close>

definition decimal_text :: "string \<Rightarrow> string \<Rightarrow> string \<Rightarrow> bool" where
  "decimal_text s w f \<longleftrightarrow> w \<noteq> [] \<and> list_all (digit_in 10) w \<and> list_all (digit_in 10) f \<and>
     s = (if f = [] then w else w @ ''.'' @ f)"

definition or_no_digits :: "string option \<Rightarrow> string" where
  "or_no_digits f = (case f of None \<Rightarrow> [] | Some g \<Rightarrow> g)"

lemma split_point:
  assumes "list_all (digit_in 10) w"
  shows "takeWhile (digit_in 10) (w @ CHR ''.'' # f) = w" "dropWhile (digit_in 10) (w @ CHR ''.'' # f) = CHR ''.'' # f"
  using assms point_not_digit
  by (induction w) auto

lemma amountMatch_decimal:
  assumes "decimal_text s w f"
  shows "amountMatch s = Some (w, if f = [] then None else Some f)"
proof -
  have w: "w \<noteq> []" "list_all (digit_in 10) w" "list_all (digit_in 10) f" "s = (if f = [] then w else w @ ''.'' @ f)"
    using assms by (simp_all add: decimal_text_def)
  show ?thesis
  proof (cases "f = []")
    case True
    then show ?thesis
      using w(1,4) by (simp add: amountMatch_def takeWhile_all [OF w(2)] dropWhile_all [OF w(2)])
  next
    case False
    then show ?thesis
      using w(1,3,4) split_point [OF w(2), of f] by (simp add: amountMatch_def)
  qed
qed

lemma decimal_amountMatch:
  assumes "amountMatch s = Some (w, f)"
  shows "decimal_text s w (or_no_digits f)"
proof -
  obtain u r where u: "takeWhile (digit_in 10) s = u" and r: "dropWhile (digit_in 10) s = r" by blast
  have s: "s = u @ r" using takeWhile_dropWhile_id [of "digit_in 10" s] u r by simp
  have "list_all (digit_in 10) (takeWhile (digit_in 10) s)" by (auto simp: list_all_iff dest: set_takeWhileD)
  then have digits: "list_all (digit_in 10) u" by (simp only: u)
  have match: "(if u = [] then None else case r of [] \<Rightarrow> Some (u, None)
      | c # g \<Rightarrow> if c = CHR ''.'' \<and> g \<noteq> [] \<and> list_all (digit_in 10) g then Some (u, Some g) else None) = Some (w, f)"
    using assms by (simp only: amountMatch_def Let_def u r)
  show ?thesis
  proof (cases r)
    case Nil
    with match s digits show ?thesis by (simp add: decimal_text_def or_no_digits_def split: if_splits)
  next
    case (Cons c g)
    with match have "u \<noteq> []" "w = u" "f = Some g" "c = CHR ''.''" "g \<noteq> []" "list_all (digit_in 10) g"
      by (simp_all split: if_splits)
    with s digits Cons show ?thesis by (simp add: decimal_text_def or_no_digits_def)
  qed
qed

definition units_of :: "string \<Rightarrow> string \<Rightarrow> nat \<Rightarrow> nat" where
  "units_of w f d = read_base 10 w * 10 ^ d + read_base 10 f * 10 ^ (d - length f)"

lemma padded_units:
  assumes "list_all (digit_in 10) w" "w \<noteq> []" "list_all (digit_in 10) f" "length f \<le> d"
  shows "bigint_of_text (w @ padEnd d (CHR ''0'') f) = Inr (int (units_of w f d))"
proof -
  let ?s = "w @ padEnd d (CHR ''0'') f"
  have "list_all (digit_in 10) ?s" using assms(1,3) by (simp add: padEnd_def)
  moreover have "read_base 10 ?s = units_of w f d"
    using assms(4) by (simp add: padEnd_def units_of_def read_base_parts read_base_zeros power_add [symmetric])
  ultimately show ?thesis using bigint_digits [of ?s] assms(2) by simp
qed

lemma toBaseUnits_decimal:
  assumes "decimal_text s w f"
  shows "toBaseUnits s d =
    (if d < length f then Inl (Js_Error ''Error'' (''Enter an amount with at most '' @ show_nat d @ '' decimals.''))
     else if units_of w f d = 0 then Inl (Js_Error ''Error'' ''Enter an amount above zero.'')
     else Inr (int (units_of w f d)))"
proof -
  have parts: "list_all (digit_in 10) w" "w \<noteq> []" "list_all (digit_in 10) f"
    using assms by (simp_all add: decimal_text_def)
  show ?thesis
    using amountMatch_decimal [OF assms] padded_units [OF parts, of d]
    by (cases "f = []") (auto simp: toBaseUnits_def Let_def not_less)
qed

lemma toBaseUnits_units:
  "toBaseUnits s d = Inr a \<longleftrightarrow>
     0 < a \<and> (\<exists>w f. decimal_text s w f \<and> length f \<le> d \<and> a = int (units_of w f d))"
proof
  assume a: "toBaseUnits s d = Inr a"
  then obtain w f where "amountMatch s = Some (w, f)"
    by (auto simp: toBaseUnits_def Let_def split: option.splits)
  then have dec: "decimal_text s w (or_no_digits f)" by (rule decimal_amountMatch)
  with a show "0 < a \<and> (\<exists>w f. decimal_text s w f \<and> length f \<le> d \<and> a = int (units_of w f d))"
    unfolding toBaseUnits_decimal [OF dec]
    by (intro conjI exI [of _ w] exI [of _ "or_no_digits f"]) (auto split: if_splits)
next
  assume "0 < a \<and> (\<exists>w f. decimal_text s w f \<and> length f \<le> d \<and> a = int (units_of w f d))"
  then show "toBaseUnits s d = Inr a" using toBaseUnits_decimal by fastforce
qed

lemma fromBaseUnits_decimal:
  assumes "0 \<le> a"
  shows "\<exists>w f. decimal_text (fromBaseUnits a d) w f \<and> length f = d \<and> units_of w f d = nat a"
proof (cases "d = 0")
  case True
  have "list_all (digit_in 10) (show_nat (nat a))" by (rule show_nat_digits)
  then show ?thesis
    using True assms
    by (intro exI [of _ "show_nat (nat a)"] exI [of _ "[]"])
      (simp add: fromBaseUnits_def decimal_text_def show_int_def units_of_def read_base_show, simp add: read_base_def)
next
  case False
  let ?s = "padStart (d + 1) (CHR ''0'') (show_int a)"
  let ?n = "length ?s - d"
  have digits: "list_all (digit_in 10) ?s"
    using assms show_nat_digits [of "nat a"] by (simp add: padStart_def show_int_def)
  have len: "d < length ?s" by simp
  then have lens: "take ?n ?s \<noteq> []" "length (drop ?n ?s) = d" by (fastforce simp only: take_eq_Nil length_drop list.size)+
  have "drop ?n ?s \<noteq> []" using lens(2) False by auto
  moreover have "list_all (digit_in 10) (take ?n ?s)" "list_all (digit_in 10) (drop ?n ?s)"
    using digits by (auto simp: list_all_iff dest: in_set_takeD in_set_dropD)
  moreover have "fromBaseUnits a d = take ?n ?s @ ''.'' @ drop ?n ?s"
    using False unfolding fromBaseUnits_def Let_def by simp
  ultimately have "decimal_text (fromBaseUnits a d) (take ?n ?s) (drop ?n ?s)"
    using lens(1) by (simp only: decimal_text_def if_False) blast
  moreover have "read_base 10 ?s = nat a"
    using assms by (simp add: padStart_def read_base_parts read_base_zeros show_int_def read_base_show)
  then have "units_of (take ?n ?s) (drop ?n ?s) d = nat a"
    using read_base_parts [of 10 "take ?n ?s" "drop ?n ?s"]
    by (simp only: units_of_def lens(2) append_take_drop_id diff_self_eq_0 power_0 mult_1_right)
  ultimately show ?thesis using lens(2) by blast
qed

lemma shown_units: "0 < a \<Longrightarrow> toBaseUnits (fromBaseUnits a d) d = Inr a"
proof -
  assume a: "0 < a"
  then obtain w f where "decimal_text (fromBaseUnits a d) w f" "length f = d" "units_of w f d = nat a"
    using fromBaseUnits_decimal [of a d] by auto
  with a show ?thesis unfolding toBaseUnits_units by force
qed

text \<open>The amounts of the auditor's CSV are those the application shows.\<close>

lemma fromBaseUnits_formatUnits: "fromBaseUnits = formatUnits"
  by (intro ext) (simp add: fromBaseUnits_def formatUnits_def)

interpretation units_codec: codec "\<lambda>a. 0 < a" "\<lambda>a. fromBaseUnits a d"
    "\<lambda>s. case toBaseUnits s d of Inl _ \<Rightarrow> None | Inr a \<Rightarrow> Some a" for d
  by unfold_locales (simp add: shown_units)

section \<open>Properties\<close>

text \<open>C33: An amount is accepted exactly when it is digits, or digits, a point and at most as many digits
  as the mint has decimals, and its value is above zero; and what is accepted is that value in base
  units, without any rounding.\<close>

theorem typed_units_exact:
  "toBaseUnits s d = Inr a \<longleftrightarrow>
     0 < a \<and> (\<exists>w f. decimal_text s w f \<and> length f \<le> d \<and>
       a = int (read_base 10 w * 10 ^ d + read_base 10 f * 10 ^ (d - length f)))"
  using toBaseUnits_units [of s d a] by (simp only: units_of_def)

text \<open>What the application shows can be typed: a positive balance, shown in tokens, is read back as
  the same base units; so it is when it is taken from the auditor's CSV.\<close>

theorem shown_amount_reads_back:
  assumes "0 < a"
  shows "toBaseUnits (fromBaseUnits a d) d = Inr a \<and> toBaseUnits (formatUnits a d) d = Inr a"
  using shown_units [OF assms] by (simp add: fromBaseUnits_formatUnits)

theorem shown_amount_reads_back_witness: "toBaseUnits (fromBaseUnits 1500 6) 6 = Inr 1500"
  using shown_amount_reads_back [of 1500 6] by simp

end
