(* ===== verification/Wallet_App.thy ===== *)
theory Wallet_App
  imports Wallet_Units Transfers
begin

text \<open>
  The wallet application (\<open>src/examples/vite/src/main.ts\<close> and \<open>wallet.ts\<close>): connecting a wallet, unlocking
  the confidential balance, and the buttons that call the SDK. The variables of the module and what the
  page shows are a record \<open>ui\<close> beside the world; the input fields belong to the world, since the
  visitor may type at any time. A handler is a computation on both, and \<open>app_step\<close> interleaves them.
\<close>

section \<open>Wallets\<close>

record std_wallet =
  sw_name :: string
  sw_chains :: "string list"
  sw_features :: "string list"

record wallet_account =
  wk_address :: address
  wk_chains :: "string list"

record wallet_choice =
  wc_wallet :: std_wallet
  wc_canSignMessages :: bool

text \<open>
  What the application uses beside the SDK: the name of the feature to connect, the wallet's \<open>connect\<close>, the signer made for an account,
  kit's \<open>isAddress\<close>, and the value of an input field.
\<close>

record 'w wallets =
  wl_StandardConnect :: string
  wl_connect :: "std_wallet \<Rightarrow> ('w, wallet_account list) task"
  wl_signer :: "std_wallet \<Rightarrow> wallet_account \<Rightarrow> string \<Rightarrow> exn + signer"
  wl_isAddress :: "string \<Rightarrow> bool"
  wl_value :: "string \<Rightarrow> 'w \<Rightarrow> string"

record ('w, 'p) wallet_services =
  ws_points :: "'p ristretto"
  ws_kit :: "'w kit"
  ws_zk :: "'w zk"
  ws_rpc :: "'w rpc"
  ws_wallets :: "'w wallets"
  ws_chain :: string

definition offered :: "'w wallets \<Rightarrow> string \<Rightarrow> std_wallet list \<Rightarrow> wallet_choice list" where
  "offered W chain ws =
     map (\<lambda>w. \<lparr>wc_wallet = w, wc_canSignMessages = ''solana:signMessage'' \<in> set (sw_features w)\<rparr>)
       (filter (\<lambda>w. chain \<in> set (sw_chains w) \<and> wl_StandardConnect W \<in> set (sw_features w) \<and>
          ''solana:signTransaction'' \<in> set (sw_features w)) ws)"

definition connectWallet :: "'w wallets \<Rightarrow> std_wallet \<Rightarrow> string \<Rightarrow> ('w, signer) task" where
  "connectWallet W wallet chain =
     io_bind (wl_connect W wallet) (\<lambda>accounts.
     case (case find (\<lambda>a. chain \<in> set (wk_chains a)) accounts of
             Some a \<Rightarrow> Some a
           | None \<Rightarrow> (case accounts of [] \<Rightarrow> None | a # _ \<Rightarrow> Some a)) of
       None \<Rightarrow> io_throw (Js_Error ''Error'' (sw_name wallet @ '' did not share an account''))
     | Some account \<Rightarrow> io_of (wl_signer W wallet account chain))"

section \<open>The page\<close>

datatype ui_state = Ui_Idle | Ui_Busy | Ui_Done | Ui_Error

record ui =
  ui_signer :: "signer option"
  ui_keys :: "keypairs option"
  ui_mintDecimals :: "(address \<times> nat) option"
  ui_busy :: bool
  ui_status :: "ui_state \<times> string"
  ui_log :: "string list"
  ui_shown :: "string \<Rightarrow> string"
  ui_wallets :: "wallet_choice list"
  ui_walletsEnabled :: bool
  ui_unlockEnabled :: bool
  ui_keyedEnabled :: bool

type_synonym ('w, 'a) ui_act = "('w \<times> ui, 'a) task"

definition dash :: string where "dash = [CHR 0xE2, CHR 0x80, CHR 0x94]"
definition ellipsis :: string where "ellipsis = [CHR 0xE2, CHR 0x80, CHR 0xA6]"

definition setStatus :: "ui_state \<Rightarrow> string \<Rightarrow> ui \<Rightarrow> ui" where
  "setStatus state s u = u\<lparr>ui_status := (state, s)\<rparr>"

definition show_in :: "string \<Rightarrow> string \<Rightarrow> ui \<Rightarrow> ui" where
  "show_in field s u = u\<lparr>ui_shown := (ui_shown u)(field := s)\<rparr>"

definition logLine :: "string \<Rightarrow> ui \<Rightarrow> ui" where
  "logLine line u = u\<lparr>ui_log := line # ui_log u\<rparr>"

definition inputOf :: "('w, 'p) wallet_services \<Rightarrow> string \<Rightarrow> ('w, string) ui_act" where
  "inputOf A field = io_local (\<lambda>w. (Inr (trim (wl_value (ws_wallets A) field w)), w))"

definition requireSigner :: "('w, signer) ui_act" where
  "requireSigner = io_bind io_get (\<lambda>u.
     case ui_signer u of
       None \<Rightarrow> io_throw (Js_Error ''Error'' ''Connect a wallet first.'')
     | Some s \<Rightarrow> io_return s)"

definition requireKeys :: "('w, keypairs) ui_act" where
  "requireKeys = io_bind io_get (\<lambda>u.
     case ui_keys u of
       None \<Rightarrow> io_throw (Js_Error ''Error'' ''Unlock the confidential balance first.'')
     | Some k \<Rightarrow> io_return k)"

definition fetchDecimals :: "('w, 'p) wallet_services \<Rightarrow> address \<Rightarrow> ('w, address \<times> nat) ui_act" where
  "fetchDecimals A mint =
     io_bind (io_local (rpc_fetchMint (ws_rpc A) mint)) (\<lambda>data.
     io_bind (change (\<lambda>u. u\<lparr>ui_mintDecimals := Some (mint, mt_decimals data)\<rparr>)) (\<lambda>_.
     io_return (mint, mt_decimals data)))"

definition currentMint :: "('w, 'p) wallet_services \<Rightarrow> ('w, address \<times> nat) ui_act" where
  "currentMint A =
     io_bind (inputOf A ''mint'') (\<lambda>value.
     if \<not> wl_isAddress (ws_wallets A) value
     then io_throw (Js_Error ''Error'' ''Enter the mint address.'')
     else
       io_bind io_get (\<lambda>u.
       case ui_mintDecimals u of
         None \<Rightarrow> fetchDecimals A value
       | Some (mint, decimals) \<Rightarrow>
           if mint \<noteq> value then fetchDecimals A value else io_return (mint, decimals)))"

definition walletInput ::
  "('w, 'p) wallet_services \<Rightarrow> signer \<Rightarrow> address \<Rightarrow> address option \<Rightarrow> keypairs option \<Rightarrow> 'w operation_input" where
  "walletInput A s mint token keys =
     \<lparr>in_rpc = ws_rpc A, in_payer = s, in_owner = s, in_mint = mint, in_token = token, in_keys = keys,
      in_programAddress = None, in_computeUnitPrice = None, in_retries = None\<rparr>"

section \<open>Balances\<close>

definition shownConfidential ::
  "('w, 'p) wallet_services \<Rightarrow> signer \<Rightarrow> address \<Rightarrow> nat \<Rightarrow> address \<Rightarrow> ('w, string) ui_act" where
  "shownConfidential A owner mint decimals token =
     io_bind io_get (\<lambda>u.
     case ui_keys u of
       None \<Rightarrow> io_return ''locked''
     | Some keys \<Rightarrow>
         io_bind (io_local (decryptBalance (ws_kit A) (ws_zk A)
           (walletInput A owner mint (Some token) (Some keys)))) (\<lambda>balance.
         io_return (fromBaseUnits balance decimals)))"

definition showAccount ::
  "('w, 'p) wallet_services \<Rightarrow> signer \<Rightarrow> address \<Rightarrow> nat \<Rightarrow> address \<Rightarrow> token \<Rightarrow> ('w, unit) ui_act" where
  "showAccount A owner mint decimals token data =
     io_bind (change (show_in ''public-balance'' (fromBaseUnits (tk_amount data) decimals))) (\<lambda>_.
     case (case tk_extensions data of None \<Rightarrow> None | Some es \<Rightarrow> find_map ct_account_of es) of
       None \<Rightarrow> change (show_in ''pending'' dash \<circ> show_in ''confidential-balance'' ''not set up'')
     | Some ct \<Rightarrow>
         io_bind (shownConfidential A owner mint decimals token) (\<lambda>balance.
         io_bind (change (show_in ''confidential-balance'' balance)) (\<lambda>_.
         change (show_in ''pending''
           (if pendingBalanceCreditCounter ct = 0 then ''nothing''
            else show_int (pendingBalanceCreditCounter ct) @ '' incoming (apply to spend)'')))))"

definition refreshBalances :: "('w, 'p) wallet_services \<Rightarrow> ('w, unit) ui_act" where
  "refreshBalances A =
     io_bind requireSigner (\<lambda>owner.
     io_bind (currentMint A) (\<lambda>(mint, decimals).
     io_bind (io_of (kit_findAssociatedTokenPda (ws_kit A) (sg_address owner) TOKEN_2022_PROGRAM_ADDRESS mint)) (\<lambda>token.
     io_bind (io_local (rpc_fetchMaybeToken (ws_rpc A) token)) (\<lambda>account.
     case account of
       None \<Rightarrow> change (show_in ''pending'' dash \<circ> show_in ''confidential-balance'' dash \<circ>
         show_in ''public-balance'' ''no token account yet'')
     | Some data \<Rightarrow> showAccount A owner mint decimals token data))))"

section \<open>The buttons\<close>

definition onConnect :: "('w, 'p) wallet_services \<Rightarrow> std_wallet \<Rightarrow> ('w, string) ui_act" where
  "onConnect A wallet =
     io_bind (io_local (connectWallet (ws_wallets A) wallet (ws_chain A))) (\<lambda>s.
     io_bind (change (show_in ''address'' (sg_address s) \<circ>
       (\<lambda>u. u\<lparr>ui_signer := Some s, ui_keys := None\<rparr>))) (\<lambda>_.
     io_return (''Connected '' @ sg_address s)))"

definition onUnlock :: "('w, 'p) wallet_services \<Rightarrow> ('w, string) ui_act" where
  "onUnlock A =
     io_bind requireSigner (\<lambda>owner.
     io_bind (currentMint A) (\<lambda>_.
     if \<not> isMessageSigner owner
     then io_throw (Js_Error ''Error''
       ''This wallet cannot sign messages, which the confidential keys come from. Try another wallet.'')
     else
       io_bind (io_local (deriveConfidentialKeys (ws_kit A) (ws_zk A) owner)) (\<lambda>keys.
       io_bind (change (\<lambda>u. u\<lparr>ui_keys := Some keys\<rparr>)) (\<lambda>_.
       io_bind (refreshBalances A) (\<lambda>_.
       io_return ''Unlocked. The keys stay in this tab and are reused for every step.'')))))"

definition onSetup :: "('w, 'p) wallet_services \<Rightarrow> ('w, string) ui_act" where
  "onSetup A =
     io_bind (currentMint A) (\<lambda>(mint, decimals).
     io_bind requireSigner (\<lambda>s.
     io_bind requireKeys (\<lambda>keys.
     io_bind (io_local (configureAccount (ws_kit A) (ws_zk A)
       (operation_input.extend (walletInput A s mint None (Some keys)) (configure_input.fields None)))) (\<lambda>result.
     io_bind (change (logLine (''configure '' @ cr_signature result))) (\<lambda>_.
     io_bind (refreshBalances A) (\<lambda>_.
     io_return ''Token account ready for confidential transfers.''))))))"

definition onRefresh :: "('w, 'p) wallet_services \<Rightarrow> ('w, string) ui_act" where
  "onRefresh A = io_bind (refreshBalances A) (\<lambda>_. io_return ''Balances updated.'')"

definition onApply :: "('w, 'p) wallet_services \<Rightarrow> ('w, string) ui_act" where
  "onApply A =
     io_bind (currentMint A) (\<lambda>(mint, decimals).
     io_bind requireSigner (\<lambda>s.
     io_bind requireKeys (\<lambda>keys.
     io_bind (io_local (applyPendingBalance (ws_kit A) (ws_zk A) (walletInput A s mint None (Some keys)))) (\<lambda>result.
     io_bind (change (logLine (''apply '' @ snd result))) (\<lambda>_.
     io_bind (refreshBalances A) (\<lambda>_.
     io_return ''Incoming amounts added to the confidential balance.''))))))"

definition onDeposit :: "('w, 'p) wallet_services \<Rightarrow> ('w, string) ui_act" where
  "onDeposit A =
     io_bind (currentMint A) (\<lambda>(mint, decimals).
     io_bind (inputOf A ''deposit-amount'') (\<lambda>typed.
     io_bind (io_of (toBaseUnits typed decimals)) (\<lambda>amount.
     io_bind requireSigner (\<lambda>s.
     io_bind (io_local (deposit (ws_kit A)
       (operation_input.extend (walletInput A s mint None None)
         (deposit_input.fields (BigInt_v amount) decimals)))) (\<lambda>result.
     io_bind (change (logLine (''deposit '' @ snd result))) (\<lambda>_.
     io_bind (refreshBalances A) (\<lambda>_.
     io_return ''Deposited. Apply it to make it spendable.'')))))))"

definition logAll :: "string \<Rightarrow> signature list \<Rightarrow> ui \<Rightarrow> ui" where
  "logAll what sigs = fold (\<lambda>s. logLine (what @ s)) sigs"

definition onTransfer :: "('w, 'p) wallet_services \<Rightarrow> ('w, string) ui_act" where
  "onTransfer A =
     io_bind (inputOf A ''to'') (\<lambda>to.
     if \<not> wl_isAddress (ws_wallets A) to
     then io_throw (Js_Error ''Error'' ''Enter the recipient's wallet address.'')
     else
       io_bind (currentMint A) (\<lambda>(mint, decimals).
       io_bind (inputOf A ''transfer-amount'') (\<lambda>typed.
       io_bind (io_of (toBaseUnits typed decimals)) (\<lambda>amount.
       io_bind (io_of (kit_findAssociatedTokenPda (ws_kit A) to TOKEN_2022_PROGRAM_ADDRESS mint)) (\<lambda>recipientToken.
       io_bind (io_local (rpc_fetchMaybeToken (ws_rpc A) recipientToken)) (\<lambda>recipient.
       if recipient = None
       then io_throw (Js_Error ''Error''
         (''The recipient has no token account for this mint yet. They need to set one up first.''))
       else
         io_bind requireSigner (\<lambda>s.
         io_bind requireKeys (\<lambda>keys.
         io_bind (io_local (transfer (ws_points A) (ws_kit A) (ws_zk A)
           (operation_input.extend (walletInput A s mint None (Some keys))
             (transfer_input.fields (Some to) (BigInt_v amount) None None)))) (\<lambda>result.
         io_bind (change (logAll ''transfer '' (fr_signatures (to_flow result)))) (\<lambda>_.
         io_bind (refreshBalances A) (\<lambda>_.
         io_return (''Sent in '' @ show_nat (length (fr_signatures (to_flow result))) @
           '' transactions. The amount is encrypted on chain.''))))))))))))"

definition onWithdraw :: "('w, 'p) wallet_services \<Rightarrow> ('w, string) ui_act" where
  "onWithdraw A =
     io_bind (currentMint A) (\<lambda>(mint, decimals).
     io_bind (inputOf A ''withdraw-amount'') (\<lambda>typed.
     io_bind (io_of (toBaseUnits typed decimals)) (\<lambda>amount.
     io_bind requireSigner (\<lambda>s.
     io_bind requireKeys (\<lambda>keys.
     io_bind (io_local (withdraw (ws_points A) (ws_kit A) (ws_zk A)
       (operation_input.extend (walletInput A s mint None (Some keys))
         (withdraw_input.fields (BigInt_v amount) decimals)))) (\<lambda>result.
     io_bind (change (logAll ''withdraw '' (fr_signatures (wr_flow result)))) (\<lambda>_.
     io_bind (refreshBalances A) (\<lambda>_.
     io_return ''Withdrawn to the public balance.''))))))))"

datatype button =
    Connect_Button std_wallet
  | Unlock_Button
  | Setup_Button
  | Refresh_Button
  | Apply_Button
  | Deposit_Button
  | Transfer_Button
  | Withdraw_Button

fun handler :: "('w, 'p) wallet_services \<Rightarrow> button \<Rightarrow> ('w, string) ui_act" where
  "handler A (Connect_Button wallet) = onConnect A wallet"
| "handler A Unlock_Button = onUnlock A"
| "handler A Setup_Button = onSetup A"
| "handler A Refresh_Button = onRefresh A"
| "handler A Apply_Button = onApply A"
| "handler A Deposit_Button = onDeposit A"
| "handler A Transfer_Button = onTransfer A"
| "handler A Withdraw_Button = onWithdraw A"

fun busyLabel :: "button \<Rightarrow> string" where
  "busyLabel (Connect_Button wallet) = ''Connecting '' @ sw_name wallet"
| "busyLabel Unlock_Button = ''Unlocking: approve the message in your wallet''"
| "busyLabel Setup_Button = ''Setting up your token account''"
| "busyLabel Refresh_Button = ''Reading balances''"
| "busyLabel Apply_Button = ''Applying incoming amounts''"
| "busyLabel Deposit_Button = ''Depositing''"
| "busyLabel Transfer_Button = ''Sending: approve the transactions in your wallet''"
| "busyLabel Withdraw_Button = ''Withdrawing: approve the transactions in your wallet''"

section \<open>Running a handler\<close>

definition actionBegin :: "string \<Rightarrow> ui \<Rightarrow> ui option" where
  "actionBegin label u =
     (if ui_busy u then None
      else Some (setStatus Ui_Busy (label @ ellipsis) (u\<lparr>ui_busy := True, ui_walletsEnabled := False,
        ui_unlockEnabled := False, ui_keyedEnabled := False\<rparr>)))"

definition settled :: "ui \<Rightarrow> ui" where
  "settled u = u\<lparr>ui_busy := False, ui_walletsEnabled := True, ui_unlockEnabled := ui_signer u \<noteq> None,
     ui_keyedEnabled := ui_keys u \<noteq> None\<rparr>"

definition actionEnd :: "('w, string) ui_act \<Rightarrow> ('w, unit) ui_act" where
  "actionEnd action =
     io_bind
       (io_try action
         (\<lambda>s. change (setStatus Ui_Done s))
         (\<lambda>e. change (setStatus Ui_Error (js_message e))))
       (\<lambda>_. change settled)"

text \<open>A button of a wallet is made anew, and so enabled, whenever the list of wallets changes.\<close>

definition wallets_changed :: "('w, 'p) wallet_services \<Rightarrow> std_wallet list \<Rightarrow> ui \<Rightarrow> ui" where
  "wallets_changed A ws u =
     u\<lparr>ui_wallets := offered (ws_wallets A) (ws_chain A) ws, ui_walletsEnabled := True\<rparr>"

definition can_press :: "ui \<Rightarrow> button \<Rightarrow> bool" where
  "can_press u b \<longleftrightarrow>
     (case b of
        Connect_Button wallet \<Rightarrow> ui_walletsEnabled u \<and> wallet \<in> wc_wallet ` set (ui_wallets u)
      | Unlock_Button \<Rightarrow> ui_unlockEnabled u
      | _ \<Rightarrow> ui_keyedEnabled u)"

definition first_ui :: ui where
  "first_ui = \<lparr>ui_signer = None, ui_keys = None, ui_mintDecimals = None, ui_busy = False,
     ui_status = (Ui_Idle, ''Connect a wallet to start.''), ui_log = [], ui_shown = (\<lambda>_. dash), ui_wallets = [],
     ui_walletsEnabled = True, ui_unlockEnabled = False, ui_keyedEnabled = False\<rparr>"

record 'w wallet_app =
  ap_ui :: ui
  ap_world :: 'w
  ap_running :: "button option"

inductive app_step :: "('w, 'p) wallet_services \<Rightarrow> 'w wallet_app \<Rightarrow> 'w wallet_app \<Rightarrow> bool" for A where
  press: "can_press (ap_ui t) b \<Longrightarrow> actionBegin (busyLabel b) (ap_ui t) = Some u \<Longrightarrow>
    app_step A t (t\<lparr>ap_ui := u, ap_running := Some b\<rparr>)"
| ended: "ap_running t = Some b \<Longrightarrow> actionEnd (handler A b) (ap_world t, ap_ui t) = (r, (w, u)) \<Longrightarrow>
    app_step A t (t\<lparr>ap_ui := u, ap_world := w, ap_running := None\<rparr>)"
| registered: "app_step A t (t\<lparr>ap_ui := wallets_changed A ws (ap_ui t)\<rparr>)"
| crypto_failed: "app_step A t (t\<lparr>ap_ui := setStatus Ui_Error (js_string e) (ap_ui t)\<rparr>)"
| outside: "app_step A t (t\<lparr>ap_world := w\<rparr>)"

inductive reachable_app :: "('w, 'p) wallet_services \<Rightarrow> 'w wallet_app \<Rightarrow> bool" for A where
  app_loaded: "reachable_app A \<lparr>ap_ui = wallets_changed A ws first_ui, ap_world = w, ap_running = None\<rparr>"
| app_stepped: "reachable_app A t \<Longrightarrow> app_step A t t' \<Longrightarrow> reachable_app A t'"

section \<open>What the handlers leave alone\<close>

text \<open>Everything but the cached decimals and the shown texts.\<close>

definition view :: "ui \<Rightarrow> ui" where
  "view u = u\<lparr>ui_mintDecimals := None, ui_shown := (\<lambda>_. []), ui_status := (Ui_Idle, [])\<rparr>"

definition cache_ok :: "('w, 'p) wallet_services \<Rightarrow> ui \<Rightarrow> bool" where
  "cache_ok A u \<longleftrightarrow>
     (case ui_mintDecimals u of
        None \<Rightarrow> True
      | Some (mint, decimals) \<Rightarrow> wl_isAddress (ws_wallets A) mint \<and>
          (\<exists>data w w'. rpc_fetchMint (ws_rpc A) mint w = (Inr data, w') \<and> decimals = mt_decimals data))"

definition keys_ok :: "('w, 'p) wallet_services \<Rightarrow> ui \<Rightarrow> bool" where
  "keys_ok A u \<longleftrightarrow>
     (case ui_keys u of
        None \<Rightarrow> True
      | Some k \<Rightarrow> (\<exists>s w w'. ui_signer u = Some s \<and>
          deriveConfidentialKeys (ws_kit A) (ws_zk A) s w = (Inr k, w')))"

definition steady :: "('w, 'p) wallet_services \<Rightarrow> ui \<Rightarrow> ui \<Rightarrow> bool" where
  "steady A v u \<longleftrightarrow> view u = v \<and> cache_ok A u"

lemma view_show [simp]: "view (show_in field s u) = view u" "view (setStatus st s u) = view u"
  "view (u\<lparr>ui_mintDecimals := m\<rparr>) = view u"
  by (simp_all add: view_def show_in_def setStatus_def)

lemma cache_show [simp]: "cache_ok A (show_in field s u) = cache_ok A u"
  by (simp add: cache_ok_def show_in_def)

lemma view_facts:
  assumes "view u = view u'"
  shows "ui_signer u = ui_signer u'" "ui_keys u = ui_keys u'" "ui_log u = ui_log u'" "ui_busy u = ui_busy u'"
    "ui_walletsEnabled u = ui_walletsEnabled u'" "ui_unlockEnabled u = ui_unlockEnabled u'"
    "ui_keyedEnabled u = ui_keyedEnabled u'"
  using assms by (auto simp: view_def dest: arg_cong [where f = ui_signer] arg_cong [where f = ui_keys]
      arg_cong [where f = ui_log] arg_cong [where f = ui_busy] arg_cong [where f = ui_walletsEnabled]
      arg_cong [where f = ui_unlockEnabled] arg_cong [where f = ui_keyedEnabled])

lemma steady_local: "keeps_local m \<Longrightarrow> io_keeps (\<lambda>x. steady A v (snd x)) m"
  by (rule keeps_local_keeps)

lemma keeps_bind_value:
  assumes "io_keeps P m" and "\<And>a x y. P x \<Longrightarrow> m x = (Inr a, y) \<Longrightarrow> io_keeps P (f a)"
  shows "io_keeps P (io_bind m f)"
proof (rule keepsI)
  fix x r z assume x: "P x" and run: "io_bind m f x = (r, z)"
  obtain c y where m: "m x = (c, y)" by force
  have "P y" by (rule keepsD [OF assms(1) x m])
  then show "P z"
    using run m assms(2) [OF x, of _ y] by (cases c) (auto simp: io_keeps_def)
qed

lemma keeps_requires: "keeps_local requireSigner" "keeps_local requireKeys" "keeps_local (inputOf A field)"
  unfolding requireSigner_def requireKeys_def inputOf_def by (intro keeps_local_rules)+

lemma steady_fetch:
  assumes "wl_isAddress (ws_wallets A) mint"
  shows "io_keeps (\<lambda>x. steady A v (snd x)) (fetchDecimals A mint)"
  unfolding fetchDecimals_def
proof (rule keeps_bind_value)
  show "io_keeps (\<lambda>x. steady A v (snd x)) (io_local (rpc_fetchMint (ws_rpc A) mint))"
    by (intro steady_local keeps_local_rules)
next
  fix data :: mint and x y :: "'a \<times> ui"
  assume "io_local (rpc_fetchMint (ws_rpc A) mint) x = (Inr data, y)"
  then have read: "\<exists>w w'. rpc_fetchMint (ws_rpc A) mint w = (Inr data, w')" by (auto simp: io_local_eq_pair)
  show "io_keeps (\<lambda>x. steady A v (snd x))
      (io_bind (change (\<lambda>u. u\<lparr>ui_mintDecimals := Some (mint, mt_decimals data)\<rparr>)) (\<lambda>_. io_return (mint, mt_decimals data)))"
    by (intro keeps_bind keeps_change steady_local keeps_local_rules)
      (use assms read in \<open>auto simp: steady_def cache_ok_def\<close>)
qed

lemma steady_currentMint: "io_keeps (\<lambda>x. steady A v (snd x)) (currentMint A)"
  unfolding currentMint_def
proof (intro keeps_bind)
  show "io_keeps (\<lambda>x. steady A v (snd x)) (inputOf A ''mint'')" by (intro steady_local keeps_requires)
  fix "value"
  have again: "io_keeps (\<lambda>x. steady A v (snd x)) (io_bind io_get (\<lambda>u.
       case ui_mintDecimals u of
         None \<Rightarrow> fetchDecimals A value
       | Some (mint, decimals) \<Rightarrow>
           if mint \<noteq> value then fetchDecimals A value else io_return (mint, decimals)))"
    if "wl_isAddress (ws_wallets A) value"
    using that
    by (intro keeps_bind keeps_option keeps_prod keeps_if steady_fetch keeps_pure steady_local [of io_get]
        keeps_local_basic)
  show "io_keeps (\<lambda>x. steady A v (snd x))
      (if \<not> wl_isAddress (ws_wallets A) value
       then io_throw (Js_Error ''Error'' ''Enter the mint address.'')
       else io_bind io_get (\<lambda>u.
         case ui_mintDecimals u of
           None \<Rightarrow> fetchDecimals A value
         | Some (mint, decimals) \<Rightarrow>
             if mint \<noteq> value then fetchDecimals A value else io_return (mint, decimals)))"
    using again by (cases "wl_isAddress (ws_wallets A) value") (simp_all add: keeps_pure del: io_ret_simps)
qed

lemma keeps_shownConfidential: "keeps_local (shownConfidential A owner mint decimals token)"
  unfolding shownConfidential_def by (intro keeps_local_rules)

lemma steady_change: "(\<And>u. view (f u) = view u \<and> cache_ok A (f u) = cache_ok A u) \<Longrightarrow>
    io_keeps (\<lambda>x. steady A v (snd x)) (change f)"
  by (intro keeps_change) (simp add: steady_def)

lemma steady_refresh: "io_keeps (\<lambda>x. steady A v (snd x)) (refreshBalances A)"
  unfolding refreshBalances_def showAccount_def
  by (intro keeps_bind keeps_prod keeps_option steady_currentMint steady_change steady_local keeps_requires
      keeps_shownConfidential keeps_local_rules) simp_all

section \<open>What every handler keeps\<close>

text \<open>The part of the page only \<open>run\<close> writes.\<close>

definition chrome :: "ui \<Rightarrow> bool \<times> bool \<times> bool \<times> bool" where
  "chrome u = (ui_busy u, ui_walletsEnabled u, ui_unlockEnabled u, ui_keyedEnabled u)"

definition held :: "('w, 'p) wallet_services \<Rightarrow> bool \<times> bool \<times> bool \<times> bool \<Rightarrow> signer option \<Rightarrow> ui \<Rightarrow> bool" where
  "held A c sg u \<longleftrightarrow> cache_ok A u \<and> keys_ok A u \<and> chrome u = c \<and> ui_signer u = sg"

lemma keys_ok_cong: "ui_keys u = ui_keys u' \<Longrightarrow> ui_signer u = ui_signer u' \<Longrightarrow> keys_ok A u = keys_ok A u'"
  unfolding keys_ok_def by (cases "ui_keys u'") simp_all

lemma cache_ok_cong: "ui_mintDecimals u = ui_mintDecimals u' \<Longrightarrow> cache_ok A u = cache_ok A u'"
  by (simp add: cache_ok_def)

lemma held_view: "view u = view u' \<Longrightarrow> cache_ok A u \<Longrightarrow> held A c sg u' \<Longrightarrow> held A c sg u"
  using view_facts [of u u'] keys_ok_cong [of u u' A] by (simp add: held_def chrome_def)

lemma steady_held:
  assumes "\<And>v. io_keeps (\<lambda>x. steady A v (snd x)) m"
  shows "io_keeps (\<lambda>x. held A c sg (snd x)) m"
proof (rule keepsI)
  fix x r y assume x: "held A c sg (snd x)" and run: "m x = (r, y)"
  have "steady A (view (snd x)) (snd x)" using x by (simp add: steady_def held_def)
  from keepsD [OF assms this run] have y: "view (snd y) = view (snd x)" "cache_ok A (snd y)"
    by (simp_all add: steady_def)
  show "held A c sg (snd y)" by (rule held_view [OF y x])
qed

lemma held_local: "keeps_local m \<Longrightarrow> io_keeps (\<lambda>x. held A c sg (snd x)) m"
  by (rule keeps_local_keeps)

lemma logLine_ok [simp]: "cache_ok A (logLine l u) = cache_ok A u" "keys_ok A (logLine l u) = keys_ok A u"
  "chrome (logLine l u) = chrome u" "ui_signer (logLine l u) = ui_signer u"
  using cache_ok_cong [of "logLine l u" u A] keys_ok_cong [of "logLine l u" u A]
  by (simp_all add: logLine_def chrome_def)

lemma held_log: "io_keeps (\<lambda>x. held A c sg (snd x)) (change (logLine l))"
  by (intro keeps_change) (simp add: held_def)

lemma logAll_fields [simp]:
  "ui_mintDecimals (logAll what sigs u) = ui_mintDecimals u" "ui_keys (logAll what sigs u) = ui_keys u"
  "ui_signer (logAll what sigs u) = ui_signer u" "ui_busy (logAll what sigs u) = ui_busy u"
  "ui_walletsEnabled (logAll what sigs u) = ui_walletsEnabled u"
  "ui_unlockEnabled (logAll what sigs u) = ui_unlockEnabled u"
  "ui_keyedEnabled (logAll what sigs u) = ui_keyedEnabled u"
  "ui_log (logAll what sigs u) = map (\<lambda>s. what @ s) (rev sigs) @ ui_log u"
  unfolding logAll_def by (induction sigs arbitrary: u) (simp_all add: logLine_def)

lemma logAll_ok [simp]: "cache_ok A (logAll l sigs u) = cache_ok A u" "keys_ok A (logAll l sigs u) = keys_ok A u"
  "chrome (logAll l sigs u) = chrome u"
  using cache_ok_cong [of "logAll l sigs u" u A] keys_ok_cong [of "logAll l sigs u" u A]
  by (simp_all add: chrome_def)

lemma held_logAll: "io_keeps (\<lambda>x. held A c sg (snd x)) (change (logAll what sigs))"
  by (intro keeps_change) (simp add: held_def)

lemmas held_calls = held_log held_logAll steady_held [OF steady_currentMint] steady_held [OF steady_refresh]

lemma held_handlers:
  "io_keeps (\<lambda>x. held A c sg (snd x)) (onSetup A)" "io_keeps (\<lambda>x. held A c sg (snd x)) (onRefresh A)"
  "io_keeps (\<lambda>x. held A c sg (snd x)) (onApply A)" "io_keeps (\<lambda>x. held A c sg (snd x)) (onDeposit A)"
  "io_keeps (\<lambda>x. held A c sg (snd x)) (onTransfer A)" "io_keeps (\<lambda>x. held A c sg (snd x)) (onWithdraw A)"
  unfolding onSetup_def onRefresh_def onApply_def onDeposit_def onTransfer_def onWithdraw_def
  by (intro keeps_bind keeps_prod keeps_if held_calls keeps_pure held_local keeps_requires keeps_local_basic)+

lemma io_local_runs: "io_local m x = (r, y) \<Longrightarrow> \<exists>w w'. m w = (r, w')"
  by (auto simp: io_local_eq_pair)

lemma held_derived:
  assumes "\<exists>w w'. deriveConfidentialKeys (ws_kit A) (ws_zk A) owner w = (Inr keys, w')"
  shows "io_keeps (\<lambda>x. held A c (Some owner) (snd x)) (change (\<lambda>u. u\<lparr>ui_keys := Some keys\<rparr>))"
proof (rule keeps_change)
  fix u assume "held A c (Some owner) u"
  then show "held A c (Some owner) (u\<lparr>ui_keys := Some keys\<rparr>)"
    using assms cache_ok_cong [of "u\<lparr>ui_keys := Some keys\<rparr>" u A] by (simp add: held_def keys_ok_def chrome_def)
qed

lemma held_unlock: "io_keeps (\<lambda>x. held A c sg (snd x)) (onUnlock A)"
  unfolding onUnlock_def
proof (rule keeps_bind_value)
  show "io_keeps (\<lambda>x. held A c sg (snd x)) requireSigner" by (intro held_local keeps_requires)
  fix owner and x y :: "'a \<times> ui"
  assume "held A c sg (snd x)" "requireSigner x = (Inr owner, y)"
  then have sg: "sg = Some owner"
    by (cases x) (auto simp: held_def requireSigner_def get_bind split: option.splits)
  let ?derive = "io_local (deriveConfidentialKeys (ws_kit A) (ws_zk A) owner) :: ('a, keypairs) ui_act"
  let ?rest = "\<lambda>keys. io_bind (change (\<lambda>u. u\<lparr>ui_keys := Some keys\<rparr>)) (\<lambda>_. io_bind (refreshBalances A) (\<lambda>_.
        io_return ''Unlocked. The keys stay in this tab and are reused for every step.''))"
  have "io_keeps (\<lambda>x. held A c (Some owner) (snd x)) (io_bind ?derive ?rest)"
  proof (rule keeps_bind_value)
    show "io_keeps (\<lambda>x. held A c (Some owner) (snd x)) ?derive" by (intro held_local keeps_local_basic)
    fix keys and x y :: "'a \<times> ui" assume "?derive x = (Inr keys, y)"
    from io_local_runs [OF this] show "io_keeps (\<lambda>x. held A c (Some owner) (snd x)) (?rest keys)"
      by (intro keeps_bind held_calls keeps_pure held_derived)
  qed
  then show "io_keeps (\<lambda>x. held A c sg (snd x))
     (io_bind (currentMint A) (\<lambda>_.
     if \<not> isMessageSigner owner
     then io_throw (Js_Error ''Error''
       ''This wallet cannot sign messages, which the confidential keys come from. Try another wallet.'')
     else io_bind ?derive ?rest))"
    unfolding sg by (intro keeps_bind [of _ "currentMint A"] held_calls keeps_if keeps_pure)
qed

lemma connect_ok:
  assumes "onConnect A wallet (w, u) = (r, (w', u'))" and "cache_ok A u" "keys_ok A u"
  shows "cache_ok A u' \<and> keys_ok A u' \<and> chrome u' = chrome u"
proof -
  let ?u = "\<lambda>s. show_in ''address'' (sg_address s) (u\<lparr>ui_signer := Some s, ui_keys := None\<rparr>)"
  have "cache_ok A (?u s) \<and> keys_ok A (?u s) \<and> chrome (?u s) = chrome u" for s
    using assms(2) cache_ok_cong [of "?u s" u A] by (simp add: show_in_def keys_ok_def chrome_def)
  moreover have "u' = u \<or> (\<exists>s. u' = ?u s)"
    by (cases rule: bind_keeps_localE [OF assms(1) [unfolded onConnect_def] keeps_local_basic(1)])
      (auto simp: io_bind_def [of "change f" for f])
  ultimately show ?thesis using assms(2,3) by auto
qed

lemma held_handler:
  "\<nexists>wallet. b = Connect_Button wallet \<Longrightarrow> io_keeps (\<lambda>x. held A c sg (snd x)) (handler A b)"
  by (cases b) (simp_all add: held_handlers held_unlock)

lemma handler_ok:
  assumes "handler A b (w, u) = (r, (w', u'))" and "cache_ok A u" "keys_ok A u"
  shows "cache_ok A u' \<and> keys_ok A u' \<and> chrome u' = chrome u"
proof (cases "\<exists>wallet. b = Connect_Button wallet")
  case True
  then show ?thesis using assms connect_ok [OF _ assms(2,3)] by auto
next
  case False
  then have "io_keeps (\<lambda>x. held A (chrome u) (ui_signer u) (snd x)) (handler A b)" by (rule held_handler)
  from keepsD [OF this _ assms(1)] assms(2,3) show ?thesis by (simp add: held_def)
qed

section \<open>The invariant of the application\<close>

definition app_inv :: "('w, 'p) wallet_services \<Rightarrow> 'w wallet_app \<Rightarrow> bool" where
  "app_inv A t \<longleftrightarrow>
     (let u = ap_ui t in
      cache_ok A u \<and> keys_ok A u \<and> (ui_busy u \<longleftrightarrow> ap_running t \<noteq> None) \<and>
      (ui_unlockEnabled u \<longleftrightarrow> \<not> ui_busy u \<and> ui_signer u \<noteq> None) \<and>
      (ui_keyedEnabled u \<longleftrightarrow> \<not> ui_busy u \<and> ui_keys u \<noteq> None))"

lemma changed_simps [simp]:
  "cache_ok A (setStatus st s u) = cache_ok A u" "keys_ok A (setStatus st s u) = keys_ok A u"
  "cache_ok A (wallets_changed B ws u) = cache_ok A u" "keys_ok A (wallets_changed B ws u) = keys_ok A u"
  "cache_ok A (settled u) = cache_ok A u" "keys_ok A (settled u) = keys_ok A u"
  "ui_signer (setStatus st s u) = ui_signer u" "ui_keys (setStatus st s u) = ui_keys u"
  "ui_busy (setStatus st s u) = ui_busy u" "ui_unlockEnabled (setStatus st s u) = ui_unlockEnabled u"
  "ui_keyedEnabled (setStatus st s u) = ui_keyedEnabled u"
  using cache_ok_cong [of "setStatus st s u" u A] keys_ok_cong [of "setStatus st s u" u A]
    cache_ok_cong [of "wallets_changed B ws u" u A] keys_ok_cong [of "wallets_changed B ws u" u A]
    cache_ok_cong [of "settled u" u A] keys_ok_cong [of "settled u" u A]
  by (simp_all add: setStatus_def wallets_changed_def settled_def)

lemma actionEnd_page:
  assumes "actionEnd action (w, u) = (r, (w', u'))"
  obtains x u1 st s where "action (w, u) = (x, (w', u1))" "u' = settled (setStatus st s u1)"
proof -
  obtain x w1 u1 where run: "action (w, u) = (x, (w1, u1))" by (metis surj_pair)
  then show ?thesis using assms that by (cases x) (auto simp: actionEnd_def io_bind_def)
qed

lemma begin_inv:
  assumes "app_inv A t" and "actionBegin label (ap_ui t) = Some u"
  shows "app_inv A (t\<lparr>ap_ui := u, ap_running := Some b\<rparr>)"
proof -
  let ?u = "ap_ui t"
  let ?v = "?u\<lparr>ui_busy := True, ui_walletsEnabled := False, ui_unlockEnabled := False, ui_keyedEnabled := False\<rparr>"
  have u: "u = setStatus Ui_Busy (label @ ellipsis) ?v"
    using assms(2) by (auto simp: actionBegin_def split: if_splits)
  have "cache_ok A ?v = cache_ok A ?u" "keys_ok A ?v = keys_ok A ?u"
    by (rule cache_ok_cong; simp) (rule keys_ok_cong; simp)
  then show ?thesis using assms(1) by (simp add: app_inv_def Let_def u)
qed

lemma ended_inv:
  assumes "app_inv A t" and "actionEnd (handler A b) (ap_world t, ap_ui t) = (r, (w, u))"
  shows "app_inv A (t\<lparr>ap_ui := u, ap_world := w, ap_running := None\<rparr>)"
  using assms(2)
proof (rule actionEnd_page)
  fix x u1 st s
  assume run: "handler A b (ap_world t, ap_ui t) = (x, (w, u1))" and u: "u = settled (setStatus st s u1)"
  have "cache_ok A u1 \<and> keys_ok A u1" using handler_ok [OF run] assms(1) by (simp add: app_inv_def Let_def)
  moreover have "ui_busy u = False" "ui_signer u = ui_signer u1" "ui_keys u = ui_keys u1"
      "ui_unlockEnabled u = (ui_signer u1 \<noteq> None)" "ui_keyedEnabled u = (ui_keys u1 \<noteq> None)"
    by (simp_all add: u settled_def)
  ultimately show ?thesis by (simp add: app_inv_def Let_def, simp add: u)
qed

lemma app_step_inv: "app_step A t t' \<Longrightarrow> app_inv A t \<Longrightarrow> app_inv A t'"
proof (induction rule: app_step.induct)
  case (press t b u)
  then show ?case by (intro begin_inv)
next
  case (ended t b r w u)
  then show ?case by (intro ended_inv)
next
  case (registered t ws)
  then show ?case by (simp add: app_inv_def Let_def) (simp add: wallets_changed_def)
qed (simp_all add: app_inv_def Let_def)

interpretation app: step_invariant "app_step A" "app_inv A" for A
  by unfold_locales (rule app_step_inv)

lemma first_inv: "app_inv A \<lparr>ap_ui = wallets_changed A ws first_ui, ap_world = w, ap_running = None\<rparr>"
  by (simp add: app_inv_def Let_def)
    (simp add: first_ui_def wallets_changed_def cache_ok_def keys_ok_def)

lemma reachable_app_inv: "reachable_app A t \<Longrightarrow> app_inv A t"
  by (induction rule: reachable_app.induct) (auto intro: first_inv app.step_inv)

end
