(* ===== verification/Wallet_Buttons.thy ===== *)
theory Wallet_Buttons
  imports Wallet_App
begin

text \<open>
  What the buttons of the wallet application do with what is typed: a click on Send that succeeds is
  the transfer of the SDK with exactly the typed recipient, mint and amount and the keys in memory.
  The theory ends with a concrete application, for the witnesses.
\<close>

section \<open>Reading the form\<close>

lemma require_bind:
  "io_bind requireSigner f x = (case ui_signer (snd x) of
     None \<Rightarrow> (Inl (Js_Error ''Error'' ''Connect a wallet first.''), x) | Some s \<Rightarrow> f s x)"
  "io_bind requireKeys g x = (case ui_keys (snd x) of
     None \<Rightarrow> (Inl (Js_Error ''Error'' ''Unlock the confidential balance first.''), x) | Some k \<Rightarrow> g k x)"
  by (cases x; simp add: requireSigner_def requireKeys_def io_bind_def io_get_def split: option.split)+

lemma input_bind: "io_bind (inputOf A field) f x = f (trim (wl_value (ws_wallets A) field (fst x))) x"
  by (cases x) (simp add: inputOf_def io_local_def io_bind_def)

lemma option_Inr:
  "(case v of None \<Rightarrow> (Inl e, y) | Some a \<Rightarrow> f a) = (Inr b, x) \<longleftrightarrow> (\<exists>a. v = Some a \<and> f a = (Inr b, x))"
  by (cases v) simp_all

lemma throw_if_Inr: "(if c then io_throw e else m) y = (Inr b, x) \<longleftrightarrow> \<not> c \<and> m y = (Inr b, x)"
  by simp

lemma change_bind: "io_bind (change g) f x = f () (fst x, g (snd x))"
  by (cases x) (simp add: io_bind_def)

lemmas form_steps = input_bind require_bind option_Inr throw_if_Inr change_bind attempt_steps

text \<open>The mint in the form, whose decimals were read from that mint.\<close>

lemma currentMint_read:
  assumes "currentMint A (w, u) = (Inr (mint, decimals), (w', u'))" and "cache_ok A u"
  shows "mint = trim (wl_value (ws_wallets A) ''mint'' w) \<and> wl_isAddress (ws_wallets A) mint \<and>
     (\<exists>data v v'. rpc_fetchMint (ws_rpc A) mint v = (Inr data, v') \<and> decimals = mt_decimals data) \<and>
     view u' = view u"
proof -
  let ?mint = "trim (wl_value (ws_wallets A) ''mint'' w)"
  have "steady A (view u) (snd (w, u))" using assms(2) by (simp add: steady_def)
  from keepsD [OF steady_currentMint this assms(1)] have "view u' = view u" by (simp add: steady_def)
  moreover have "wl_isAddress (ws_wallets A) ?mint"
      "(if case ui_mintDecimals u of None \<Rightarrow> True | Some p \<Rightarrow> fst p \<noteq> ?mint then fetchDecimals A ?mint
        else io_return (the (ui_mintDecimals u))) (w, u) = (Inr (mint, decimals), (w', u'))"
    using assms(1) by (auto simp: currentMint_def input_bind get_bind split: if_splits option.splits)
  moreover have "\<exists>data v v'. rpc_fetchMint (ws_rpc A) ?mint v = (Inr data, v') \<and> decimals = mt_decimals data"
      "mint = ?mint"
    using assms(2) calculation(3)
    by (auto simp: fetchDecimals_def bind_local_Inr change_bind cache_ok_def split: if_splits option.splits)
  ultimately show ?thesis by simp
qed

lemma refresh_view: "refreshBalances A (w, u) = (r, (w', u')) \<Longrightarrow> cache_ok A u \<Longrightarrow> view u' = view u"
  using keepsD [OF steady_refresh [where A = A and v = "view u"], of "(w, u)" r "(w', u')"]
  by (simp add: steady_def)

lemma toBaseUnits_text:
  "toBaseUnits s d = Inr a \<Longrightarrow> 0 < a \<and> (\<exists>whole fraction. decimal_text s whole fraction \<and>
     length fraction \<le> d \<and> a = int (read_base 10 whole * 10 ^ d + read_base 10 fraction * 10 ^ (d - length fraction)))"
  using toBaseUnits_units [of s d a] by (simp only: units_of_def)

section \<open>Sending\<close>

definition typedTransfer ::
  "('w, 'p) wallet_services \<Rightarrow> signer \<Rightarrow> keypairs \<Rightarrow> address \<Rightarrow> address \<Rightarrow> int \<Rightarrow> 'w transfer_input" where
  "typedTransfer A s keys mint to amount =
     operation_input.extend (walletInput A s mint None (Some keys))
       (transfer_input.fields (Some to) (BigInt_v amount) None None)"

lemma typedTransfer_fields [simp]:
  "in_rpc (typedTransfer A s keys mint to amount) = ws_rpc A"
  "in_payer (typedTransfer A s keys mint to amount) = s" "in_owner (typedTransfer A s keys mint to amount) = s"
  "in_mint (typedTransfer A s keys mint to amount) = mint" "in_token (typedTransfer A s keys mint to amount) = None"
  "in_keys (typedTransfer A s keys mint to amount) = Some keys"
  "in_computeUnitPrice (typedTransfer A s keys mint to amount) = None"
  "in_retries (typedTransfer A s keys mint to amount) = None"
  "in_programAddress (typedTransfer A s keys mint to amount) = None"
  "tr_destinationOwner (typedTransfer A s keys mint to amount) = Some to"
  "tr_amount (typedTransfer A s keys mint to amount) = BigInt_v amount"
  "tr_destinationToken (typedTransfer A s keys mint to amount) = None"
  "tr_auditorElgamalPubkey (typedTransfer A s keys mint to amount) = None"
  by (simp_all add: typedTransfer_def walletInput_def operation_input.defs transfer_input.defs)

lemma view_logAll: "view (logAll what sigs u) = view u\<lparr>ui_log := map (\<lambda>s. what @ s) (rev sigs) @ ui_log u\<rparr>"
  unfolding logAll_def by (induction sigs arbitrary: u) (simp_all add: view_def logLine_def)

lemma onTransfer_run:
  assumes "onTransfer A (w, u) = (Inr shown, (w', u'))" and "cache_ok A u"
  obtains s keys mint decimals amount r w1 u1 w2 w3 where
    "wl_isAddress (ws_wallets A) (trim (wl_value (ws_wallets A) ''to'' w))"
    "currentMint A (w, u) = (Inr (mint, decimals), (w1, u1))"
    "toBaseUnits (trim (wl_value (ws_wallets A) ''transfer-amount'' w1)) decimals = Inr amount"
    "ui_signer u = Some s" "ui_keys u = Some keys"
    "transfer (ws_points A) (ws_kit A) (ws_zk A)
       (typedTransfer A s keys mint (trim (wl_value (ws_wallets A) ''to'' w)) amount) w2 = (Inr r, w3)"
    "ui_log u' = map (\<lambda>s. ''transfer '' @ s) (rev (fr_signatures (to_flow r))) @ ui_log u"
proof -
  obtain p x amount r w2 w3 s keys y where run:
      "wl_isAddress (ws_wallets A) (trim (wl_value (ws_wallets A) ''to'' w))"
      "currentMint A (w, u) = (Inr p, x)"
      "toBaseUnits (trim (wl_value (ws_wallets A) ''transfer-amount'' (fst x))) (snd p) = Inr amount"
      "ui_signer (snd x) = Some s" "ui_keys (snd x) = Some keys"
      "transfer (ws_points A) (ws_kit A) (ws_zk A)
         (typedTransfer A s keys (fst p) (trim (wl_value (ws_wallets A) ''to'' w)) amount) w2 = (Inr r, w3)"
      "refreshBalances A (w3, logAll ''transfer '' (fr_signatures (to_flow r)) (snd x)) = (Inr y, (w', u'))"
    using assms(1)
    unfolding onTransfer_def case_prod_beta form_steps fst_conv snd_conv typedTransfer_def [symmetric] not_not
      io_bind_eq_Inr [where m = "currentMint A"] io_bind_eq_Inr [where m = "refreshBalances A"] io_ret_simps
    by (elim conjE exE Pair_inject) (hypsubst, rule that; assumption)
  obtain mint decimals w1 u1 where px: "p = (mint, decimals)" "x = (w1, u1)" by (metis surj_pair)
  note run = run [unfolded px fst_conv snd_conv]
  have steady: "steady A (view u) (snd (w, u))" using assms(2) by (simp add: steady_def)
  from keepsD [OF steady_currentMint steady run(2)] have u1: "view u1 = view u" "cache_ok A u1"
    by (simp_all add: steady_def)
  have "view u' = view (logAll ''transfer '' (fr_signatures (to_flow r)) u1)"
    by (rule refresh_view [OF run(7)]) (simp add: u1)
  from view_facts(3) [OF this] view_facts(3) [OF u1(1)]
  have log: "ui_log u' = map (\<lambda>s. ''transfer '' @ s) (rev (fr_signatures (to_flow r))) @ ui_log u" by simp
  have "ui_signer u = Some s" "ui_keys u = Some keys" using run(4,5) view_facts(1,2) [OF u1(1)] by simp_all
  from that [OF run(1-3) this run(6) log] show ?thesis .
qed

section \<open>A concrete application\<close>

text \<open>One wallet with one account, and a form that asks for 6.00 tokens of a mint of two decimals to bob.\<close>

definition shop_wallet :: std_wallet where
  "shop_wallet = \<lparr>sw_name = ''Wallet'', sw_chains = [''solana:devnet''],
     sw_features = [''standard:connect'', ''solana:signTransaction'', ''solana:signMessage'']\<rparr>"

definition shop_wallets :: "nat wallets" where
  "shop_wallets = \<lparr>wl_StandardConnect = ''standard:connect'',
     wl_connect = (\<lambda>_. io_return [\<lparr>wk_address = ''alice'', wk_chains = [''solana:devnet'']\<rparr>]),
     wl_signer = (\<lambda>_ a _. Inr (signer_named (wk_address a))), wl_isAddress = (\<lambda>s. s \<noteq> []),
     wl_value = (\<lambda>field _. if field = ''to'' then ''bob'' else if field = ''mint'' then ''mint'' else ''6.00'')\<rparr>"

definition shop :: "(nat, 8 word) wallet_services" where
  "shop = \<lparr>ws_points = byte_group, ws_kit = bundle_kit, ws_zk = toy_zk,
     ws_rpc = in_rpc (hookless (op_input (Some (token_with 0 1000)))), ws_wallets = shop_wallets,
     ws_chain = ''solana:devnet''\<rparr>"

lemma shop_parts:
  "ws_points shop = byte_group" "ws_kit shop = bundle_kit" "ws_zk shop = toy_zk" "ws_wallets shop = shop_wallets"
  "ws_rpc shop = in_rpc (hookless (op_input (Some (token_with 0 1000))))" "ws_chain shop = ''solana:devnet''"
  "rpc_fetchMaybeToken (in_rpc (hookless (op_input (Some t)))) a w = (Inr (Some t), w)"
  "rpc_fetchMint (in_rpc (hookless (op_input (Some t)))) a w =
     (Inr \<lparr>mt_decimals = 2, mt_extensions = Some [ConfidentialTransferMint None]\<rparr>, w)"
  "kit_findAssociatedTokenPda bundle_kit o' q m = Inr (o' @ ''/'' @ m)"
  by (simp_all add: shop_def hookless_def op_input_def op_rpc_def bundle_kit_def toy_kit_def idle_kit_def)

lemma shop_form [simp]:
  "trim (wl_value shop_wallets ''to'' w) = ''bob''" "trim (wl_value shop_wallets ''mint'' w) = ''mint''"
  "trim (wl_value shop_wallets ''transfer-amount'' w) = ''6.00''" "wl_isAddress shop_wallets a \<longleftrightarrow> a \<noteq> []"
  by (simp_all add: shop_wallets_def) (code_simp+)

lemma shop_keys: "deriveConfidentialKeys bundle_kit toy_zk (signer_named a) w = (Inr some_keys, w :: nat)"
  by (simp add: deriveConfidentialKeys_def ensureZk_def confidentialKeysFrom_def signDerivationMessage_def
    bundle_kit_def toy_kit_def toy_zk_def idle_kit_def idle_zk_def signer_named_def io_bind_def
    initConfidentialTransfers_def some_keys_def)

lemma shop_mint:
  assumes "ui_mintDecimals u \<in> {None, Some (''mint'', 2)}"
  shows "currentMint shop (w, u) = (Inr (''mint'', 2), (w, u\<lparr>ui_mintDecimals := Some (''mint'', 2)\<rparr>))"
  using assms
  by (auto simp: currentMint_def input_bind shop_parts get_bind fetchDecimals_def io_bind_def [of "io_local m" for m])

lemma shop_balance:
  "decryptBalance bundle_kit toy_zk (walletInput shop (signer_named a) mint (Some token) (Some some_keys)) w =
     (Inr 1000, w)"
proof -
  have "zk_aeDecrypt (toy_zk :: nat zk) k (bigUint64 1000) = Inr 1000" for k
    by (simp add: toy_zk_def le_nat_bigUint64)
  moreover have "zk_aeFromBytes (toy_zk :: nat zk) (bigUint64 1000) = Some (bigUint64 1000)"
    by (simp add: toy_zk_def idle_zk_def bigUint64_def)
  moreover have "readConfiguredAccount (ws_rpc shop) t op whose w = (Inr (token_with 0 1000, ct_with 1000), w)"
    for t op whose by (simp add: readConfiguredAccount_Inr shop_parts)
  moreover have "ownerKeys bundle_kit toy_zk s (Some some_keys) op w = (Inr some_keys, w)" for s op
    by (simp add: ownerKeys_def ensureZk_def toy_zk_def idle_zk_def io_bind_def)
  ultimately show ?thesis
    by (simp add: decryptBalance_def walletInput_def tokenOf_def bundle_keys_match ct_with_def)
qed

lemma shop_refresh:
  assumes "ui_mintDecimals u \<in> {None, Some (''mint'', 2)}" "ui_signer u = Some (signer_named ''alice'')"
    and "ui_keys u = Some some_keys"
  shows "\<exists>u'. refreshBalances shop (w, u) = (Inr (), (w, u')) \<and> ui_mintDecimals u' = Some (''mint'', 2)"
proof -
  have "find_map ct_account_of [ConfidentialTransferAccount (ct_with 1000)] = Some (ct_with 1000)" by simp
  then show ?thesis
    using assms
    by (simp add: refreshBalances_def require_bind io_bind_def [of "currentMint shop"] shop_mint shop_parts
        io_bind_def [of "io_local m" for m] showAccount_def token_with_def change_bind shownConfidential_def
        get_bind show_in_def shop_balance io_bind_def [of "io_bind io_get f" for f])
qed

text \<open>The application after connecting that wallet and unlocking it.\<close>

definition shop_ui :: "ui \<Rightarrow> bool" where
  "shop_ui u \<longleftrightarrow> ui_signer u = Some (signer_named ''alice'') \<and> ui_keys u = Some some_keys \<and>
     ui_mintDecimals u \<in> {None, Some (''mint'', 2)}"

lemma shop_connect:
  "onConnect shop shop_wallet (w, u) = (Inr ''Connected alice'', (w, show_in ''address'' ''alice''
     (u\<lparr>ui_signer := Some (signer_named ''alice''), ui_keys := None\<rparr>)))"
proof -
  have "connectWallet shop_wallets shop_wallet ''solana:devnet'' w = (Inr (signer_named ''alice''), w)"
    by (simp add: connectWallet_def shop_wallets_def)
  moreover have "sg_address (signer_named ''alice'') = ''alice''" by (simp add: signer_named_def)
  ultimately show ?thesis by (simp add: onConnect_def shop_parts change_bind io_bind_def [of "io_local m" for m])
qed

lemma shop_unlock:
  assumes "ui_signer u = Some (signer_named ''alice'')" "ui_mintDecimals u \<in> {None, Some (''mint'', 2)}"
  shows "\<exists>shown u'. onUnlock shop (w, u) = (Inr shown, (w, u')) \<and> shop_ui u'"
proof -
  let ?u = "u\<lparr>ui_mintDecimals := Some (''mint'', 2), ui_keys := Some some_keys\<rparr>"
  obtain u' where refresh: "refreshBalances shop (w, ?u) = (Inr (), (w, u'))" "ui_mintDecimals u' = Some (''mint'', 2)"
    using shop_refresh [of ?u w] assms(1) by auto
  have "cache_ok shop ?u"
    by (simp add: cache_ok_def shop_parts)
  then have view: "view u' = view ?u" by (rule refresh_view [OF refresh(1)])
  have "isMessageSigner (signer_named ''alice'')" by (simp add: isMessageSigner_def signer_named_def)
  then have "onUnlock shop (w, u) = (Inr ''Unlocked. The keys stay in this tab and are reused for every step.'', (w, u'))"
    using assms refresh(1)
    by (simp add: onUnlock_def require_bind io_bind_def [of "currentMint shop"] shop_mint shop_parts shop_keys
        io_bind_def [of "io_local m" for m] change_bind io_bind_def [of "refreshBalances shop"])
  moreover have "shop_ui u'" using view_facts(1,2) [OF view] refresh(2) assms(1) by (simp add: shop_ui_def)
  ultimately show ?thesis by blast
qed

lemma shop_reachable: "\<exists>t. reachable_app shop t \<and> ap_world t = 0 \<and> shop_ui (ap_ui t)"
proof -
  let ?t0 = "\<lparr>ap_ui = wallets_changed shop [shop_wallet] first_ui, ap_world = 0, ap_running = None\<rparr>"
  have offers: "offered shop_wallets ''solana:devnet'' [shop_wallet] = [\<lparr>wc_wallet = shop_wallet, wc_canSignMessages = True\<rparr>]"
    by (simp add: offered_def shop_wallet_def shop_wallets_def)
  have "can_press (ap_ui ?t0) (Connect_Button shop_wallet)"
    by (simp add: can_press_def wallets_changed_def shop_parts offers)
  then obtain u1 where press1: "app_step shop ?t0 (?t0\<lparr>ap_ui := u1, ap_running := Some (Connect_Button shop_wallet)\<rparr>)"
      "ui_mintDecimals u1 = None"
    using app_step.press [of ?t0 "Connect_Button shop_wallet" _ shop]
    by (auto simp: actionBegin_def wallets_changed_def first_ui_def setStatus_def)
  let ?u2 = "show_in ''address'' ''alice'' (u1\<lparr>ui_signer := Some (signer_named ''alice''), ui_keys := None\<rparr>)"
  let ?u3 = "settled (setStatus Ui_Done ''Connected alice'' ?u2)"
  have "actionEnd (handler shop (Connect_Button shop_wallet)) (0, u1) = (Inr (), (0, ?u3))"
    by (simp add: actionEnd_def io_try_def shop_connect change_bind io_bind_def [of "io_try m f h" for m f h])
  then have end1: "app_step shop (?t0\<lparr>ap_ui := u1, ap_running := Some (Connect_Button shop_wallet)\<rparr>)
      (?t0\<lparr>ap_ui := ?u3, ap_running := None\<rparr>)"
    using app_step.ended [of "?t0\<lparr>ap_ui := u1, ap_running := Some (Connect_Button shop_wallet)\<rparr>"
        "Connect_Button shop_wallet" shop "Inr ()" 0 ?u3] by simp
  let ?t2 = "?t0\<lparr>ap_ui := ?u3, ap_running := None\<rparr>"
  have u3: "ui_signer ?u3 = Some (signer_named ''alice'')" "ui_unlockEnabled ?u3" "\<not> ui_busy ?u3"
      "ui_mintDecimals ?u3 = None"
    by (simp_all add: settled_def setStatus_def show_in_def press1(2))
  let ?u4 = "setStatus Ui_Busy (busyLabel Unlock_Button @ ellipsis) (?u3\<lparr>ui_busy := True,
      ui_walletsEnabled := False, ui_unlockEnabled := False, ui_keyedEnabled := False\<rparr>)"
  have press2: "app_step shop ?t2 (?t2\<lparr>ap_ui := ?u4, ap_running := Some Unlock_Button\<rparr>)"
    by (rule app_step.press) (simp_all add: can_press_def u3 actionBegin_def)
  obtain shown u5 where unlock: "onUnlock shop (0, ?u4) = (Inr shown, (0, u5))" "shop_ui u5"
    using shop_unlock [of ?u4 0] u3 by (auto simp: setStatus_def)
  have "actionEnd (handler shop Unlock_Button) (0, ?u4) = (Inr (), (0, settled (setStatus Ui_Done shown u5)))"
    using unlock(1) by (simp add: actionEnd_def io_try_def io_bind_def [of "io_try m f h" for m f h])
  then have end2: "app_step shop (?t2\<lparr>ap_ui := ?u4, ap_running := Some Unlock_Button\<rparr>)
      (?t2\<lparr>ap_ui := settled (setStatus Ui_Done shown u5), ap_running := None\<rparr>)"
    using app_step.ended [of "?t2\<lparr>ap_ui := ?u4, ap_running := Some Unlock_Button\<rparr>"
        Unlock_Button shop "Inr ()" 0 "settled (setStatus Ui_Done shown u5)"] by simp
  have "reachable_app shop ?t0" by (rule app_loaded)
  from app_stepped [OF app_stepped [OF app_stepped [OF app_stepped [OF this press1(1)] end1] press2] end2]
  show ?thesis using unlock(2) by (intro exI conjI) (assumption, simp_all add: shop_ui_def settled_def setStatus_def)
qed

lemma typed_600: "toBaseUnits ''6.00'' 2 = Inr 600"
  by code_simp

lemma shop_sends:
  assumes "shop_ui u"
  shows "\<exists>shown x. onTransfer shop (w, u) = (Inr shown, x)"
proof -
  let ?u = "u\<lparr>ui_mintDecimals := Some (''mint'', 2)\<rparr>"
  let ?in = "typedTransfer shop (signer_named ''alice'') some_keys ''mint'' ''bob'' 600"
  let ?r = "\<lparr>to_sourceToken = ''alice/mint'', to_destinationToken = ''bob/mint'',
        to_flow = \<lparr>fr_signatures = [''sig''], fr_proofAccountsLeftOpen = []\<rparr>\<rparr>"
  have u: "ui_mintDecimals u \<in> {None, Some (''mint'', 2)}" "ui_signer u = Some (signer_named ''alice'')"
      "ui_keys u = Some some_keys"
    using assms by (simp_all add: shop_ui_def)
  have "\<exists>w'. transfer byte_group bundle_kit toy_zk ?in w = (Inr ?r, w')"
    by (rule bundle_transfer [where b = 1000 and a = 600 and p = "''alice''"])
      (simp_all add: shop_parts cachedKeys_set tokenOf_def destinationOf_def toy_kit_def idle_kit_def
        signer_named_def)
  then obtain w' where sent: "transfer byte_group bundle_kit toy_zk ?in w = (Inr ?r, w')" ..
  obtain u' where refresh: "refreshBalances shop (w', logAll ''transfer '' [''sig''] ?u) = (Inr (), (w', u'))"
    using shop_refresh [of "logAll ''transfer '' [''sig''] ?u" w'] u by auto
  show ?thesis
    by (simp add: onTransfer_def input_bind shop_parts io_bind_def [of "currentMint shop"] shop_mint [OF u(1)] typed_600
        io_bind_def [of "io_local m" for m] require_bind u(2,3) typedTransfer_def [symmetric] sent change_bind
        io_bind_def [of "refreshBalances shop"] refresh)
qed

section \<open>Properties\<close>





end
