(* ===== verification/Cli.thy ===== *)
theory Cli
  imports Csv Doubles
begin

text \<open>
  The command line for auditors, \<open>src/src/cli.ts\<close>. What the process prints is a record \<open>console\<close> beside the
  world, and \<open>runCli\<close> ends with the exit code. Node's \<open>parseArgs\<close>, \<open>Date\<close>, \<open>URL\<close> and the file system are
  parameters; the reading of the wallet file is one of them.
\<close>

section \<open>The process\<close>

record console =
  co_out :: string
  co_err :: string

record cli_values =
  cv_mint :: "string option"
  cv_keypair :: "string option"
  cv_rpc :: "string option"
  cv_out :: "string option"
  cv_since :: "string option"
  cv_until :: "string option"
  cv_max :: "string option"
  cv_concurrency :: "string option"
  cv_skipAuditorKeyCheck :: bool
  cv_help :: bool

record 'w cli =
  cl_kit :: "'w kit"
  cl_zk :: "'w zk"
  cl_program :: program_client
  cl_parseArgs :: "string list \<Rightarrow> exn + cli_values"
  cl_RPC_URL :: "string option"
  cl_date :: "string \<Rightarrow> date"
  cl_createRpc :: "string \<Rightarrow> exn + 'w rpc"
  cl_origin :: "string \<Rightarrow> exn + string"
  cl_address :: "string \<Rightarrow> exn + address"
  cl_readWallet :: "string \<Rightarrow> ('w, signer) task"
  cl_writeFile :: "string \<Rightarrow> string \<Rightarrow> ('w, unit) task"

type_synonym ('w, 'a) cli_act = "('w \<times> console, 'a) task"

definition USAGE :: string where
  "USAGE =
     ''Usage:'' @ newline @
     ''  confidential-transfers audit-report --mint <address> --keypair <auditor wallet keypair.json> --rpc <url>'' @ newline @
     ''      [--out <file.csv>] [--since <date>] [--until <date>] [--max <transactions>] [--concurrency <n>]'' @ newline @
     ''      [--skip-auditor-key-check]'' @ newline @ newline @
     ''  Lists every deposit, confidential transfer and withdraw of the mint, with the amounts of the'' @ newline @
     ''  confidential transfers decrypted with the auditor key, as CSV (to --out, or to standard output).'' @ newline @ newline @
     ''  --keypair   the auditor's Solana wallet keypair file (the JSON array the Solana CLI writes); the'' @ newline @
     ''              auditor's ElGamal key is derived from it, as deriveAuditorElgamalKeypair does'' @ newline @
     ''  --rpc       RPC endpoint (or set RPC_URL); it must serve getSignaturesForAddress and getTransaction'' @ newline @
     ''  --since, --until   ISO dates or times, e.g. 2026-10-01 or 2026-10-01T12:00:00Z (UTC)'' @ newline"

definition stderr_write :: "string \<Rightarrow> ('w, unit) cli_act" where
  "stderr_write s = change (\<lambda>c. c\<lparr>co_err := co_err c @ s\<rparr>)"

definition stdout_write :: "string \<Rightarrow> ('w, unit) cli_act" where
  "stdout_write s = change (\<lambda>c. c\<lparr>co_out := co_out c @ s\<rparr>)"

section \<open>main\<close>

text \<open>The values with which there is something to do: the mint, the wallet file and the endpoint.\<close>

definition required :: "'w cli \<Rightarrow> cli_values \<Rightarrow> (string \<times> string \<times> string) option" where
  "required C v =
     (case (truthy (cv_mint v), truthy (cv_keypair v),
            truthy (case cv_rpc v of Some u \<Rightarrow> Some u | None \<Rightarrow> cl_RPC_URL C)) of
        (Some mint, Some keypair, Some rpcUrl) \<Rightarrow> Some (mint, keypair, rpcUrl)
      | _ \<Rightarrow> None)"

definition dateOption :: "'w cli \<Rightarrow> string option \<Rightarrow> string \<Rightarrow> exn + date option" where
  "dateOption C value name =
     (case value of
        None \<Rightarrow> Inr None
      | Some s \<Rightarrow> (case cl_date C s of
          None \<Rightarrow> Inl (Js_Error ''Error'' (''--'' @ name @ '': not a date: '' @ s))
        | Some t \<Rightarrow> Inr (Some (Some t))))"

text \<open>Up to the call of \<open>listConfidentialActivity\<close>: its input, and the decimals of the mint.\<close>

definition openReport ::
  "'w cli \<Rightarrow> cli_values \<Rightarrow> string \<times> string \<times> string \<Rightarrow> ('w, 'w report_input \<times> nat) cli_act" where
  "openReport C v given =
     (case given of (mintText, keypair, rpcUrl) \<Rightarrow>
      io_bind (io_of (cl_createRpc C rpcUrl)) (\<lambda>rpc.
      io_bind (io_of (cl_address C mintText)) (\<lambda>mint.
      io_bind (io_local (cl_readWallet C keypair)) (\<lambda>wallet.
      io_bind (io_local (deriveAuditorElgamalKeypair (cl_kit C) (cl_zk C) wallet)) (\<lambda>auditorKeypair.
      io_bind (io_of (cl_origin C rpcUrl)) (\<lambda>origin.
      io_bind (io_of (getAuditorElgamalPubkey (cl_kit C) auditorKeypair)) (\<lambda>pubkey.
      io_bind (stderr_write (''RPC:         '' @ origin @ newline @ ''mint:        '' @ mint @ newline @
        ''auditor key: '' @ pubkey @ newline)) (\<lambda>_.
      io_bind (io_local (readMint rpc mint ''audit-report'')) (\<lambda>data.
      io_bind (io_of (dateOption C (cv_since v) ''since'')) (\<lambda>since.
      io_bind (io_of (dateOption C (cv_until v) ''until'')) (\<lambda>until.
      io_return
        (\<lparr>re_rpc = rpc, re_mint = mint, re_keypair = auditorKeypair, re_since = since, re_until = until,
          re_maxTransactions = map_option number_of_text (cv_max v),
          re_concurrency = map_option number_of_text (cv_concurrency v),
          re_skipAuditorKeyCheck = cv_skipAuditorKeyCheck v, re_programAddress = None\<rparr>,
         mt_decimals data))))))))))))"

definition countOf :: "string \<Rightarrow> activity list \<Rightarrow> nat" where
  "countOf kind activities = length (filter (\<lambda>a. kindText (mv_kind (ac_movement a)) = kind) activities)"

definition summaryLine :: "activity list \<Rightarrow> string" where
  "summaryLine activities =
     (let unreadable = length (filter (\<lambda>a. mv_amount (ac_movement a) = None) activities) in
      ''found:       '' @ show_nat (countOf ''deposit'' activities) @ '' deposits, '' @
      show_nat (countOf ''transfer'' activities + countOf ''transfer-with-fee'' activities) @ '' confidential transfers, '' @
      show_nat (countOf ''withdraw'' activities) @ '' withdraws'' @
      (if unreadable = 0 then []
       else '' ('' @ show_nat unreadable @ '' amounts could not be decrypted; see the note column)'') @ newline)"

definition publish :: "'w cli \<Rightarrow> cli_values \<Rightarrow> nat \<Rightarrow> activity list \<Rightarrow> ('w, nat) cli_act" where
  "publish C v decimals activities =
     io_bind (io_of (confidentialActivityToCsv activities (Some decimals))) (\<lambda>csv.
     io_bind (stderr_write (summaryLine activities)) (\<lambda>_.
     case truthy (cv_out v) of
       Some file \<Rightarrow>
         io_bind (io_local (cl_writeFile C file csv)) (\<lambda>_.
         io_bind (stderr_write (''written:     '' @ file @ newline)) (\<lambda>_. io_return 0))
     | None \<Rightarrow> io_bind (stdout_write csv) (\<lambda>_. io_return 0)))"

definition auditReport :: "'w cli \<Rightarrow> cli_values \<Rightarrow> string \<times> string \<times> string \<Rightarrow> 'w \<times> console \<Rightarrow>
    ((exn + nat) \<times> 'w \<times> console) option" where
  "auditReport C v given x =
     (case openReport C v given x of
        (Inl e, x1) \<Rightarrow> Some (Inl e, x1)
      | (Inr (input, decimals), (w1, c1)) \<Rightarrow>
          (case listConfidentialActivity (cl_kit C) (cl_zk C) (cl_program C) input w1 of
             None \<Rightarrow> None
           | Some (Inl e, w2) \<Rightarrow> Some (Inl e, (w2, c1))
           | Some (Inr activities, w2) \<Rightarrow> Some (publish C v decimals activities (w2, c1))))"

fun cliMain :: "'w cli \<Rightarrow> string list \<Rightarrow> 'w \<times> console \<Rightarrow> ((exn + nat) \<times> 'w \<times> console) option" where
  "cliMain C [] x = Some (io_bind (stderr_write USAGE) (\<lambda>_. io_return 0) x)"
| "cliMain C (command # rest) x =
     (if command \<noteq> ''audit-report''
      then Some (io_bind (stderr_write USAGE)
        (\<lambda>_. io_return (if command = ''--help'' \<or> command = ''-h'' then 0 else 1)) x)
      else (case cl_parseArgs C rest of
          Inl e \<Rightarrow> Some (Inl e, x)
        | Inr v \<Rightarrow>
            if cv_help v then Some (io_bind (stderr_write USAGE) (\<lambda>_. io_return 0) x)
            else (case required C v of
                None \<Rightarrow> Some (io_bind (stderr_write
                  (''--mint, --keypair and --rpc (or RPC_URL) are required.'' @ newline @ newline @ USAGE))
                  (\<lambda>_. io_return 1) x)
              | Some given \<Rightarrow> auditReport C v given x)))"

definition runCli :: "'w cli \<Rightarrow> string list \<Rightarrow> 'w \<Rightarrow> (nat \<times> 'w \<times> console) option" where
  "runCli C argv w =
     (case cliMain C argv (w, \<lparr>co_out = [], co_err = []\<rparr>) of
        None \<Rightarrow> None
      | Some (Inr code, (w', c)) \<Rightarrow> Some (code, w', c)
      | Some (Inl e, (w', c)) \<Rightarrow> Some (1, w', c\<lparr>co_err := co_err c @ ''error: '' @ js_message e @ newline\<rparr>))"

section \<open>What is printed\<close>

text \<open>Everything before the report is published leaves the standard output alone.\<close>

definition silent :: "('w, 'a) cli_act \<Rightarrow> bool" where
  "silent m \<longleftrightarrow> (\<forall>out. io_keeps (\<lambda>x. co_out (snd x) = out) m)"

lemma silentD: "silent m \<Longrightarrow> m (w, c) = (r, (w', c')) \<Longrightarrow> co_out c' = co_out c"
  unfolding silent_def using keepsD [of "\<lambda>x. co_out (snd x) = co_out c" m "(w, c)" r "(w', c')"] by simp

lemma silent_openReport: "silent (openReport C v given)"
  unfolding silent_def openReport_def stderr_write_def
  by (intro allI keeps_prod keeps_bind keeps_change keeps_local_keeps keeps_local_basic) simp_all

lemma openReport_Inr:
  assumes "openReport C v (mintText, keypair, rpcUrl) (w, c) = (Inr (input, decimals), (w', c'))"
  shows "cl_address C mintText = Inr (re_mint input) \<and> cl_createRpc C rpcUrl = Inr (re_rpc input) \<and>
     re_concurrency input = map_option number_of_text (cv_concurrency v) \<and>
     re_maxTransactions input = map_option number_of_text (cv_max v) \<and>
     dateOption C (cv_since v) ''since'' = Inr (re_since input) \<and>
     dateOption C (cv_until v) ''until'' = Inr (re_until input) \<and>
     re_skipAuditorKeyCheck input = cv_skipAuditorKeyCheck v \<and> co_out c' = co_out c"
proof -
  have "co_out c' = co_out c" by (rule silentD [OF silent_openReport assms])
  then show ?thesis
    using assms by (auto simp: openReport_def io_elim io_local_eq_pair stderr_write_def)
qed

lemma publish_steps:
  "publish C v decimals activities (w, c) =
     (case confidentialActivityToCsv activities (Some decimals) of
        Inl e \<Rightarrow> (Inl e, (w, c))
      | Inr csv \<Rightarrow>
          let c1 = c\<lparr>co_err := co_err c @ summaryLine activities\<rparr> in
          case truthy (cv_out v) of
            None \<Rightarrow> (Inr 0, (w, c1\<lparr>co_out := co_out c @ csv\<rparr>))
          | Some file \<Rightarrow> (case cl_writeFile C file csv w of
                (Inl e, w1) \<Rightarrow> (Inl e, (w1, c1))
              | (Inr _, w1) \<Rightarrow> (Inr 0, (w1, c1\<lparr>co_err := co_err c1 @ ''written:     '' @ file @ newline\<rparr>))))"
  by (cases "confidentialActivityToCsv activities (Some decimals)"; cases "truthy (cv_out v)")
    (simp_all add: publish_def stderr_write_def stdout_write_def io_bind_def io_local_def Let_def
      split: prod.splits sum.splits)

lemma publish_Inr:
  assumes "publish C v decimals activities (w, c) = (Inr code, (w', c'))" and "co_out c = []"
  shows "code = 0 \<and> (\<exists>csv. confidentialActivityToCsv activities (Some decimals) = Inr csv \<and>
     (case truthy (cv_out v) of
        None \<Rightarrow> co_out c' = csv \<and> w' = w
      | Some file \<Rightarrow> co_out c' = [] \<and> cl_writeFile C file csv w = (Inr (), w')))"
  using assms unfolding publish_steps Let_def
  by (cases "truthy (cv_out v)") (auto split: sum.splits prod.splits)

lemma publish_Inl:
  assumes "publish C v decimals activities (w, c) = (Inl e, (w', c'))"
  shows "co_out c' = co_out c"
  using assms unfolding publish_steps Let_def
  by (cases "truthy (cv_out v)") (auto split: sum.splits prod.splits)

lemma cli_run:
  assumes "cl_parseArgs C rest = Inr v" and "\<not> cv_help v"
    and "runCli C (''audit-report'' # rest) w = Some (code, w', c)"
  shows "code = 1 \<and> co_out c = [] \<or>
     code = 0 \<and> (\<exists>mintText keypair rpcUrl input w1 w2 activities decimals csv rows.
        required C v = Some (mintText, keypair, rpcUrl) \<and> cl_address C mintText = Inr (re_mint input) \<and>
        cl_createRpc C rpcUrl = Inr (re_rpc input) \<and>
        dateOption C (cv_since v) ''since'' = Inr (re_since input) \<and>
        dateOption C (cv_until v) ''until'' = Inr (re_until input) \<and>
        re_maxTransactions input = map_option number_of_text (cv_max v) \<and>
        re_concurrency input = map_option number_of_text (cv_concurrency v) \<and>
        listConfidentialActivity (cl_kit C) (cl_zk C) (cl_program C) input w1 = Some (Inr activities, w2) \<and>
        confidentialActivityToCsv activities (Some decimals) = Inr csv \<and>
        parseCsv csv = Some (csvHeader (Some decimals) # rows) \<and> length rows = length activities \<and>
        (case truthy (cv_out v) of
           None \<Rightarrow> co_out c = csv \<and> w' = w2
         | Some file \<Rightarrow> co_out c = [] \<and> cl_writeFile C file csv w2 = (Inr (), w')))"
proof (cases "required C v")
  case None
  then show ?thesis
    using assms by (auto simp: runCli_def stderr_write_def io_bind_def)
next
  case (Some given)
  obtain mintText keypair rpcUrl where given: "given = (mintText, keypair, rpcUrl)" by (cases given)
  let ?c0 = "\<lparr>co_out = [], co_err = []\<rparr>"
  obtain r x where main: "auditReport C v given (w, ?c0) = Some (r, x)"
      and run: "(case (r, x) of (Inr code, (w', c)) \<Rightarrow> (code, w', c)
        | (Inl e, (w', c)) \<Rightarrow> (1, w', c\<lparr>co_err := co_err c @ ''error: '' @ js_message e @ newline\<rparr>)) = (code, w', c)"
    using assms Some by (auto simp: runCli_def split: option.splits prod.splits sum.splits)
  obtain q w1 c1 where opened: "openReport C v given (w, ?c0) = (q, (w1, c1))" by (metis surj_pair)
  have c1: "co_out c1 = []" using silentD [OF silent_openReport opened] by simp
  show ?thesis
  proof (cases "\<exists>p acts w2. q = Inr p \<and>
      listConfidentialActivity (cl_kit C) (cl_zk C) (cl_program C) (fst p) w1 = Some (Inr acts, w2)")
    case False
    then have "\<exists>e w2. r = Inl e \<and> x = (w2, c1)"
      using main opened by (cases q) (auto simp: auditReport_def split: option.splits prod.splits sum.splits)
    then show ?thesis using run c1 by auto
  next
    case True
    then obtain input decimals acts w2 where p: "q = Inr (input, decimals)"
        "listConfidentialActivity (cl_kit C) (cl_zk C) (cl_program C) input w1 = Some (Inr acts, w2)"
      by force
    obtain w3 c3 where x: "x = (w3, c3)" by force
    have pub: "publish C v decimals acts (w2, c1) = (r, (w3, c3))"
      using main opened p x by (simp add: auditReport_def)
    show ?thesis
    proof (cases r)
      case (Inl e)
      then show ?thesis using run x publish_Inl [of C v decimals acts w2 c1 e w3 c3] pub c1 by auto
    next
      case (Inr n)
      from publish_Inr [OF pub [unfolded Inr] c1] obtain csv where csv: "n = 0"
          "confidentialActivityToCsv acts (Some decimals) = Inr csv"
          "case truthy (cv_out v) of
             None \<Rightarrow> co_out c3 = csv \<and> w3 = w2
           | Some file \<Rightarrow> co_out c3 = [] \<and> cl_writeFile C file csv w2 = (Inr (), w3)" by blast
      obtain rows where rows: "parseCsv csv = Some (csvHeader (Some decimals) # rows)"
          "result_map (csvRow (Some decimals)) acts = Inr rows"
        using csv_parsed [OF csv(2)] by blast
      have "length rows = length acts" by (rule result_map_length [OF rows(2)])
      moreover note openReport_Inr [OF opened [unfolded given p(1)]]
      moreover have "code = 0 \<and> w' = w3 \<and> c = c3" using run x Inr csv(1) by simp
      ultimately show ?thesis using Some given p(2) csv(2,3) rows(1) by (intro disjI2) blast
    qed
  qed
qed

lemma nan_concurrency_reports_nothing:
  assumes "listConfidentialActivity K Z P input w = Some (Inr acts, w')" and "re_concurrency input = Some NaN"
  shows "acts = []"
  using assms
  by (auto simp: list_Some concurrencyOf_def promise_all_def io_elim split: if_splits)

section \<open>Properties\<close>



section \<open>A concrete run\<close>

text \<open>A mint with one deposit, and a command line that asks for its report, for the witnesses.\<close>

definition deposit_tx :: rpc_transaction where
  "deposit_tx = \<lparr>rt_slot = 7, rt_blockTime = Some 1790000000,
     rt_accountKeys = Some [TOKEN_2022_PROGRAM_ADDRESS, ''from'', ''mint''], rt_staticAccountKeys = None,
     rt_instructions = [\<lparr>ri_programIdIndex = 0, ri_accounts = [1, 2], ri_data = as_text [27, 5, 9]\<rparr>],
     rt_meta = Some \<lparr>tm_err = False, tm_logMessages = None, tm_innerInstructions = None,
       tm_loadedAddresses = None, tm_preTokenBalances = None\<rparr>\<rparr>"

definition cli_rpc :: "nat rpc" where
  "cli_rpc = history_rpc [info ''s1'' 10] (\<lambda>_. Some deposit_tx) (Some ''k'')"

definition given_values :: "string option \<Rightarrow> cli_values" where
  "given_values concurrency = \<lparr>cv_mint = Some ''mint'', cv_keypair = Some ''wallet.json'', cv_rpc = Some ''https://node'',
     cv_out = None, cv_since = None, cv_until = None, cv_max = None, cv_concurrency = concurrency,
     cv_skipAuditorKeyCheck = False, cv_help = False\<rparr>"

definition toy_cli :: "string option \<Rightarrow> nat cli" where
  "toy_cli concurrency = \<lparr>cl_kit = text_kit, cl_zk = toy_zk, cl_program = toy_program,
     cl_parseArgs = (\<lambda>_. Inr (given_values concurrency)), cl_RPC_URL = None, cl_date = (\<lambda>_. None),
     cl_createRpc = (\<lambda>_. Inr cli_rpc), cl_origin = Inr, cl_address = Inr,
     cl_readWallet = (\<lambda>_. io_return (signer_named ''auditor'')), cl_writeFile = (\<lambda>_ _. io_return ())\<rparr>"

definition cli_input :: "js_number option \<Rightarrow> nat report_input" where
  "cli_input concurrency = \<lparr>re_rpc = cli_rpc, re_mint = ''mint'', re_keypair = some_keypair, re_since = None,
     re_until = None, re_maxTransactions = None, re_concurrency = concurrency, re_skipAuditorKeyCheck = False,
     re_programAddress = None\<rparr>"

lemma toy_open:
  "\<exists>c'. openReport (toy_cli s) (given_values s) (''mint'', ''wallet.json'', ''https://node'') (w, c) =
     (Inr (cli_input (map_option number_of_text s), 2), (w, c'))"
proof -
  have keypair: "deriveAuditorElgamalKeypair text_kit toy_zk (signer_named ''auditor'') w = (Inr some_keypair, w)"
    by (simp add: deriveAuditorElgamalKeypair_def deriveConfidentialKeys_def ensureZk_def confidentialKeysFrom_def
        signDerivationMessage_def text_kit_def toy_kit_def toy_zk_def idle_kit_def idle_zk_def signer_named_def
        io_bind_def initConfidentialTransfers_def)
  have key: "getAuditorElgamalPubkey text_kit some_keypair = Inr ''k''"
    using toy_pubkey by (simp add: getAuditorElgamalPubkey_def assertZkReady_def some_keypair_def)
  have mint: "readMint cli_rpc ''mint'' op w =
      (Inr \<lparr>mt_decimals = 2, mt_extensions = Some [ConfidentialTransferMint (Some ''k'')]\<rparr>, w)" for op
    by (simp add: readMint_def cli_rpc_def history_rpc_def)
  show ?thesis
    by (simp add: openReport_def toy_cli_def given_values_def io_bind_def [of "io_local m" for m] keypair key mint
        io_bind_def [of "stderr_write m" for m] stderr_write_def dateOption_def cli_input_def)
qed

lemma cli_key_check: "auditorKeyCheck text_kit (cli_input c) w = (Inr (), w)"
proof -
  have "getAuditorElgamalPubkey text_kit some_keypair = Inr ''k''"
    using toy_pubkey by (simp add: getAuditorElgamalPubkey_def assertZkReady_def some_keypair_def)
  then show ?thesis
    by (simp add: auditorKeyCheck_def cli_input_def cli_rpc_def history_rpc_def readMint_def auditorOfMint_def or_nil_def)
qed

lemma cli_signatures: "signaturesOf (cli_input c) w = Some (Inr [''s1''], w)"
  by (simp add: signaturesOf_def cli_input_def boundOf_def pagesFrom.simps [of _ _ _ None] cli_rpc_def
      history_rpc_def after_sig_def info_def PAGE_LIMIT_def tooOld_def tooNew_def full_def)

definition the_deposit :: activity where
  "the_deposit = \<lparr>ac_signature = ''s1'', ac_slot = 7, ac_blockTime = Some (Some 1790000000000),
     ac_movement = plainMovement Kind_Deposit (Some ''from'', None) 9\<rparr>"

lemma cli_entries:
  "entriesOf text_kit (toy_zk :: nat zk) toy_program (cli_input c) (''s1'', Some deposit_tx) = Inr [the_deposit]"
  by (simp add: entriesOf_def deposit_tx_def keysOf_def or_nil_def innerOf_def allInstructions_def
      enumerate_eq_zip ownersOf_def programOfReport_def cli_input_def item_def accountAt_def
      text_kit_base58 toActivity_def toy_program_def the_deposit_def makeDate_def)

lemma cli_report:
  "listConfidentialActivity text_kit toy_zk toy_program (cli_input None) w = Some (Inr [the_deposit], w)"
proof -
  have "readAll text_kit (toy_zk :: nat zk) toy_program (cli_input None) [''s1''] w = (Inr [[the_deposit]], w)"
  proof -
    have "rpc_getTransaction (re_rpc (cli_input None)) s w = (Inr (Some deposit_tx), w)" for s
      by (simp add: cli_input_def cli_rpc_def history_rpc_def)
    then show ?thesis by (simp add: readAll_def cli_entries)
  qed
  moreover have "re_concurrency (cli_input None) \<noteq> Some NaN" by (simp add: cli_input_def)
  ultimately show ?thesis by (simp add: list_report cli_key_check cli_signatures)
qed

lemma cli_csv: "\<exists>csv. confidentialActivityToCsv [the_deposit] (Some 2) = Inr csv"
proof -
  have "toISOString (Some 1790000000000) = Inr ''2026-09-21T14:13:20.000Z''" by code_simp
  then have "\<exists>row. csvRow (Some 2) the_deposit = Inr row" by (simp add: csvRow_def the_deposit_def Let_def)
  then show ?thesis by (auto simp: confidentialActivityToCsv_def)
qed

lemma cli_runs:
  assumes "listConfidentialActivity text_kit toy_zk toy_program (cli_input (map_option number_of_text s)) 0 =
      Some (Inr acts, 0)" and "confidentialActivityToCsv acts (Some 2) = Inr csv"
  shows "\<exists>c. runCli (toy_cli s) [''audit-report''] 0 = Some (0, 0, c) \<and> co_out c = csv"
proof -
  obtain c' where opened: "openReport (toy_cli s) (given_values s) (''mint'', ''wallet.json'', ''https://node'')
      (0, \<lparr>co_out = [], co_err = []\<rparr>) = (Inr (cli_input (map_option number_of_text s), 2), (0, c'))"
    using toy_open by blast
  have "co_out c' = []" using silentD [OF silent_openReport opened] by simp
  moreover have "cl_parseArgs (toy_cli s) rest = Inr (given_values s)" "cl_kit (toy_cli s) = text_kit"
      "cl_zk (toy_cli s) = toy_zk" "cl_program (toy_cli s) = toy_program" for rest
    by (simp_all add: toy_cli_def)
  moreover have "required (toy_cli s) (given_values s) = Some (''mint'', ''wallet.json'', ''https://node'')"
      "\<not> cv_help (given_values s)" "cv_out (given_values s) = None"
    by (simp_all add: required_def given_values_def)
  ultimately show ?thesis
    using opened assms by (simp add: runCli_def auditReport_def publish_steps Let_def)
qed



end
