(* ===== verification/Examples.thy ===== *)
theory Examples
  imports Transfers Doubles
begin

text \<open>
  The example scripts under \<open>src/examples\<close> that call the SDK against a network: \<open>confidential-transfer.ts\<close> (a
  local validator), \<open>devnet.ts\<close>, \<open>devnet-mint.ts\<close> and \<open>mainnet.ts\<close>. A script ends with its exit code. What
  it prints is left out; the wallet file, the endpoints and what of kit only the scripts use are a parameter.
\<close>

section \<open>What the scripts share\<close>

record ('w, 'p) script =
  sc_points :: "'p ristretto"
  sc_kit :: "'w kit"
  sc_zk :: "'w zk"
  sc_rpc :: "'w rpc"
  sc_readWallet :: "('w, signer) task"
  sc_airdrop :: "address \<Rightarrow> int \<Rightarrow> ('w, unit) task"
  sc_getBalance :: "address \<Rightarrow> ('w, int) task"
  sc_getMinimumBalanceForRentExemption :: "int \<Rightarrow> ('w, int) task"
  sc_mintSize :: "address \<Rightarrow> int"
  sc_fetchToken :: "address \<Rightarrow> ('w, token) task"
  sc_signWithSigners :: "message \<Rightarrow> ('w, transaction) task"
  sc_assertBlockhashLifetime :: "transaction \<Rightarrow> exn + unit"
  sc_transferSol :: "address \<Rightarrow> address \<Rightarrow> int \<Rightarrow> instruction"
  sc_address :: "string \<Rightarrow> exn + address"
  sc_pause :: "('w, unit) task"

text \<open>Build, sign and send one transaction; \<open>mainnet.ts\<close> does it with a priority fee.\<close>

definition signAndSend ::
  "('w, 'p) script \<Rightarrow> (message \<Rightarrow> exn + message) \<Rightarrow> signer \<Rightarrow> instruction list \<Rightarrow> ('w, transaction) task" where
  "signAndSend S priced payer ixs =
     io_bind (rpc_getLatestBlockhash (sc_rpc S)) (\<lambda>latest.
     io_bind (io_of (priced \<lparr>msg_feePayer = payer, msg_lifetime = Some latest, msg_instructions = []\<rparr>)) (\<lambda>msg.
     io_bind (sc_signWithSigners S (msg\<lparr>msg_instructions := msg_instructions msg @ ixs\<rparr>)) (\<lambda>signed.
     io_bind (io_of (sc_assertBlockhashLifetime S signed)) (\<lambda>_.
     io_bind (rpc_sendAndConfirm (sc_rpc S) signed) (\<lambda>_. io_return signed)))))"

definition sendPlain :: "('w, 'p) script \<Rightarrow> signer \<Rightarrow> instruction list \<Rightarrow> ('w, unit) task" where
  "sendPlain S payer ixs = io_bind (signAndSend S Inr payer ixs) (\<lambda>_. io_return ())"

definition sendPriced :: "('w, 'p) script \<Rightarrow> int \<Rightarrow> signer \<Rightarrow> instruction list \<Rightarrow> ('w, signature) task" where
  "sendPriced S fee payer ixs =
     io_bind (signAndSend S (kit_setComputeUnitPrice (sc_kit S) fee) payer ixs) (\<lambda>signed.
     io_of (kit_getSignature (sc_kit S) signed))"

definition scriptInput ::
  "('w, 'p) script \<Rightarrow> numeric option \<Rightarrow> signer \<Rightarrow> signer \<Rightarrow> address \<Rightarrow> 'w operation_input" where
  "scriptInput S price payer owner mint =
     \<lparr>in_rpc = sc_rpc S, in_payer = payer, in_owner = owner, in_mint = mint, in_token = None, in_keys = None,
      in_programAddress = None, in_computeUnitPrice = price, in_retries = None\<rparr>"

definition configureFor ::
  "('w, 'p) script \<Rightarrow> numeric option \<Rightarrow> signer \<Rightarrow> signer \<Rightarrow> address \<Rightarrow> ('w, configure_result) task" where
  "configureFor S price payer owner mint = configureAccount (sc_kit S) (sc_zk S)
     (operation_input.extend (scriptInput S price payer owner mint) (configure_input.fields None))"

definition depositFor ::
  "('w, 'p) script \<Rightarrow> numeric option \<Rightarrow> signer \<Rightarrow> signer \<Rightarrow> address \<Rightarrow> int \<Rightarrow> nat \<Rightarrow> ('w, address \<times> signature) task" where
  "depositFor S price payer owner mint amount decimals = deposit (sc_kit S)
     (operation_input.extend (scriptInput S price payer owner mint) (deposit_input.fields (BigInt_v amount) decimals))"

definition applyFor ::
  "('w, 'p) script \<Rightarrow> numeric option \<Rightarrow> signer \<Rightarrow> signer \<Rightarrow> address \<Rightarrow> ('w, address \<times> signature) task" where
  "applyFor S price payer owner mint =
     applyPendingBalance (sc_kit S) (sc_zk S) (scriptInput S price payer owner mint)"

definition transferFor ::
  "('w, 'p) script \<Rightarrow> numeric option \<Rightarrow> signer \<Rightarrow> signer \<Rightarrow> address \<Rightarrow> address \<Rightarrow> int \<Rightarrow> ('w, transfer_result) task" where
  "transferFor S price payer owner mint to amount = transfer (sc_points S) (sc_kit S) (sc_zk S)
     (operation_input.extend (scriptInput S price payer owner mint)
       (transfer_input.fields (Some to) (BigInt_v amount) None None))"

definition withdrawFor ::
  "('w, 'p) script \<Rightarrow> numeric option \<Rightarrow> signer \<Rightarrow> signer \<Rightarrow> address \<Rightarrow> int \<Rightarrow> nat \<Rightarrow> ('w, withdraw_result) task" where
  "withdrawFor S price payer owner mint amount decimals = withdraw (sc_points S) (sc_kit S) (sc_zk S)
     (operation_input.extend (scriptInput S price payer owner mint) (withdraw_input.fields (BigInt_v amount) decimals))"

definition balanceFor :: "('w, 'p) script \<Rightarrow> signer \<Rightarrow> address \<Rightarrow> ('w, int) task" where
  "balanceFor S owner mint =
     decryptBalance (sc_kit S) (sc_zk S) (scriptInput S None owner owner mint)"

definition mintInstructions :: "('w, 'p) script \<Rightarrow> address \<Rightarrow> address \<Rightarrow> address \<Rightarrow> int \<Rightarrow> int \<Rightarrow> nat \<Rightarrow> instruction list" where
  "mintInstructions S payer mint authority rent space decimals = map (build (sc_kit S))
     [CreateAccount payer mint rent space TOKEN_2022_PROGRAM_ADDRESS,
      InitializeConfidentialTransferMint mint (Some authority) True None,
      InitializeMint2 mint decimals authority None]"

definition createConfidentialMint :: "('w, 'p) script \<Rightarrow> signer \<Rightarrow> nat \<Rightarrow> ('w, address \<times> signer) task" where
  "createConfidentialMint S payer decimals =
     io_bind (promise_all (kit_race (sc_kit S))
       [kit_generateKeyPairSigner (sc_kit S), kit_generateKeyPairSigner (sc_kit S)]) (\<lambda>made.
     let mint = sg_address (made ! 0); authority = sg_address (made ! 1); space = sc_mintSize S authority in
     io_bind (sc_getMinimumBalanceForRentExemption S space) (\<lambda>rent.
     io_bind (sendPlain S payer (mintInstructions S (sg_address payer) mint authority rent space decimals)) (\<lambda>_.
     io_return (mint, made ! 1))))"

text \<open>The exit code of a script: 1 when its \<open>main\<close> throws.\<close>

definition exitCode :: "('w, nat) task \<Rightarrow> 'w \<Rightarrow> nat \<times> 'w" where
  "exitCode main w = (case main w of (Inr code, w') \<Rightarrow> (code, w') | (Inl _, w') \<Rightarrow> (1, w'))"

section \<open>A local validator\<close>

definition fundedSigner :: "('w, 'p) script \<Rightarrow> int \<Rightarrow> ('w, signer) task" where
  "fundedSigner S sol =
     io_bind (kit_generateKeyPairSigner (sc_kit S)) (\<lambda>s.
     io_bind (sc_airdrop S (sg_address s) (sol * 1000000000)) (\<lambda>_. io_return s))"

definition localMain :: "('w, 'p) script \<Rightarrow> ('w, nat) task" where
  "localMain S =
     io_bind (fundedSigner S 5) (\<lambda>payer.
     io_bind (fundedSigner S 5) (\<lambda>alice.
     io_bind (fundedSigner S 5) (\<lambda>bob.
     io_bind (createConfidentialMint S payer 2) (\<lambda>(mint, mintAuthority).
     io_bind (configureFor S None payer alice mint) (\<lambda>configured.
     io_bind (configureFor S None payer bob mint) (\<lambda>_.
     io_bind (sendPlain S payer
       [build (sc_kit S) (MintTo mint (cr_token configured) (sg_address mintAuthority) 1000)]) (\<lambda>_.
     io_bind (depositFor S None payer alice mint 1000 2) (\<lambda>_.
     io_bind (applyFor S None payer alice mint) (\<lambda>_.
     io_bind (balanceFor S alice mint) (\<lambda>_.
     io_bind (transferFor S None payer alice mint (sg_address bob) 1000) (\<lambda>_.
     io_bind (applyFor S None payer bob mint) (\<lambda>_.
     io_bind (balanceFor S bob mint) (\<lambda>_.
     io_bind (balanceFor S alice mint) (\<lambda>_. io_return 0))))))))))))))"

section \<open>Devnet\<close>

definition fund :: "('w, 'p) script \<Rightarrow> signer \<Rightarrow> signer \<Rightarrow> int \<Rightarrow> ('w, unit) task" where
  "fund S payer destination amount =
     sendPlain S payer [sc_transferSol S (sg_address payer) (sg_address destination) amount]"

definition devnetMain :: "('w, 'p) script \<Rightarrow> ('w, nat) task" where
  "devnetMain S =
     io_bind (sc_readWallet S) (\<lambda>payer.
     io_bind (sc_getBalance S (sg_address payer)) (\<lambda>balance.
     if balance < 800000000 then io_throw (Js_Error ''Error'' ''payer needs at least ~0.8 SOL on devnet'')
     else
     io_bind (promise_all (kit_race (sc_kit S))
       [kit_generateKeyPairSigner (sc_kit S), kit_generateKeyPairSigner (sc_kit S)]) (\<lambda>made.
     let alice = made ! 0; bob = made ! 1 in
     io_bind (fund S payer alice 150000000) (\<lambda>_.
     io_bind (fund S payer bob 150000000) (\<lambda>_.
     io_bind (createConfidentialMint S payer 2) (\<lambda>(mint, mintAuthority).
     io_bind (configureFor S None payer alice mint) (\<lambda>configured.
     io_bind (configureFor S None payer bob mint) (\<lambda>_.
     io_bind (sc_pause S) (\<lambda>_.
     io_bind (sendPlain S payer
       [build (sc_kit S) (MintTo mint (cr_token configured) (sg_address mintAuthority) 1000)]) (\<lambda>_.
     io_bind (depositFor S None payer alice mint 1000 2) (\<lambda>_.
     io_bind (sc_pause S) (\<lambda>_.
     io_bind (applyFor S None payer alice mint) (\<lambda>_.
     io_bind (balanceFor S alice mint) (\<lambda>_.
     io_bind (sc_pause S) (\<lambda>_.
     io_bind (transferFor S None payer alice mint (sg_address bob) 1000) (\<lambda>_.
     io_bind (sc_pause S) (\<lambda>_.
     io_bind (applyFor S None payer bob mint) (\<lambda>_.
     io_bind (withdrawFor S None payer bob mint 400 2) (\<lambda>withdrawn.
     io_bind (sc_pause S) (\<lambda>_.
     io_bind (sc_fetchToken S (wr_token withdrawn)) (\<lambda>_.
     io_bind (balanceFor S bob mint) (\<lambda>_.
     io_bind (balanceFor S alice mint) (\<lambda>_. io_return 0)))))))))))))))))))))))"

definition devnetMint :: "('w, 'p) script \<Rightarrow> string list \<Rightarrow> ('w, nat) task" where
  "devnetMint S argv =
     (case truthy (item argv 0) of
        None \<Rightarrow> io_throw (Js_Error ''Error'' ''usage: npm run example:devnet-mint -- <your wallet address> [amount]'')
      | Some walletArg \<Rightarrow>
          io_bind (io_of (sc_address S walletArg)) (\<lambda>wallet.
          io_bind (io_of (bigint_of_text (case item argv 1 of Some a \<Rightarrow> a | None \<Rightarrow> ''1000''))) (\<lambda>whole.
          io_bind (sc_readWallet S) (\<lambda>payer.
          io_bind (kit_generateKeyPairSigner (sc_kit S)) (\<lambda>mint.
          let space = sc_mintSize S (sg_address payer) in
          io_bind (sc_getMinimumBalanceForRentExemption S space) (\<lambda>rent.
          io_bind (io_of (kit_findAssociatedTokenPda (sc_kit S) wallet TOKEN_2022_PROGRAM_ADDRESS (sg_address mint)))
            (\<lambda>token.
          io_bind (sendPlain S payer (mintInstructions S (sg_address payer) (sg_address mint) (sg_address payer)
            rent space 2)) (\<lambda>_.
          io_bind (sendPlain S payer (map (build (sc_kit S))
            [CreateAssociatedTokenIdempotent token (sg_address mint) wallet (sg_address payer) TOKEN_2022_PROGRAM_ADDRESS,
             MintTo (sg_address mint) token (sg_address payer) (whole * 10 ^ 2)])) (\<lambda>_.
          io_return 0)))))))))"

section \<open>Mainnet\<close>

text \<open>The probe: whether the proof program of mainnet accepts a proof the SDK makes, by simulation.\<close>

definition probe :: "('w, 'p) script \<Rightarrow> signer \<Rightarrow> ('w, simulation) task" where
  "probe S payer =
     io_bind (deriveConfidentialKeys (sc_kit S) (sc_zk S) payer) (\<lambda>keys.
     io_bind (zk_pubkeyValidityProof (sc_zk S) (elgamalKeypair keys)) (\<lambda>proofData.
     io_bind (kit_verifyProof (sc_kit S) PubkeyValidity (sg_address payer) proofData None) (\<lambda>ixs.
     io_bind (rpc_getLatestBlockhash (sc_rpc S)) (\<lambda>latest.
     case ixs of
       [] \<Rightarrow> io_throw (Js_Error ''TypeError'' ''Cannot read properties of undefined'')
     | verify # _ \<Rightarrow>
         io_bind (sc_signWithSigners S
           \<lparr>msg_feePayer = payer, msg_lifetime = Some latest, msg_instructions = [verify]\<rparr>)
           (rpc_simulateTransaction (sc_rpc S))))))"

text \<open>The run itself, after the checks.\<close>

definition mainnetRun :: "('w, 'p) script \<Rightarrow> int \<Rightarrow> signer \<Rightarrow> ('w, nat) task" where
  "mainnetRun S fee payer =
     (let price = Some (BigInt_v fee); me = sg_address payer in
      io_bind (kit_generateKeyPairSigner (sc_kit S)) (\<lambda>bob.
      io_bind (kit_generateKeyPairSigner (sc_kit S)) (\<lambda>mintSigner.
      let mint = sg_address mintSigner; space = sc_mintSize S me in
      io_bind (sc_getMinimumBalanceForRentExemption S space) (\<lambda>rent.
      io_bind (sendPriced S fee payer (mintInstructions S me mint me rent space 2)) (\<lambda>_.
      io_bind (configureFor S price payer payer mint) (\<lambda>configured.
      io_bind (configureFor S price payer bob mint) (\<lambda>_.
      io_bind (sendPriced S fee payer [build (sc_kit S) (MintTo mint (cr_token configured) me 100)]) (\<lambda>_.
      io_bind (depositFor S price payer payer mint 100 2) (\<lambda>_.
      io_bind (applyFor S price payer payer mint) (\<lambda>_.
      io_bind (transferFor S price payer payer mint (sg_address bob) 25) (\<lambda>_.
      io_bind (withdrawFor S price payer payer mint 10 2) (\<lambda>_.
      io_bind (balanceFor S payer mint) (\<lambda>payerConfidential.
      io_bind (sc_fetchToken S (cr_token configured)) (\<lambda>_.
      io_bind (applyFor S price payer bob mint) (\<lambda>_.
      io_bind (balanceFor S bob mint) (\<lambda>bobConfidential.
      io_bind (sc_getBalance S me) (\<lambda>_.
      if payerConfidential \<noteq> 65 \<or> bobConfidential \<noteq> 25
      then io_throw (Js_Error ''Error'' ''unexpected balances'')
      else io_return 0)))))))))))))))))"

definition NEEDED :: int where "NEEDED = 15000000"

definition mainnetMain :: "('w, 'p) script \<Rightarrow> int \<Rightarrow> bool \<Rightarrow> ('w, nat) task" where
  "mainnetMain S fee SEND =
     io_bind (sc_readWallet S) (\<lambda>payer.
     io_bind (sc_getBalance S (sg_address payer)) (\<lambda>startBalance.
     io_bind (probe S payer) (\<lambda>simulated.
     if sim_err simulated \<noteq> None then io_return 1
     else if startBalance < NEEDED then io_return 1
     else if \<not> SEND then io_return 0
     else mainnetRun S fee payer)))"

text \<open>The script from its start: the endpoint is required, and the fee is read from the environment.\<close>

definition mainnetScript ::
  "(string \<Rightarrow> ('w, 'p) script) \<Rightarrow> string option \<Rightarrow> string option \<Rightarrow> string list \<Rightarrow> 'w \<Rightarrow> nat \<times> 'w" where
  "mainnetScript connect MAINNET_RPC PRIORITY_FEE argv w =
     (case truthy MAINNET_RPC of
        None \<Rightarrow> (1, w)
      | Some url \<Rightarrow>
          (case bigint_of_text (case PRIORITY_FEE of Some s \<Rightarrow> s | None \<Rightarrow> ''20000'') of
             Inl _ \<Rightarrow> (1, w)
           | Inr fee \<Rightarrow> exitCode (mainnetMain (connect url) fee (''--send'' \<in> set argv)) w))"

section \<open>Nothing is sent unless asked\<close>

text \<open>The same script on a node that does something else with the transactions it is sent. A computation that
  does not notice never sends one.\<close>

definition sending :: "(transaction \<Rightarrow> ('w, unit) task) \<Rightarrow> ('w, 'p) script \<Rightarrow> ('w, 'p) script" where
  "sending f S = S\<lparr>sc_rpc := (sc_rpc S)\<lparr>rpc_sendAndConfirm := f\<rparr>\<rparr>"

lemma sending_fields [simp]:
  "sc_points (sending f S) = sc_points S" "sc_kit (sending f S) = sc_kit S" "sc_zk (sending f S) = sc_zk S"
  "sc_readWallet (sending f S) = sc_readWallet S" "sc_getBalance (sending f S) = sc_getBalance S"
  "sc_signWithSigners (sending f S) = sc_signWithSigners S"
  "rpc_getLatestBlockhash (sc_rpc (sending f S)) = rpc_getLatestBlockhash (sc_rpc S)"
  "rpc_simulateTransaction (sc_rpc (sending f S)) = rpc_simulateTransaction (sc_rpc S)"
  "probe (sending f S) = probe S"
  by (simp_all add: sending_def probe_def [abs_def] cong: list.case_cong)

definition checked :: "('w, 'p) script \<Rightarrow> 'w \<Rightarrow> bool" where
  "checked S w \<longleftrightarrow>
     (\<exists>payer w1 balance w2 simulated w3.
        sc_readWallet S w = (Inr payer, w1) \<and> sc_getBalance S (sg_address payer) w1 = (Inr balance, w2) \<and>
        NEEDED \<le> balance \<and> probe S payer w2 = (Inr simulated, w3) \<and> sim_err simulated = None)"

lemma main_unnoticed:
  assumes "\<not> (SEND \<and> checked S w)"
  shows "mainnetMain (sending f S) fee SEND w = mainnetMain S fee SEND w"
proof -
  obtain r w1 where wallet: "sc_readWallet S w = (r, w1)" by force
  show ?thesis
  proof (cases r)
    case (Inr payer)
    obtain b w2 where asked: "sc_getBalance S (sg_address payer) w1 = (b, w2)" by force
    show ?thesis
    proof (cases b)
      case (Inr balance)
      obtain sim w3 where sim: "probe S payer w2 = (sim, w3)" by force
      show ?thesis
      proof (cases sim)
        case (Inr simulated)
        then show ?thesis
          using assms wallet asked sim \<open>r = Inr payer\<close> \<open>b = Inr balance\<close>
          by (auto simp: mainnetMain_def checked_def)
      qed (use wallet asked sim \<open>r = Inr payer\<close> \<open>b = Inr balance\<close> in \<open>simp add: mainnetMain_def\<close>)
    qed (use wallet asked \<open>r = Inr payer\<close> in \<open>simp add: mainnetMain_def\<close>)
  qed (use wallet in \<open>simp add: mainnetMain_def\<close>)
qed

text \<open>C25: The mainnet script sends nothing but on request and after its checks. Whatever a node does with
  the transactions it is sent, the exit code and the world after a run are the same, so none is sent,
  unless \<open>--send\<close> is given, the payer holds the needed amount, and the simulation of the probe passed.\<close>

theorem mainnet_sends_only_after_checks:
  "mainnetScript (\<lambda>url. sending f (connect url)) MAINNET_RPC PRIORITY_FEE argv w =
     mainnetScript connect MAINNET_RPC PRIORITY_FEE argv w \<or>
   ''--send'' \<in> set argv \<and> (\<exists>url payer w1 balance w2 simulated w3.
     truthy MAINNET_RPC = Some url \<and> sc_readWallet (connect url) w = (Inr payer, w1) \<and>
     sc_getBalance (connect url) (sg_address payer) w1 = (Inr balance, w2) \<and> NEEDED \<le> balance \<and>
     probe (connect url) payer w2 = (Inr simulated, w3) \<and> sim_err simulated = None)"
proof (cases "truthy MAINNET_RPC")
  case (Some url)
  show ?thesis
  proof (cases "''--send'' \<in> set argv \<and> checked (connect url) w")
    case True
    then show ?thesis using Some unfolding checked_def by blast
  next
    case False
    then show ?thesis
      using Some main_unnoticed [OF False] by (simp add: mainnetScript_def exitCode_def split: sum.split)
  qed
qed (simp add: mainnetScript_def)

end
