(* ===== verification/Spec2Isabelle.thy ===== *)
theory Spec2Isabelle
  imports Balances Zk_Web Csv Playground_Page Playground_Net Wallet_Buttons Cli Examples
begin

text \<open>
  A verification development for the confidential-transfers SDK, a TypeScript library for
  Token-2022 confidential transfers on Solana.

  \<^bold>\<open>The program.\<close> An application calls one asynchronous function for each operation:
  \<open>configureAccount\<close>, \<open>deposit\<close>, \<open>applyPendingBalance\<close>, \<open>transfer\<close>, \<open>withdraw\<close>,
  \<open>decryptBalance\<close>, \<open>recoverProofAccounts\<close> (one file each under \<open>src/src\<close>). An operation
  reads the accounts it acts on (\<open>internal/accounts.ts\<close>), gets the owner's keys from the caller
  or from one message signature (\<open>internal/ownerKeys.ts\<close>, \<open>keys.ts\<close>), builds instructions and
  sends them (\<open>internal/send.ts\<close>). A transfer or a withdraw is a proof flow
  (\<open>internal/confidentialTransferProof.ts\<close>): proofs are verified into accounts of their own, the
  action refers to them, and they are closed again. The encrypted amounts are computed with
  \<open>internal/confidentialTransferArithmetic.ts\<close>; a mint's transfer hook adds accounts to the
  transfer (\<open>internal/transferHook.ts\<close>). In a browser the cryptography is loaded on first use
  (\<open>internal/zk.web.ts\<close>). An auditor, who holds a key that the mint names, reads the amounts of
  transfers one by one (\<open>auditor.ts\<close>) or for an account's whole history, with a CSV export
  (\<open>auditorReport.ts\<close>); a command makes that report (\<open>cli.ts\<close>).

  The repository also holds a web page that walks a visitor through the whole life of a confidential
  token on a test network, the playground (\<open>src/playground/src/app.js\<close>): eight steps that call the SDK,
  a state that is kept in the browser's storage, and the handlers of its buttons. Its last two steps use
  a token whose transfers are checked by a hook program, Sentinel, whose instructions are built in
  \<open>sentinel.js\<close>; confirmations reach it by polling (\<open>polling.js\<close>). The examples are an application for
  browser wallets (\<open>src/examples/vite\<close>), with buttons that call the SDK, and four scripts
  (\<open>src/examples\<close>) that walk through the operations on a local validator, on devnet and on mainnet.

  \<^bold>\<open>Theories.\<close>
  \<open>Prelude\<close>: the monad \<open>('e, 'w, 'a) io\<close> of computations on a world that may throw, its
  elimination rules, the collections \<open>io_unfold\<close>, \<open>io_elim\<close>, \<open>keeps_rules\<close>, and the locales
  \<open>codec\<close> (round trips) and \<open>step_invariant\<close> (invariants of step functions).
  \<open>Errors\<close>: \<open>errors.ts\<close>. \<open>JavaScript\<close>: what the source uses of the language (numbers as
  dyadic fractions, \<open>BigInt\<close>, typed arrays). \<open>Services\<close>: the data and the interfaces of the
  libraries, as records of functions that every operation takes as arguments: \<open>'w rpc\<close> the node,
  \<open>'w kit\<close> kit with the program clients, \<open>'w zk\<close> the zk-sdk; and \<open>Promise.all\<close>.
  \<open>Arithmetic\<close>, \<open>Accounts\<close>, \<open>Proof_Flow\<close>, \<open>Keys\<close>, \<open>Transfer_Hook\<close>, \<open>Zk_Web\<close>: the
  modules of these names. \<open>Signing\<close> and \<open>Send\<close>: the two halves of \<open>internal/send.ts\<close>.
  \<open>Operations\<close> and \<open>Transfers\<close>: the operations. \<open>Balances\<close>: the balance read after a transfer or a
  withdraw. \<open>Auditor\<close>: \<open>auditor.ts\<close>, with the record of the
  program client's parsers. \<open>Auditor_Report\<close>: \<open>auditorReport.ts\<close> up to its text formats, and the
  locale \<open>page_scanner\<close> of a loop that reads pages. \<open>Csv\<close>: the text formats, with a reader for the
  exported file written from RFC 4180. \<open>Doubles\<close>: numbers typed as text, and products of doubles, with
  their rounding. \<open>Sentinel\<close>: \<open>sentinel.js\<close>. \<open>Playground_Text\<close>, \<open>Playground\<close>, \<open>Playground_Errors\<close>,
  \<open>Playground_Steps\<close>, \<open>Playground_Page\<close>: \<open>app.js\<close>, its text functions, its state and its calls of the
  SDK, how it reads an error, its steps, its handlers. \<open>Playground_Resume\<close>: what a retry of a step does.
  \<open>Playground_Net\<close>: \<open>polling.js\<close> and the wrapper of \<open>fetch\<close>, with the locale \<open>polling_loop\<close> of a loop that
  asks again. \<open>Wallet_Units\<close>, \<open>Wallet_App\<close>, \<open>Wallet_Buttons\<close>: the wallet application (\<open>main.ts\<close> and
  \<open>wallet.ts\<close>), its amounts, its handlers and its state, what its buttons do. \<open>Cli\<close>: \<open>cli.ts\<close>. \<open>Examples\<close>:
  the scripts. \<open>Concrete\<close>, \<open>Playground_Concrete\<close>: libraries and a browser that satisfy the hypotheses, for the
  witnesses only.

  \<^bold>\<open>How code and model correspond.\<close> A definition has the name of the function it models; an
  asynchronous function is a computation on the world \<open>'w\<close>, whose type no definition fixes; a
  thrown value is an \<open>exn\<close>; an input object is a record. A local closure that has state of its
  own is a definition of its own (\<open>cachedKeys\<close> for the captured variable \<open>keys\<close>). The retry
  loop \<open>for (;;)\<close> is the partial function \<open>retryLoop\<close>, whose value \<open>None\<close> is not returning;
  for a whole number of retries it equals the total function \<open>withRetries\<close> the operations use.
  The loop over the pages of a history is the partial function \<open>pagesFrom\<close> in the same sense: a
  node that never returns a short page keeps it running, and the properties about it assume a
  finite history and prove that it returns. No other definition needs fuel: the remaining loops
  recur over a list or over a counter with a measure. The playground's module variables, its storage and
  what it shows are a record \<open>page\<close> beside the world, and a step is a computation on both; the handlers
  interleave as the inductive relation \<open>tab_step\<close>. The wallet application is modelled in the same way, with
  the record \<open>ui\<close> and the relation \<open>app_step\<close>. The generators of \<open>polling.js\<close> are partial functions that
  compute their next value; the retries of \<open>fetch\<close> recur over a counter with a bound. The command and the
  scripts end with an exit code; what the command prints is the record \<open>console\<close>.

  \<^bold>\<open>What the lemmas show.\<close> For each operation: what a value it returns implies (the accounts
  were read and fit, the keys are the account's, exactly this instruction was sent), and that each
  guard refuses before anything is signed or sent. For the proof flows: every proof the zk-sdk is
  asked for is of a true statement, so a flow is built for every covered amount. For sending: no
  transaction without a passed simulation, no value unless the action was confirmed, cleanup and
  report otherwise, bounded retries, one question to each signer. Together: the balance read after a transfer or
  a withdraw, on an account that stores what the instruction carries, is the one before less the amount. For the parsers: round trips.
  For the auditor: what is read is what was transferred (a search bound of the zk-sdk's discrete
  logarithm is the hypothesis \<open>decrypts_below\<close>), the report reads the whole history, does not
  depend on the order in which its workers finish, and its CSV reads back. For the playground: a retry
  does exactly what is missing, the handlers keep one step running at a time and the finished steps in
  order (an invariant by rule induction over \<open>tab_step\<close>), the payment to Bob stands under a recorded
  refusal; and where a late answer or an unsaved stage breaks a run, that it does. For polling: a
  confirmation is notified exactly when a request sees it; a busy node is asked a bounded number of times.
  For the wallet application: the keys in memory are those of the connected wallet under any interleaving,
  amounts are read exactly, and the Send button carries out the typed transfer. For the command: it
  publishes the whole report or nothing; and that a malformed concurrency empties it. For the scripts: the
  one for mainnet sends nothing unless it is asked to and its checks passed.

  \<^bold>\<open>Not modelled.\<close> The cryptography, the program clients and the node are parameters, used with
  the documented behaviour that the hypotheses name. The tasks of a \<open>Promise.all\<close> take effect one
  after another, in the order of the list; which failure is reported first is a parameter. The text
  of the error for a handle index that is not an integer leaves out the rendered number. Of the
  playground: the progress lines a step writes while it runs and the HTML around the values it shows
  (the values are kept), the links and short addresses at the side. The body of
  a step is one transition of \<open>tab_step\<close>: it runs alone, since the page is busy; closing the page in the
  middle of one is covered only by the properties about what a retry does with what was saved. A
  handler of the wallet application is one transition of \<open>app_step\<close> in the same way: the form, which is part
  of the world, may change while it waits, but the list of wallets does not. Of that application: the endpoints from the environment (with \<open>websocketUrlFor\<close>),
  the network name at the top and the texts of the wallet buttons. Of the scripts: what they print and where
  they take endpoints and wallet files from. \<open>parseArgs\<close>, \<open>Date\<close>, \<open>URL\<close> and the file system of Node are
  parameters of the command. The build script of the playground only calls a bundler; the re-exports of
  \<open>index.ts\<close> and the second implementation in Rust (\<open>src/rust\<close>) are outside the development.
\<close>

section \<open>Across the components\<close>

text \<open>C2: The auditor reads exactly what was transferred. For every covered amount the transfer flow
  is built, and from the data of its transfer instruction both the single reading and the report
  recover that amount with the secret key of the auditor the flow was built for.\<close>

theorem auditor_recovers_transferred_amount:
  assumes "ristretto_group R" and "zk_documented R scalar keys Z" and "proof_client_ok K"
    and "holds_balance R scalar Z (tp_sourceElgamalKeypair input) (tp_aesKey input)
        (tp_sourceTokenAccount input) b" and "tp_sourceElgamalKeypair input \<in> keys"
    and "toBigInt (tp_amount input) = Inr a" "0 \<le> a" "a \<le> MAX_TRANSFER_AMOUNT" "a \<le> b"
    and "getDestinationElGamalPubkey K Z input = Inr dp" and "auditor_key K Z input = Inr (kp_pubkey k)"
    and "k \<in> keys" and "decrypts_below R scalar keys Z n" "a mod 2 ^ 16 < n" "a div 2 ^ 16 < n"
  shows "io_yields (getConfidentialTransferProofFlow R K Z input) w (\<lambda>flow _.
     \<exists>args program. ix_call (pf_action flow) = ConfidentialTransfer args program \<and>
       reportedAmount Z (kp_secret k) (ta_auditorCiphertextLo args, ta_auditorCiphertextHi args) = Inr a \<and>
       (\<forall>P data. pc_decodeTransfer P data = Inr (ta_auditorCiphertextLo args, ta_auditorCiphertextHi args) \<longrightarrow>
          auditedAmount Z P (kp_secret k) data = Inr a))"
proof -
  have read: "\<exists>args program. ix_call (pf_action flow) = ConfidentialTransfer args program \<and>
      reportedAmount Z (kp_secret k) (ta_auditorCiphertextLo args, ta_auditorCiphertextHi args) = Inr a \<and>
      (\<forall>P data. pc_decodeTransfer P data = Inr (ta_auditorCiphertextLo args, ta_auditorCiphertextHi args) \<longrightarrow>
         auditedAmount Z P (kp_secret k) data = Inr a)"
    if flow: "transfer_action_of R scalar keys Z input (kp_pubkey k) b a flow" for flow
  proof -
    obtain args program where call: "ix_call (pf_action flow) = ConfidentialTransfer args program"
      using flow unfolding transfer_action_of_def by blast
    have audited: "auditedAmount Z P (kp_secret k) data = Inr a"
      if "pc_decodeTransfer P data = Inr (ta_auditorCiphertextLo args, ta_auditorCiphertextHi args)" for P data
      by (rule flow_audited [OF flow assms(12) call assms(13,7,15,14) that])
    let ?cts = "(ta_auditorCiphertextLo args, ta_auditorCiphertextHi args)"
    have "reportedAmount Z (kp_secret k) ?cts = Inr a"
      by (rule audited_reported [OF audited [of "toy_program\<lparr>pc_decodeTransfer := \<lambda>_. Inr ?cts\<rparr>"]])
        simp_all
    with call audited show ?thesis by blast
  qed
  show ?thesis
    using transfer_flow_yields [OF assms(1-11), of w] by (rule yields_mono) (use read in blast)
qed

text \<open>A key with the secret scalar zero: every handle vanishes, and a byte decrypts to itself.\<close>

lemma toy_decrypts: "decrypts_below byte_group (\<lambda>_. 0) UNIV (toy_zk :: nat zk) 256"
proof -
  have "elgamal_decrypts (toy_zk :: nat zk) secret ct v"
    if "opens byte_group 0 ct v" "0 \<le> v" "v < 256" for secret ct v
    using that
    by (auto simp: opens_def ciphertextToPoints_def pointFromBytes_def byte_group_def smul_word
        elgamal_decrypts_def toy_zk_def idle_zk_def slice_def uint_word_of_int_eq take_bit_int_eq_self
        result_bind_eq_Inr hd_conv_nth nth_take split: sum.splits if_splits)
  then show ?thesis by (simp add: decrypts_below_def)
qed

definition small_transfer :: transfer_plan_input where
  "small_transfer = sample_transfer\<lparr>tp_amount := BigInt_v 200\<rparr>"

definition auditor_keypair :: elgamal_keypair where
  "auditor_keypair = \<lparr>kp_pubkey = [97, 117, 100, 105, 116, 111, 114], kp_secret = [3]\<rparr>"

theorem auditor_recovers_transferred_amount_witness:
  "\<exists>flow w' args program.
     getConfidentialTransferProofFlow byte_group toy_kit toy_zk small_transfer 0 = (Inr flow, w') \<and>
     ix_call (pf_action flow) = ConfidentialTransfer args program \<and>
     reportedAmount (toy_zk :: nat zk) [3] (ta_auditorCiphertextLo args, ta_auditorCiphertextHi args) = Inr 200"
proof -
  have dest: "getDestinationElGamalPubkey toy_kit toy_zk small_transfer = Inr [107]"
    by (simp add: getDestinationElGamalPubkey_def small_transfer_def sample_transfer_def token_with_def
        ct_with_def getRequiredConfidentialTransferAccountExtension_def getElGamalPubkeyFromAddress_def
        toy_kit_def toy_zk_def idle_kit_def idle_zk_def)
  have aud: "auditor_key toy_kit toy_zk small_transfer = Inr (kp_pubkey auditor_keypair)"
    by (simp add: auditor_key_def small_transfer_def sample_transfer_def getElGamalPubkeyFromAddress_def
        toy_kit_def toy_zk_def idle_kit_def idle_zk_def auditor_keypair_def)
  have fields: "tp_aesKey small_transfer = [1]" "tp_sourceTokenAccount small_transfer = token_with 0 1000"
    "tp_amount small_transfer = BigInt_v 200" "tp_sourceElgamalKeypair small_transfer = some_keypair"
    by (simp_all add: small_transfer_def sample_transfer_def)
  have "io_yields (getConfidentialTransferProofFlow byte_group toy_kit toy_zk small_transfer) 0 (\<lambda>flow _.
      \<exists>args program. ix_call (pf_action flow) = ConfidentialTransfer args program \<and>
        reportedAmount (toy_zk :: nat zk) (kp_secret auditor_keypair)
          (ta_auditorCiphertextLo args, ta_auditorCiphertextHi args) = Inr 200)"
    by (rule yields_mono [OF auditor_recovers_transferred_amount [OF byte_group_ok toy_zk_documented toy_kit_ok
            _ _ _ _ _ _ dest aud _ toy_decrypts, where b = 1000 and a = 200]])
      (auto simp: fields toy_holds_balance max_transfer_amount)
  then show ?thesis by (auto simp: io_yields_def auditor_keypair_def)
qed

text \<open>A transfer and the report mean the same auditor: the key a transfer encrypts to when none is
  given is the one a report of the same mint requires of its key pair.\<close>

theorem transfer_and_report_share_auditor:
  assumes "rpc_fetchMint R m w = (Inr data, w1)" and "rpc_fetchMint (re_rpc input) m v = (Inr data, v1)"
    and "re_mint input = m" and "\<not> re_skipAuditorKeyCheck input"
    and "auditorKeyCheck K input v = (Inr (), v2)"
  shows "\<exists>ours. getAuditorElgamalPubkey K (re_keypair input) = Inr ours \<and>
     mintAuditorKey R m w = (Inr (Some ours), w1)"
proof -
  have "readMint (re_rpc input) (re_mint input) ''listConfidentialActivity'' v = (Inr data, v1)"
    using assms(2,3) by (simp add: readMint_def)
  then obtain ours where ours: "getAuditorElgamalPubkey K (re_keypair input) = Inr ours"
      "auditorOfMint data = Some ours"
    using assms(4,5) by (auto simp: auditorKeyCheck_def io_elim split: if_splits)
  have "ct_mint_of = ct_mint_extension" by (rule ext) (case_tac x; simp)
  then have "mintAuditorKey R m w = (Inr (auditorOfMint data), w1)"
    using assms(1)
    by (simp add: mintAuditorKey_def auditorOfMint_def or_nil_def split: option.split)
  with ours show ?thesis by simp
qed

theorem transfer_and_report_share_auditor_witness:
  "mintAuditorKey (re_rpc (report_of (Some ''k'') None)) ''mint'' 0 = (Inr (Some ''k''), 0)"
proof -
  have mint: "rpc_fetchMint (re_rpc (report_of (Some ''k'') None)) ''mint'' 0 =
      (Inr \<lparr>mt_decimals = 2, mt_extensions = Some [ConfidentialTransferMint (Some ''k'')]\<rparr>, 0)"
    by (simp add: report_of_def history_rpc_def)
  have own: "getAuditorElgamalPubkey text_kit (re_keypair (report_of (Some ''k'') None)) = Inr ''k''"
    using toy_pubkey
    by (simp add: getAuditorElgamalPubkey_def assertZkReady_def report_of_def some_keypair_def)
  from transfer_and_report_share_auditor [OF mint mint _ _ toy_key_check] own show ?thesis
    by (simp add: report_of_def)
qed

end
